(* ===== verification/Prelude.thy ===== *)
theory Prelude
  imports Main "HOL-Library.Word"
begin

text \<open>
  Shared ground of the development: the machine types of the code, the values that stand for
  abnormal termination, sub-list reading (\<open>slice\<close>), and the facts on single bits of words
  that the encoding and byte-order proofs share.
\<close>

unbundle bit_operations_syntax

section \<open>Machine types\<close>

type_synonym byte = "8 word"
type_synonym u16 = "16 word"
type_synonym u32 = "32 word"
type_synonym u64 = "64 word"

text \<open>
  \<open>int32_t\<close> and \<open>int\<close> are kept as the same 32 bits and read with \<open>sint\<close>; the conversions
  between \<open>int\<close> and \<open>unsigned\<close> in the code keep the bits. A \<open>size_t\<close> that is stored or
  subtracted from is a \<open>64 word\<close>; the size of a container is a \<open>nat\<close>.
\<close>

type_synonym i32 = "32 word"
type_synonym size_t = "64 word"

section \<open>Abnormal termination\<close>

text \<open>
  The exceptions the code throws, with their messages; \<open>Exit\<close> is a call of \<open>exit\<close> and
  \<open>Undefined\<close> is behaviour the language leaves undefined (a read through a pointer that was
  never set).
\<close>

datatype stop =
    Invalid_argument string
  | Out_of_range string
  | Runtime_error string
  | Undefined
  | Exit int

type_synonym 'a result = "stop + 'a"

text \<open>Sequencing of two steps of which the first may stop.\<close>

fun andThen :: "'a result \<Rightarrow> ('a \<Rightarrow> 'b result) \<Rightarrow> 'b result" where
  "andThen (Inl e) f = Inl e"
| "andThen (Inr x) f = f x"

fun_cases andThen_InrE: "andThen r f = Inr y"
fun_cases andThen_InlE: "andThen r f = Inl e"

lemma andThen_assoc: "andThen (andThen r f) g = andThen r (\<lambda>x. andThen (f x) g)"
  by (cases r) simp_all

lemma andThen_Inr_iff: "andThen r f = Inr y \<longleftrightarrow> (\<exists>x. r = Inr x \<and> f x = Inr y)"
  by (cases r) simp_all

lemma andThen_Inr [simp]: "andThen r Inr = r"
  by (cases r) simp_all

section \<open>Collections of simplification rules\<close>

named_theorems field_simps_rv \<open>bit-level reading of instruction fields\<close>
named_theorems layout \<open>lengths and slices of serialised data\<close>

section \<open>Reading a part of a list\<close>

definition slice :: "nat \<Rightarrow> nat \<Rightarrow> 'a list \<Rightarrow> 'a list" where
  "slice off n xs = take n (drop off xs)"

lemma length_slice [layout]: "off + n \<le> length xs \<Longrightarrow> length (slice off n xs) = n"
  by (simp add: slice_def)

lemma slice_append_left: "off + n \<le> length xs \<Longrightarrow> slice off n (xs @ ys) = slice off n xs"
  by (simp add: slice_def)

lemma slice_append_right: "length xs \<le> off \<Longrightarrow> slice off n (xs @ ys) = slice (off - length xs) n ys"
  by (simp add: slice_def)

lemma slice_middle: "off = length xs \<Longrightarrow> n = length ys \<Longrightarrow> slice off n (xs @ ys @ zs) = ys"
  by (simp add: slice_def)

lemma slice_all: "n = length xs \<Longrightarrow> slice 0 n xs = xs"
  by (simp add: slice_def)

lemma slice_slice: "a + n \<le> m \<Longrightarrow> slice a n (slice b m xs) = slice (b + a) n xs"
  by (simp add: slice_def take_drop add.commute min_absorb2)

text \<open>
  Slicing through a table of equally long entries: entry \<open>i\<close> stands at \<open>i * w\<close>.
\<close>

lemma length_concat_const:
  "(\<And>x. x \<in> set xs \<Longrightarrow> length (f x) = w) \<Longrightarrow> length (concat (map f xs)) = length xs * w"
  by (induction xs) auto

lemma slice_concat_const:
  assumes "\<And>x. x \<in> set xs \<Longrightarrow> length (f x) = w" and "i < length xs"
  shows "slice (i * w) w (concat (map f xs)) = f (xs ! i)"
  using assms
proof (induction xs arbitrary: i)
  case Nil
  then show ?case by simp
next
  case (Cons x xs)
  have w: "length (f x) = w" using Cons.prems(1) by simp
  show ?case
  proof (cases i)
    case 0
    then show ?thesis using w by (simp add: slice_def)
  next
    case (Suc j)
    then have "slice (j * w) w (concat (map f xs)) = f (xs ! j)"
      using Cons by auto
    then show ?thesis using Suc w by (simp add: slice_append_right)
  qed
qed

section \<open>Single bits of words\<close>

text \<open>No bit is set at or above the width; the widths of the model are numerals.\<close>

lemma bit_beyond [field_simps_rv]: "LENGTH('a::len) \<le> n \<Longrightarrow> \<not> bit (w :: 'a word) n"
  using bit_imp_le_length [of w n] by auto

lemmas [field_simps_rv] = bit_simps

text \<open>Two 32-bit words are equal when their 32 bits are, one by one.\<close>

lemma word32_bitsI:
  assumes "list_all (\<lambda>n. bit a n = bit b n)
   [0,1,2,3,4,5,6,7,8,9,10,11,12,13,14,15,16,17,18,19,20,21,22,23,24,25,26,27,28,29,30,31]"
  shows "a = (b :: 32 word)"
proof (rule bit_word_eqI)
  fix n
  assume n: "n < LENGTH(32)"
  have "n \<in> {..<32}" using n by simp
  also have "{..<32} = set [0,1,2,3,4,5,6,7,8,9,10,11,12,13,14,15,16,17,18,19,20,21,22,23,24,
    25,26,27,28,29,30,31::nat]"
    by code_simp
  finally show "bit a n = bit b n" using assms unfolding list_all_iff by blast
qed

section \<open>Numerals\<close>

text \<open>The digits of a number in a base up to 16, as the output streams write them.\<close>

fun digit_char :: "nat \<Rightarrow> char" where
  "digit_char d = char_of (if d < 10 then 48 + d else 87 + d)"

fun digits :: "nat \<Rightarrow> nat \<Rightarrow> string" where
  "digits b n = (if b < 2 \<or> n < b then [digit_char n] else digits b (n div b) @ [digit_char (n mod b)])"

declare digits.simps [simp del] digit_char.simps [simp del]

text \<open>A signed number as a decimal numeral.\<close>

definition show_int :: "int \<Rightarrow> string" where
  "show_int i = (if i < 0 then CHR ''-'' # digits 10 (nat (- i)) else digits 10 (nat i))"

end
