(* ===== verification/Regex.thy ===== *)
theory Regex
  imports Prelude
begin

text \<open>
  The patterns of a lex specification and the longest match of a pattern. The meaning of a
  pattern is the relation \<open>matches\<close>; the match itself is found by derivatives, which is what
  the lexer evaluates.
\<close>

section \<open>Patterns and what they match\<close>

datatype rexp =
    Zero
  | One
  | Cls "char \<Rightarrow> bool"
  | Seq rexp rexp
  | Alt rexp rexp
  | Star rexp

inductive matches :: "rexp \<Rightarrow> string \<Rightarrow> bool" where
  one: "matches One []"
| cls: "p c \<Longrightarrow> matches (Cls p) [c]"
| seq: "matches r u \<Longrightarrow> matches s v \<Longrightarrow> matches (Seq r s) (u @ v)"
| altl: "matches r u \<Longrightarrow> matches (Alt r s) u"
| altr: "matches s u \<Longrightarrow> matches (Alt r s) u"
| star_nil: "matches (Star r) []"
| star_step: "matches r u \<Longrightarrow> matches (Star r) v \<Longrightarrow> matches (Star r) (u @ v)"

inductive_cases matches_ZeroE: "matches Zero w"
inductive_cases matches_StarE: "matches (Star r) w"

inductive_simps matches_simps: "matches Zero w" "matches One w" "matches (Cls p) w"
  "matches (Seq r s) w" "matches (Alt r s) w"

text \<open>The forms a specification is written in: a literal, one or more, an optional part.\<close>

fun lit :: "string \<Rightarrow> rexp" where
  "lit [] = One"
| "lit (c # cs) = Seq (Cls (\<lambda>x. x = c)) (lit cs)"

definition plus :: "rexp \<Rightarrow> rexp" where
  "plus r = Seq r (Star r)"

definition opt :: "rexp \<Rightarrow> rexp" where
  "opt r = Alt r One"

definition one_of :: "string \<Rightarrow> rexp" where
  "one_of cs = Cls (\<lambda>c. c \<in> set cs)"

definition between :: "char \<Rightarrow> char \<Rightarrow> char \<Rightarrow> bool" where
  "between lo hi c \<longleftrightarrow> (of_char lo :: nat) \<le> of_char c \<and> (of_char c :: nat) \<le> of_char hi"

lemma matches_lit [simp]: "matches (lit s) w \<longleftrightarrow> w = s"
  by (induction s arbitrary: w) (auto simp: matches_simps)

lemma matches_opt: "matches (opt r) w \<longleftrightarrow> w = [] \<or> matches r w"
  by (auto simp: opt_def matches_simps)

lemma matches_star_cls: "matches (Star (Cls p)) w \<longleftrightarrow> list_all p w"
proof
  show "matches (Star (Cls p)) w \<Longrightarrow> list_all p w"
    by (induction "Star (Cls p)" w rule: matches.induct) (auto simp: matches_simps)
  show "list_all p w \<Longrightarrow> matches (Star (Cls p)) w"
  proof (induction w)
    case (Cons c w)
    then have "matches (Star (Cls p)) ([c] @ w)"
      by (intro matches.star_step matches.cls) simp_all
    then show ?case by simp
  qed (rule matches.star_nil)
qed

section \<open>Derivatives\<close>

fun nullable :: "rexp \<Rightarrow> bool" where
  "nullable Zero = False"
| "nullable One = True"
| "nullable (Cls p) = False"
| "nullable (Seq r s) = (nullable r \<and> nullable s)"
| "nullable (Alt r s) = (nullable r \<or> nullable s)"
| "nullable (Star r) = True"

text \<open>Constructors that drop impossible and empty parts, so that derivatives stay small.\<close>

fun seq' :: "rexp \<Rightarrow> rexp \<Rightarrow> rexp" where
  "seq' Zero s = Zero"
| "seq' One s = s"
| "seq' r s = Seq r s"

fun alt' :: "rexp \<Rightarrow> rexp \<Rightarrow> rexp" where
  "alt' Zero s = s"
| "alt' r Zero = r"
| "alt' r s = Alt r s"

fun deriv :: "char \<Rightarrow> rexp \<Rightarrow> rexp" where
  "deriv c Zero = Zero"
| "deriv c One = Zero"
| "deriv c (Cls p) = (if p c then One else Zero)"
| "deriv c (Seq r s) =
     (if nullable r then alt' (seq' (deriv c r) s) (deriv c s) else seq' (deriv c r) s)"
| "deriv c (Alt r s) = alt' (deriv c r) (deriv c s)"
| "deriv c (Star r) = seq' (deriv c r) (Star r)"

lemma matches_seq' [simp]: "matches (seq' r s) w \<longleftrightarrow> matches (Seq r s) w"
  by (cases r) (auto simp: matches_simps)

lemma matches_alt' [simp]: "matches (alt' r s) w \<longleftrightarrow> matches (Alt r s) w"
  by (cases r; cases s) (auto simp: matches_simps)

lemma matches_nil: "matches r [] \<longleftrightarrow> nullable r"
  by (induction r) (auto simp: matches_simps intro: matches.star_nil)

text \<open>A nonempty word of a repetition starts with a nonempty word of what is repeated.\<close>

lemma matches_star_Cons:
  "matches (Star r) (c # w) \<longleftrightarrow> (\<exists>u v. w = u @ v \<and> matches r (c # u) \<and> matches (Star r) v)"
proof
  show "matches (Star r) (c # w) \<Longrightarrow> \<exists>u v. w = u @ v \<and> matches r (c # u) \<and> matches (Star r) v"
  proof (induction "Star r" "c # w" arbitrary: w rule: matches.induct)
    case (star_step u v)
    show ?case
    proof (cases u)
      case Nil
      then show ?thesis using star_step by simp
    next
      case (Cons c' u')
      then show ?thesis using star_step by auto
    qed
  qed
  show "\<exists>u v. w = u @ v \<and> matches r (c # u) \<and> matches (Star r) v \<Longrightarrow> matches (Star r) (c # w)"
    using matches.star_step by fastforce
qed

lemma matches_deriv: "matches (deriv c r) w \<longleftrightarrow> matches r (c # w)"
proof (induction r arbitrary: w)
  case (Seq r s)
  show ?case
  proof
    assume "matches (deriv c (Seq r s)) w"
    then consider u v where "w = u @ v" "matches r (c # u)" "matches s v"
      | "nullable r" "matches s (c # w)"
      using Seq by (auto simp: matches_simps split: if_splits)
    then show "matches (Seq r s) (c # w)"
    proof cases
      case 1
      then show ?thesis using matches.seq [of r "c # u" s v] by simp
    next
      case 2
      then show ?thesis using matches.seq [of r "[]" s "c # w"] by (simp add: matches_nil)
    qed
  next
    assume "matches (Seq r s) (c # w)"
    then obtain u v where uv: "c # w = u @ v" "matches r u" "matches s v"
      by (auto simp: matches_simps)
    show "matches (deriv c (Seq r s)) w"
    proof (cases u)
      case Nil
      then show ?thesis using uv Seq by (auto simp: matches_simps matches_nil)
    next
      case (Cons c' u')
      then show ?thesis using uv Seq by (auto simp: matches_simps)
    qed
  qed
next
  case (Star r)
  then show ?case by (auto simp: matches_star_Cons matches_simps)
qed (auto simp: matches_simps)

lemma matches_plus_cls: "matches (plus (Cls p)) w \<longleftrightarrow> w \<noteq> [] \<and> list_all p w"
proof (cases w)
  case Nil
  then show ?thesis by (simp add: plus_def matches_nil)
next
  case (Cons c cs)
  have "matches (plus (Cls p)) (c # cs) \<longleftrightarrow> p c \<and> list_all p cs"
    by (simp add: plus_def matches_simps matches_star_cls flip: matches_deriv)
  then show ?thesis using Cons by simp
qed

section \<open>The longest match\<close>

text \<open>The length of the longest prefix that the pattern matches.\<close>

fun longest :: "rexp \<Rightarrow> string \<Rightarrow> nat option" where
  "longest r [] = (if nullable r then Some 0 else None)"
| "longest r (c # cs) =
     (if r = Zero then None
      else case longest (deriv c r) cs of
        Some n \<Rightarrow> Some (Suc n)
      | None \<Rightarrow> if nullable r then Some 0 else None)"

lemma longest_None: "longest r s = None \<longleftrightarrow> (\<forall>n. \<not> matches r (take n s))"
proof (induction s arbitrary: r)
  case Nil
  then show ?case by (simp add: matches_nil)
next
  case (Cons c s)
  have "(\<forall>n. \<not> matches r (take n (c # s))) \<longleftrightarrow>
      \<not> nullable r \<and> (\<forall>n. \<not> matches (deriv c r) (take n s))"
    by (auto simp: matches_deriv matches_nil take_Cons split: nat.splits)
  then show ?case
    using Cons.IH [of "deriv c r"] by (auto simp: matches_simps split: option.splits)
qed

lemma longest_sound:
  "longest r s = Some n \<Longrightarrow>
     n \<le> length s \<and> matches r (take n s) \<and> (\<forall>m. n < m \<longrightarrow> m \<le> length s \<longrightarrow> \<not> matches r (take m s))"
proof (induction s arbitrary: r n)
  case Nil
  then show ?case by (simp add: matches_nil split: if_splits)
next
  case (Cons c s)
  then have nz: "r \<noteq> Zero" by auto
  show ?case
  proof (cases "longest (deriv c r) s")
    case None
    then have n: "n = 0" "nullable r" using Cons.prems nz by (auto split: if_splits)
    have "\<not> matches r (take m (c # s))" if "0 < m" for m
      using None that by (cases m) (simp_all add: longest_None matches_deriv)
    then show ?thesis using n by (simp add: matches_nil)
  next
    case (Some k)
    then have n: "n = Suc k" using Cons.prems nz by simp
    have k: "k \<le> length s" "matches (deriv c r) (take k s)"
      "\<forall>m. k < m \<longrightarrow> m \<le> length s \<longrightarrow> \<not> matches (deriv c r) (take m s)"
      using Cons.IH [OF Some] by blast+
    have "\<not> matches r (take m (c # s))" if "n < m" "m \<le> length (c # s)" for m
      using k(3) that n by (cases m) (simp_all add: matches_deriv)
    then show ?thesis using k(1,2) n by (simp add: matches_deriv)
  qed
qed

theorem longest_Some:
  "longest r s = Some n \<longleftrightarrow>
     n \<le> length s \<and> matches r (take n s) \<and> (\<forall>m. n < m \<longrightarrow> m \<le> length s \<longrightarrow> \<not> matches r (take m s))"
proof
  assume n: "n \<le> length s \<and> matches r (take n s) \<and> (\<forall>m. n < m \<longrightarrow> m \<le> length s \<longrightarrow> \<not> matches r (take m s))"
  then obtain k where k: "longest r s = Some k"
    using longest_None [of r s] by (cases "longest r s") auto
  have "n = k" using n longest_sound [OF k] by (meson linorder_neqE_nat)
  then show "longest r s = Some n" using k by simp
qed (rule longest_sound)

end
