(* ===== verification/Stream_Io.thy ===== *)
theory Stream_Io
  imports Prelude
begin

text \<open>
  Output: \<open>std::ostringstream\<close> as a buffer with a put position, and the \<open>write\<close> template of
  \<open>src/utils.h\<close>, which lays an integer out in a given byte order. The laws of fixed-width
  codecs are stated once, for the integers here and for the ELF structures later.
\<close>

section \<open>The output stream\<close>

record ostream =
  os_buf :: "byte list"
  os_pos :: nat

definition os_empty :: ostream where
  "os_empty = \<lparr> os_buf = [], os_pos = 0 \<rparr>"

text \<open>\<open>out.write(p, n)\<close>: overwrite from the put position on, extending the buffer at its end.\<close>

definition os_write :: "byte list \<Rightarrow> ostream \<Rightarrow> ostream" where
  "os_write bs os = os\<lparr>
     os_buf := take (os_pos os) (os_buf os) @ bs @ drop (os_pos os + length bs) (os_buf os),
     os_pos := os_pos os + length bs \<rparr>"

definition tellp :: "ostream \<Rightarrow> nat" where
  "tellp os = os_pos os"

definition seekp_end :: "ostream \<Rightarrow> ostream" where
  "seekp_end os = os\<lparr> os_pos := length (os_buf os) \<rparr>"

definition seekp_beg :: "ostream \<Rightarrow> ostream" where
  "seekp_beg os = os\<lparr> os_pos := 0 \<rparr>"

text \<open>While a file is being produced the put position is the end of the buffer.\<close>

definition at_end :: "ostream \<Rightarrow> bool" where
  "at_end os \<longleftrightarrow> os_pos os = length (os_buf os)"

lemma os_write_at_end: "at_end os \<Longrightarrow> os_write bs os = os\<lparr> os_buf := os_buf os @ bs, os_pos := length (os_buf os @ bs) \<rparr>"
  by (simp add: at_end_def os_write_def)

lemma at_end_empty [simp]: "at_end os_empty"
  by (simp add: at_end_def os_empty_def)

lemma at_end_write [simp]: "at_end os \<Longrightarrow> at_end (os_write bs os)"
  by (simp add: os_write_at_end at_end_def)

lemma os_buf_write_at_end: "at_end os \<Longrightarrow> os_buf (os_write bs os) = os_buf os @ bs"
  by (simp add: os_write_at_end)

lemma at_end_seekp_end [simp]: "at_end (seekp_end os)"
  by (simp add: at_end_def seekp_end_def)

lemma seekp_end_at_end: "at_end os \<Longrightarrow> seekp_end os = os"
  by (simp add: at_end_def seekp_end_def)

lemma os_buf_seekp [simp]: "os_buf (seekp_end os) = os_buf os" "os_buf (seekp_beg os) = os_buf os"
  by (simp_all add: seekp_end_def seekp_beg_def)

text \<open>Two writes in a row are one write of the concatenation.\<close>

lemma os_write_write:
  assumes "os_pos os \<le> length (os_buf os)"
  shows "os_write cs (os_write bs os) = os_write (bs @ cs) os"
  using assms by (simp add: os_write_def min_def ac_simps)

lemma os_pos_write_le: "os_pos os \<le> length (os_buf os) \<Longrightarrow>
    os_pos (os_write bs os) \<le> length (os_buf (os_write bs os))"
  by (simp add: os_write_def)

text \<open>Rewriting the front of a file in place leaves the rest as it is.\<close>

lemma os_write_front:
  "length bs \<le> length (os_buf os) \<Longrightarrow>
     os_buf (os_write bs (seekp_beg os)) = bs @ drop (length bs) (os_buf os)"
  by (simp add: os_write_def seekp_beg_def)

section \<open>Writing integers in a byte order\<close>

datatype byte_order = LE | BE

text \<open>
  The array \<open>bytes[sizeof(T)]\<close> is filled by the loop over \<open>i\<close>; its initial contents are
  overwritten, so zeros stand for them. \<open>sizeof(T)\<close> is \<open>LENGTH('a) div 8\<close>.
\<close>

definition write_bytes :: "'a::len word \<Rightarrow> byte_order \<Rightarrow> byte list" where
  "write_bytes value bo = (let n = LENGTH('a) div 8; bytes = replicate n 0 in
     case bo of
       LE \<Rightarrow> fold (\<lambda>i bytes. bytes[i := ucast (drop_bit (8 * i) value AND 0xFF)]) [0..<n] bytes
     | BE \<Rightarrow> fold (\<lambda>i bytes. bytes[n - i - 1 := ucast (drop_bit (8 * i) value AND 0xFF)]) [0..<n] bytes)"

definition write_int :: "'a::len word \<Rightarrow> byte_order \<Rightarrow> ostream \<Rightarrow> ostream" where
  "write_int value bo out = os_write (write_bytes value bo) out"

text \<open>The filling loops produce the mapped list, forwards or backwards.\<close>

lemma fold_update_upto:
  "k \<le> length xs \<Longrightarrow> fold (\<lambda>i bs. bs[i := g i]) [0..<k] xs = map g [0..<k] @ drop k xs"
proof (induction k)
  case (Suc k)
  then show ?case
    by (simp add: list_update_append Cons_nth_drop_Suc [symmetric])
qed simp

lemma fold_update_downto:
  "k \<le> length xs \<Longrightarrow>
     fold (\<lambda>i bs. bs[length xs - i - 1 := g i]) [0..<k] xs = take (length xs - k) xs @ rev (map g [0..<k])"
proof (induction k)
  case (Suc k)
  then have "take (length xs - k) xs = take (length xs - Suc k) xs @ [xs ! (length xs - Suc k)]"
    using take_Suc_conv_app_nth [of "length xs - Suc k" xs] by (simp add: Suc_diff_Suc)
  with Suc show ?case
    by (simp add: list_update_append)
qed simp

lemma write_bytes_LE:
  "write_bytes (v :: 'a::len word) LE =
     map (\<lambda>i. ucast (drop_bit (8 * i) v AND 0xFF)) [0..<LENGTH('a) div 8]"
  by (simp add: write_bytes_def fold_update_upto)

lemma write_bytes_BE: "write_bytes (v :: 'a::len word) BE = rev (write_bytes v LE)"
proof -
  let ?n = "LENGTH('a) div 8"
  have "write_bytes v BE = take 0 (replicate ?n 0) @
      rev (map (\<lambda>i. ucast (drop_bit (8 * i) v AND 0xFF)) [0..<?n])"
    using fold_update_downto [of ?n "replicate ?n (0 :: byte)"] by (simp add: write_bytes_def)
  then show ?thesis by (simp add: write_bytes_LE)
qed

lemma length_write_bytes [layout]: "length (write_bytes (v :: 'a::len word) bo) = LENGTH('a) div 8"
  by (cases bo) (simp_all add: write_bytes_LE write_bytes_BE)

text \<open>Bits of a word numeral are bits of the integer numeral; for the byte mask they are known.\<close>

lemma bit_byte_mask: "bit (0xFF :: int) n \<longleftrightarrow> n < 8"
proof -
  have "(0xFF :: int) = mask 8" by (simp add: mask_eq_exp_minus_1)
  then show ?thesis by (simp only: bit_mask_iff possible_bit_int simp_thms)
qed

lemma upt_numerals: "[0..<1] = [0::nat]" "[0..<2] = [0::nat, 1]" "[0..<4] = [0::nat, 1, 2, 3]"
  by (simp_all add: upt_rec)

lemma write_bytes_u8: "write_bytes (v :: byte) LE = [v]"
proof -
  have "v AND 0xFF = v" by (rule bit_word_eqI) (simp add: bit_byte_mask field_simps_rv)
  then show ?thesis by (simp add: write_bytes_LE)
qed

lemma write_bytes_u16: "write_bytes (v :: u16) LE = [ucast v, ucast (drop_bit 8 v)]"
  by (auto simp: write_bytes_LE upt_numerals bit_byte_mask field_simps_rv intro!: bit_word_eqI)

lemma write_bytes_u32:
  "write_bytes (v :: u32) LE =
     [ucast v, ucast (drop_bit 8 v), ucast (drop_bit 16 v), ucast (drop_bit 24 v)]"
  by (auto simp: write_bytes_LE upt_numerals bit_byte_mask field_simps_rv intro!: bit_word_eqI)

section \<open>The contract of a fixed-width codec\<close>

text \<open>
  The layout of an ELF file rests on two facts about every structure in it: its image has a
  fixed length, and reading the image gives the structure back. Everything about tables of
  such structures follows.
\<close>

locale fixed_codec =
  fixes enc :: "'a \<Rightarrow> byte list"
    and dec :: "byte list \<Rightarrow> 'a"
    and width :: nat
    and valid :: "'a \<Rightarrow> bool"
  assumes length_enc: "valid x \<Longrightarrow> length (enc x) = width"
    and dec_enc: "valid x \<Longrightarrow> dec (enc x) = x"
begin

lemma enc_inject: "valid x \<Longrightarrow> valid y \<Longrightarrow> enc x = enc y \<longleftrightarrow> x = y"
  by (metis dec_enc)

lemma dec_slice_middle:
  "valid x \<Longrightarrow> off = length pre \<Longrightarrow> dec (slice off width (pre @ enc x @ post)) = x"
  by (simp add: slice_middle length_enc dec_enc)

lemma length_table: "\<forall>x \<in> set xs. valid x \<Longrightarrow> length (concat (map enc xs)) = length xs * width"
  by (rule length_concat_const) (simp add: length_enc)

lemma slice_table:
  "\<forall>x \<in> set xs. valid x \<Longrightarrow> i < length xs \<Longrightarrow>
     slice (i * width) width (concat (map enc xs)) = enc (xs ! i)"
  by (rule slice_concat_const) (simp_all add: length_enc)

lemma slice_table_in:
  assumes "\<forall>x \<in> set xs. valid x" and "i < length xs" and "off = length pre"
  shows "slice (off + i * width) width (pre @ concat (map enc xs) @ post) = enc (xs ! i)"
proof -
  have "i * width + width \<le> length xs * width"
    using assms(2) by (metis Suc_leI add.commute mult_Suc mult_le_mono1)
  then show ?thesis
    using assms by (simp add: slice_append_right slice_append_left length_table slice_table)
qed

lemma dec_table_in:
  "\<forall>x \<in> set xs. valid x \<Longrightarrow> i < length xs \<Longrightarrow> off = length pre \<Longrightarrow>
     dec (slice (off + i * width) width (pre @ concat (map enc xs) @ post)) = xs ! i"
  by (simp add: slice_table_in dec_enc)

lemma dec_whole_table:
  "\<forall>x \<in> set xs. valid x \<Longrightarrow> off = length pre \<Longrightarrow>
     map (\<lambda>i. dec (slice (off + i * width) width (pre @ concat (map enc xs) @ post))) [0..<length xs] = xs"
  by (rule nth_equalityI) (simp_all add: dec_table_in)

end

text \<open>
  Reading an integer least significant byte first, as a little-endian host does when it copies
  the bytes into an integer object.
\<close>

fun read_le :: "byte list \<Rightarrow> 'a::len word" where
  "read_le [] = 0"
| "read_le (b # bs) = ucast b OR push_bit 8 (read_le bs)"

interpretation u16_le: fixed_codec "\<lambda>v :: u16. write_bytes v LE" read_le 2 "\<lambda>_. True"
proof
  show "read_le (write_bytes v LE) = v" for v :: u16
    by (rule bit_word_eqI) (auto simp: write_bytes_u16 field_simps_rv)
qed (simp add: layout)

interpretation u32_le: fixed_codec "\<lambda>v :: u32. write_bytes v LE" read_le 4 "\<lambda>_. True"
proof
  show "read_le (write_bytes v LE) = v" for v :: u32
    by (rule word32_bitsI) (simp add: write_bytes_u32 field_simps_rv)
qed (simp add: layout)

interpretation u32_be: fixed_codec "\<lambda>v :: u32. write_bytes v BE" "\<lambda>bs. read_le (rev bs)" 4 "\<lambda>_. True"
proof
  show "read_le (rev (write_bytes v BE)) = v" for v :: u32
    by (simp add: write_bytes_BE u32_le.dec_enc)
qed (simp add: layout)

end
