(* ===== verification/Elf_Types.thy ===== *)
theory Elf_Types
  imports Stream_Io
begin

text \<open>
  The ELF structures of \<open>src/defs.h\<close> and the three \<open>serialize\<close> members that
  \<open>src/elf.cc\<close> defines for them. Each structure is a fixed-width codec: its serialised form,
  read back field by field at the offsets of the C structure, is the structure.
\<close>

section \<open>Constants\<close>

definition EI_NIDENT :: nat where "EI_NIDENT = 16"
definition ET_REL :: u16 where "ET_REL = 1"
definition SHT_PROGBITS :: u32 where "SHT_PROGBITS = 1"
definition SHT_SYMTAB :: u32 where "SHT_SYMTAB = 2"
definition SHT_STRTAB :: u32 where "SHT_STRTAB = 3"
definition SHF_WRITE :: u32 where "SHF_WRITE = push_bit 0 1"
definition SHF_ALLOC :: u32 where "SHF_ALLOC = push_bit 1 1"
definition SHF_EXECINSTR :: u32 where "SHF_EXECINSTR = push_bit 2 1"
definition SHN_UNDEF :: u16 where "SHN_UNDEF = 0"
definition STB_LOCAL :: int where "STB_LOCAL = 0"
definition STB_GLOBAL :: int where "STB_GLOBAL = 1"

text \<open>Macros over \<open>int\<close>: extract the binding from, and compose, an \<open>st_info\<close> value.\<close>

definition ELF32_ST_BIND :: "int \<Rightarrow> int" where
  "ELF32_ST_BIND i = drop_bit 4 i"

definition ELF32_ST_INFO :: "int \<Rightarrow> int \<Rightarrow> int" where
  "ELF32_ST_INFO b t = push_bit 4 b + (t AND 0xf)"

definition ELF32_ST_TYPE :: "int \<Rightarrow> int" where
  "ELF32_ST_TYPE i = i AND 0xf"

definition ELF32_ST_VISIBILITY :: "int \<Rightarrow> int" where
  "ELF32_ST_VISIBILITY o' = o' AND 0x3"

text \<open>Composing an \<open>st_info\<close> and taking it apart; the binding taken of a bare binding is lost.\<close>

lemma st_info_parts:
  "ELF32_ST_BIND (ELF32_ST_INFO b t) = b" "ELF32_ST_TYPE (ELF32_ST_INFO b t) = t AND 0xf"
proof -
  have m: "x AND 0xf = take_bit 4 x" for x :: int by (simp add: take_bit_eq_mask mask_eq_exp_minus_1)
  have "push_bit 4 b + take_bit 4 t = b * 16 + t mod 16" by (simp add: push_bit_eq_mult take_bit_eq_mod)
  then show "ELF32_ST_BIND (ELF32_ST_INFO b t) = b" "ELF32_ST_TYPE (ELF32_ST_INFO b t) = t AND 0xf"
    by (simp_all add: ELF32_ST_BIND_def ELF32_ST_TYPE_def ELF32_ST_INFO_def m drop_bit_eq_div take_bit_eq_mod)
qed

lemma bind_of_binding: "0 \<le> b \<Longrightarrow> b < 16 \<Longrightarrow> ELF32_ST_BIND b = 0"
  by (simp add: ELF32_ST_BIND_def drop_bit_eq_div)

section \<open>Structures\<close>

record Elf32_Ehdr =
  e_ident :: "byte list"
  e_type :: u16
  e_machine :: u16
  e_version :: u32
  e_entry :: u32
  e_phoff :: u32
  e_shoff :: u32
  e_flags :: u32
  e_ehsize :: u16
  e_phentsize :: u16
  e_phnum :: u16
  e_shentsize :: u16
  e_shnum :: u16
  e_shstrndx :: u16

record Elf32_Shdr =
  sh_name :: u32
  sh_type :: u32
  sh_flags :: u32
  sh_addr :: u32
  sh_offset :: u32
  sh_size :: u32
  sh_link :: u32
  sh_info :: u32
  sh_addralign :: u32
  sh_entsize :: u32

record Elf32_Sym =
  st_name :: u32
  st_value :: u32
  st_size :: u32
  st_info :: byte
  st_other :: byte
  st_shndx :: u16

text \<open>\<open>sizeof\<close> of the three; no member needs padding.\<close>

definition sizeof_Ehdr :: nat where "sizeof_Ehdr = 52"
definition sizeof_Shdr :: nat where "sizeof_Shdr = 40"
definition sizeof_Sym :: nat where "sizeof_Sym = 16"

lemmas sizeof_defs = sizeof_Ehdr_def sizeof_Shdr_def sizeof_Sym_def EI_NIDENT_def

text \<open>A structure whose bytes are all zero: \<open>memset\<close>, or value initialisation.\<close>

definition zero_Shdr :: Elf32_Shdr where
  "zero_Shdr = \<lparr> sh_name = 0, sh_type = 0, sh_flags = 0, sh_addr = 0, sh_offset = 0, sh_size = 0,
     sh_link = 0, sh_info = 0, sh_addralign = 0, sh_entsize = 0 \<rparr>"

definition zero_Sym :: Elf32_Sym where
  "zero_Sym = \<lparr> st_name = 0, st_value = 0, st_size = 0, st_info = 0, st_other = 0, st_shndx = 0 \<rparr>"

definition zero_Ehdr :: Elf32_Ehdr where
  "zero_Ehdr = \<lparr> e_ident = replicate EI_NIDENT 0, e_type = 0, e_machine = 0, e_version = 0,
     e_entry = 0, e_phoff = 0, e_shoff = 0, e_flags = 0, e_ehsize = 0, e_phentsize = 0,
     e_phnum = 0, e_shentsize = 0, e_shnum = 0, e_shstrndx = 0 \<rparr>"

section \<open>Serialisation\<close>

definition Elf32_Ehdr_serialize :: "Elf32_Ehdr \<Rightarrow> ostream \<Rightarrow> ostream" where
  "Elf32_Ehdr_serialize h out =
    (let out = os_write (take EI_NIDENT (e_ident h)) out;
         out = write_int (e_type h) LE out;
         out = write_int (e_machine h) LE out;
         out = write_int (e_version h) LE out;
         out = write_int (e_entry h) LE out;
         out = write_int (e_phoff h) LE out;
         out = write_int (e_shoff h) LE out;
         out = write_int (e_flags h) LE out;
         out = write_int (e_ehsize h) LE out;
         out = write_int (e_phentsize h) LE out;
         out = write_int (e_phnum h) LE out;
         out = write_int (e_shentsize h) LE out;
         out = write_int (e_shnum h) LE out;
         out = write_int (e_shstrndx h) LE out
     in out)"

definition Elf32_Shdr_serialize :: "Elf32_Shdr \<Rightarrow> byte_order \<Rightarrow> ostream \<Rightarrow> ostream" where
  "Elf32_Shdr_serialize h order out =
    (let out = write_int (sh_name h) order out;
         out = write_int (sh_type h) order out;
         out = write_int (sh_flags h) order out;
         out = write_int (sh_addr h) order out;
         out = write_int (sh_offset h) order out;
         out = write_int (sh_size h) order out;
         out = write_int (sh_link h) order out;
         out = write_int (sh_info h) order out;
         out = write_int (sh_addralign h) order out;
         out = write_int (sh_entsize h) order out
     in out)"

definition Elf32_Sym_serialize :: "Elf32_Sym \<Rightarrow> byte_order \<Rightarrow> ostream \<Rightarrow> ostream" where
  "Elf32_Sym_serialize s bo out =
    (let out = write_int (st_name s) bo out;
         out = write_int (st_value s) bo out;
         out = write_int (st_size s) bo out;
         out = write_int (st_info s) bo out;
         out = write_int (st_other s) bo out;
         out = write_int (st_shndx s) bo out
     in out)"

section \<open>Images of the structures\<close>

definition Ehdr_image :: "Elf32_Ehdr \<Rightarrow> byte list" where
  "Ehdr_image h = take EI_NIDENT (e_ident h) @ write_bytes (e_type h) LE @
     write_bytes (e_machine h) LE @ write_bytes (e_version h) LE @ write_bytes (e_entry h) LE @
     write_bytes (e_phoff h) LE @ write_bytes (e_shoff h) LE @ write_bytes (e_flags h) LE @
     write_bytes (e_ehsize h) LE @ write_bytes (e_phentsize h) LE @ write_bytes (e_phnum h) LE @
     write_bytes (e_shentsize h) LE @ write_bytes (e_shnum h) LE @ write_bytes (e_shstrndx h) LE"

definition Shdr_image :: "byte_order \<Rightarrow> Elf32_Shdr \<Rightarrow> byte list" where
  "Shdr_image bo h = write_bytes (sh_name h) bo @ write_bytes (sh_type h) bo @
     write_bytes (sh_flags h) bo @ write_bytes (sh_addr h) bo @ write_bytes (sh_offset h) bo @
     write_bytes (sh_size h) bo @ write_bytes (sh_link h) bo @ write_bytes (sh_info h) bo @
     write_bytes (sh_addralign h) bo @ write_bytes (sh_entsize h) bo"

definition Sym_image :: "byte_order \<Rightarrow> Elf32_Sym \<Rightarrow> byte list" where
  "Sym_image bo s = write_bytes (st_name s) bo @ write_bytes (st_value s) bo @
     write_bytes (st_size s) bo @ write_bytes (st_info s) bo @ write_bytes (st_other s) bo @
     write_bytes (st_shndx s) bo"

text \<open>Each \<open>serialize\<close> writes the image in one piece.\<close>

lemma write_int_after_write:
  "os_pos os \<le> length (os_buf os) \<Longrightarrow>
     write_int v bo (os_write bs os) = os_write (bs @ write_bytes v bo) os"
  by (simp add: write_int_def os_write_write)

lemma Ehdr_serialize_image:
  "os_pos os \<le> length (os_buf os) \<Longrightarrow> Elf32_Ehdr_serialize h os = os_write (Ehdr_image h) os"
  by (simp add: Elf32_Ehdr_serialize_def Ehdr_image_def write_int_after_write)

lemma Shdr_serialize_image:
  "os_pos os \<le> length (os_buf os) \<Longrightarrow> Elf32_Shdr_serialize h bo os = os_write (Shdr_image bo h) os"
  by (simp add: Elf32_Shdr_serialize_def Shdr_image_def write_int_after_write
      write_int_def [of "sh_name h"])

lemma Sym_serialize_image:
  "os_pos os \<le> length (os_buf os) \<Longrightarrow> Elf32_Sym_serialize s bo os = os_write (Sym_image bo s) os"
  by (simp add: Elf32_Sym_serialize_def Sym_image_def write_int_after_write
      write_int_def [of "st_name s"])

section \<open>Reading the structures back\<close>

text \<open>
  Copying bytes into the C structure on a little-endian host, as \<open>tools/dis.cc\<close> does.
\<close>

definition Ehdr_read :: "byte list \<Rightarrow> Elf32_Ehdr" where
  "Ehdr_read bs = \<lparr>
     e_ident = slice 0 16 bs, e_type = read_le (slice 16 2 bs), e_machine = read_le (slice 18 2 bs),
     e_version = read_le (slice 20 4 bs), e_entry = read_le (slice 24 4 bs),
     e_phoff = read_le (slice 28 4 bs), e_shoff = read_le (slice 32 4 bs),
     e_flags = read_le (slice 36 4 bs), e_ehsize = read_le (slice 40 2 bs),
     e_phentsize = read_le (slice 42 2 bs), e_phnum = read_le (slice 44 2 bs),
     e_shentsize = read_le (slice 46 2 bs), e_shnum = read_le (slice 48 2 bs),
     e_shstrndx = read_le (slice 50 2 bs) \<rparr>"

definition Shdr_read :: "byte list \<Rightarrow> Elf32_Shdr" where
  "Shdr_read bs = \<lparr>
     sh_name = read_le (slice 0 4 bs), sh_type = read_le (slice 4 4 bs),
     sh_flags = read_le (slice 8 4 bs), sh_addr = read_le (slice 12 4 bs),
     sh_offset = read_le (slice 16 4 bs), sh_size = read_le (slice 20 4 bs),
     sh_link = read_le (slice 24 4 bs), sh_info = read_le (slice 28 4 bs),
     sh_addralign = read_le (slice 32 4 bs), sh_entsize = read_le (slice 36 4 bs) \<rparr>"

definition Sym_read :: "byte list \<Rightarrow> Elf32_Sym" where
  "Sym_read bs = \<lparr>
     st_name = read_le (slice 0 4 bs), st_value = read_le (slice 4 4 bs),
     st_size = read_le (slice 8 4 bs), st_info = read_le (slice 12 1 bs),
     st_other = read_le (slice 13 1 bs), st_shndx = read_le (slice 14 2 bs) \<rparr>"

definition Ehdr_ok :: "Elf32_Ehdr \<Rightarrow> bool" where
  "Ehdr_ok h \<longleftrightarrow> length (e_ident h) = EI_NIDENT"

lemmas slice_steps = slice_append_left slice_append_right slice_all layout

lemma read_le_u8: "read_le (write_bytes (v :: byte) LE) = v"
  by (simp add: write_bytes_u8)

lemmas read_back = u16_le.dec_enc u32_le.dec_enc read_le_u8

interpretation shdr: fixed_codec "Shdr_image LE" Shdr_read sizeof_Shdr "\<lambda>_. True"
proof
  show "Shdr_read (Shdr_image LE h) = h" for h
    by (simp add: Shdr_read_def Shdr_image_def slice_steps read_back)
qed (simp add: Shdr_image_def layout sizeof_defs)

interpretation sym: fixed_codec "Sym_image LE" Sym_read sizeof_Sym "\<lambda>_. True"
proof
  show "Sym_read (Sym_image LE s) = s" for s
    by (simp add: Sym_read_def Sym_image_def slice_steps read_back)
qed (simp add: Sym_image_def layout sizeof_defs)

interpretation ehdr: fixed_codec Ehdr_image Ehdr_read sizeof_Ehdr Ehdr_ok
proof
  show "Ehdr_read (Ehdr_image h) = h" if "Ehdr_ok h" for h
    using that by (simp add: Ehdr_read_def Ehdr_image_def Ehdr_ok_def EI_NIDENT_def slice_steps read_back)
qed (simp add: Ehdr_image_def Ehdr_ok_def layout sizeof_defs)

end
