(* ===== verification/Sections.thy ===== *)
theory Sections
  imports Elf_Types
begin

text \<open>
  The containers behind the sections: the template \<open>Section<T>\<close> of \<open>src/section.h\<close> and its
  instances \<open>Text\<close>, \<open>Data\<close> and \<open>Symtab\<close>. The section headers are shared between a section
  object and the header table of the file, so they live in an explicit store and are reached
  through pointers.
\<close>

section \<open>The store of section headers\<close>

text \<open>
  A pointer is an index into the list of headers allocated so far; \<open>None\<close> is a pointer member
  that has not been assigned. Reading or writing through it is undefined behaviour.
\<close>

type_synonym hptr = nat
type_synonym heap = "Elf32_Shdr list"

definition new_Shdr :: "heap \<Rightarrow> hptr \<times> heap" where
  "new_Shdr hp = (length hp, hp @ [zero_Shdr])"

definition hdr_get :: "hptr option \<Rightarrow> heap \<Rightarrow> Elf32_Shdr result" where
  "hdr_get p hp = (case p of
     None \<Rightarrow> Inl Undefined
   | Some a \<Rightarrow> if a < length hp then Inr (hp ! a) else Inl Undefined)"

definition hdr_update :: "hptr option \<Rightarrow> (Elf32_Shdr \<Rightarrow> Elf32_Shdr) \<Rightarrow> heap \<Rightarrow> heap result" where
  "hdr_update p f hp = (case p of
     None \<Rightarrow> Inl Undefined
   | Some a \<Rightarrow> if a < length hp then Inr (hp[a := f (hp ! a)]) else Inl Undefined)"

lemma hdr_get_Some [simp]: "a < length hp \<Longrightarrow> hdr_get (Some a) hp = Inr (hp ! a)"
  by (simp add: hdr_get_def)

lemma hdr_update_Some [simp]: "a < length hp \<Longrightarrow> hdr_update (Some a) f hp = Inr (hp[a := f (hp ! a)])"
  by (simp add: hdr_update_def)

section \<open>The template\<close>

record 't Section =
  header :: "hptr option"
  data :: "'t list"

definition last_index :: "('t, 'z) Section_scheme \<Rightarrow> nat" where
  "last_index s = (if length (data s) > 0 then length (data s) - 1 else 0)"

definition next_index :: "('t, 'z) Section_scheme \<Rightarrow> nat" where
  "next_index s = length (data s)"

text \<open>\<open>None\<close> is the result \<open>false\<close>, which leaves the caller's variable untouched.\<close>

definition get_entry :: "nat \<Rightarrow> ('t, 'z) Section_scheme \<Rightarrow> 't option" where
  "get_entry idx s = (if idx \<ge> length (data s) then None else Some (data s ! idx))"

definition update_entry :: "nat \<Rightarrow> 't \<Rightarrow> ('t, 'z) Section_scheme \<Rightarrow> bool \<times> ('t, 'z) Section_scheme" where
  "update_entry idx val s =
     (if idx \<ge> length (data s) then (False, s) else (True, s\<lparr>data := (data s)[idx := val]\<rparr>))"

text \<open>The size of a section whose class does not override it; \<open>sz\<close> is the size of an entry.\<close>

definition Section_size_in_bytes :: "nat \<Rightarrow> ('t, 'z) Section_scheme \<Rightarrow> nat" where
  "Section_size_in_bytes sz s = length (data s) * sz"

definition insert_entry :: "nat \<Rightarrow> 't \<Rightarrow> ('t, 'z) Section_scheme \<Rightarrow> bool \<times> ('t, 'z) Section_scheme" where
  "insert_entry idx val s = update_entry idx val s"

lemma get_update_same: "idx < length (data s) \<Longrightarrow> get_entry idx (snd (update_entry idx v s)) = Some v"
  by (simp add: get_entry_def update_entry_def)

lemma get_update_other: "i \<noteq> idx \<Longrightarrow> get_entry i (snd (update_entry idx v s)) = get_entry i s"
  by (simp add: get_entry_def update_entry_def)

lemma header_update_entry [simp]: "header (snd (update_entry idx v s)) = header s"
  by (simp add: update_entry_def)

lemma length_update_entry [simp]: "length (data (snd (update_entry idx v s))) = length (data s)"
  by (simp add: update_entry_def)

lemma data_update_entry: "data (snd (update_entry idx v s)) = (data s)[idx := v]"
  by (simp add: update_entry_def list_update_beyond)

section \<open>Text\<close>

type_synonym Text = "u32 Section"

definition Text_size_in_bytes :: "Text \<Rightarrow> nat" where
  "Text_size_in_bytes s = length (data s) * 4"

definition Text_push :: "u32 \<Rightarrow> Text \<Rightarrow> heap \<Rightarrow> (Text \<times> heap) result" where
  "Text_push instr s hp =
    (let s = s\<lparr>data := data s @ [instr]\<rparr> in
     andThen (hdr_update (header s) (\<lambda>h. h\<lparr>sh_size := of_nat (Text_size_in_bytes s)\<rparr>) hp)
       (\<lambda>hp. Inr (s, hp)))"

definition Text_serialize :: "byte_order \<Rightarrow> Text \<Rightarrow> ostream \<Rightarrow> ostream" where
  "Text_serialize bo s os = fold (\<lambda>t os. write_int t bo os) (data s) os"

section \<open>Data\<close>

type_synonym Data = "byte Section"

definition Data_size :: "Data \<Rightarrow> nat" where
  "Data_size s = length (data s)"

definition Data_size_in_bytes :: "Data \<Rightarrow> nat" where
  "Data_size_in_bytes s = length (data s) * 1"

text \<open>A word is stored most significant byte first.\<close>

definition Data_push_u32 :: "u32 \<Rightarrow> Data \<Rightarrow> heap \<Rightarrow> (nat \<times> Data \<times> heap) result" where
  "Data_push_u32 entry s hp =
    (let off = length (data s);
         s = s\<lparr>data := data s @ [ucast (drop_bit 24 entry AND 0xFF)]\<rparr>;
         s = s\<lparr>data := data s @ [ucast (drop_bit 16 entry AND 0xFF)]\<rparr>;
         s = s\<lparr>data := data s @ [ucast (drop_bit 8 entry AND 0xFF)]\<rparr>;
         s = s\<lparr>data := data s @ [ucast (entry AND 0xFF)]\<rparr>
     in andThen (hdr_update (header s) (\<lambda>h. h\<lparr>sh_size := of_nat (Data_size_in_bytes s)\<rparr>) hp)
          (\<lambda>hp. Inr (off, s, hp)))"

definition Data_push_string :: "string \<Rightarrow> Data \<Rightarrow> heap \<Rightarrow> (nat \<times> Data \<times> heap) result" where
  "Data_push_string entry s hp =
    (let bin = map of_char entry;
         off = length (data s);
         s = s\<lparr>data := data s @ bin\<rparr>
     in andThen (hdr_update (header s) (\<lambda>h. h\<lparr>sh_size := of_nat (Data_size_in_bytes s)\<rparr>) hp)
          (\<lambda>hp. Inr (off, s, hp)))"

text \<open>A placeholder in the source: the index is ignored.\<close>

definition Data_get_entry :: "nat \<Rightarrow> Data \<Rightarrow> byte" where
  "Data_get_entry idx s = 0xDE"

definition Data_serialize :: "byte_order \<Rightarrow> Data \<Rightarrow> ostream \<Rightarrow> ostream" where
  "Data_serialize bo s os = os_write (data s) os"

section \<open>Symbol table\<close>

type_synonym Symtab = "Elf32_Sym Section"

definition Symtab_size_in_bytes :: "Symtab \<Rightarrow> nat" where
  "Symtab_size_in_bytes s = length (data s) * sizeof_Sym"

definition Symtab_push :: "Elf32_Sym \<Rightarrow> Symtab \<Rightarrow> heap \<Rightarrow> (Symtab \<times> heap) result" where
  "Symtab_push sm s hp =
    (let s = s\<lparr>data := data s @ [sm]\<rparr> in
     andThen (hdr_update (header s) (\<lambda>h. h\<lparr>sh_size := of_nat (Symtab_size_in_bytes s)\<rparr>) hp)
       (\<lambda>hp. Inr (s, hp)))"

text \<open>The output of \<open>Symtab::serialize\<close>, and the member itself, which also sets the header.\<close>

definition Symtab_output :: "byte_order \<Rightarrow> Symtab \<Rightarrow> ostream \<Rightarrow> ostream" where
  "Symtab_output bo s os = fold (\<lambda>sm os. Elf32_Sym_serialize sm bo os) (data s) os"

definition Symtab_serialize :: "byte_order \<Rightarrow> Symtab \<Rightarrow> heap \<Rightarrow> ostream \<Rightarrow> (heap \<times> ostream) result" where
  "Symtab_serialize bo s hp os =
    (if length (data s) > 0 then
       andThen (hdr_update (header s)
           (\<lambda>h. h\<lparr>sh_offset := of_nat (tellp os), sh_size := of_nat (Symtab_size_in_bytes s)\<rparr>) hp)
         (\<lambda>hp. Inr (hp, Symtab_output bo s os))
     else Inr (hp, os))"

section \<open>The contract of a section\<close>

text \<open>
  What the file writer relies on: serialising a section at the end of the stream appends its
  image, and the size the section reports is the length of that image. It follows that the
  bytes found at the old put position, for that size, are the image, whatever is written later.
\<close>

locale section_writer =
  fixes img :: "'s \<Rightarrow> byte list"
    and size_in_bytes :: "'s \<Rightarrow> nat"
    and ser :: "'s \<Rightarrow> ostream \<Rightarrow> ostream"
  assumes size_img: "size_in_bytes s = length (img s)"
    and ser_img: "at_end os \<Longrightarrow> ser s os = os_write (img s) os"
begin

lemma at_end_ser: "at_end os \<Longrightarrow> at_end (ser s os)"
  by (simp add: ser_img)

lemma os_buf_ser: "at_end os \<Longrightarrow> os_buf (ser s os) = os_buf os @ img s"
  by (simp add: ser_img os_buf_write_at_end)

lemma tellp_ser: "at_end os \<Longrightarrow> tellp (ser s os) = tellp os + size_in_bytes s"
  by (simp add: ser_img size_img tellp_def os_write_def)

lemma slice_ser:
  "at_end os \<Longrightarrow> slice (tellp os) (size_in_bytes s) (os_buf (ser s os) @ rest) = img s"
  by (simp add: os_buf_ser size_img slice_middle tellp_def at_end_def)

end

text \<open>
  What the assembler's front end relies on when it adds an entry: the image grows at its end,
  the section's own header records the new size, and no other header changes.
\<close>

locale section_store = section_writer img size_in_bytes ser
  for img :: "'s \<Rightarrow> byte list"
    and size_in_bytes :: "'s \<Rightarrow> nat"
    and ser :: "'s \<Rightarrow> ostream \<Rightarrow> ostream" +
  fixes hdr :: "'s \<Rightarrow> hptr option"
    and push :: "'e \<Rightarrow> 's \<Rightarrow> heap \<Rightarrow> ('s \<times> heap) result"
    and enc :: "'e \<Rightarrow> byte list"
  assumes push_ok: "hdr s = Some p \<Longrightarrow> p < length hp \<Longrightarrow>
    \<exists>s'. push e s hp = Inr (s', hp[p := (hp ! p)\<lparr>sh_size := of_nat (size_in_bytes s')\<rparr>]) \<and>
         img s' = img s @ enc e \<and> hdr s' = Some p"
begin

definition synced :: "'s \<Rightarrow> heap \<Rightarrow> bool" where
  "synced s hp \<longleftrightarrow> (case hdr s of None \<Rightarrow> False
     | Some p \<Rightarrow> p < length hp \<and> sh_size (hp ! p) = of_nat (size_in_bytes s))"

lemma push_cases:
  assumes "hdr s = Some p" and "p < length hp"
  obtains s' where "push e s hp = Inr (s', hp[p := (hp ! p)\<lparr>sh_size := of_nat (size_in_bytes s')\<rparr>])"
    and "img s' = img s @ enc e" and "hdr s' = Some p"
    and "synced s' (hp[p := (hp ! p)\<lparr>sh_size := of_nat (size_in_bytes s')\<rparr>])"
  using push_ok [OF assms, of e] assms by (auto simp: synced_def)

lemma push_never_stops: "hdr s = Some p \<Longrightarrow> p < length hp \<Longrightarrow> \<exists>r. push e s hp = Inr r"
  by (meson push_ok)

lemma push_synced:
  assumes "push e s hp = Inr (s', hp')" and "hdr s = Some p" and "p < length hp"
  shows "synced s' hp'" and "img s' = img s @ enc e" and "hdr s' = Some p"
    and "length hp' = length hp" and "q \<noteq> p \<Longrightarrow> hp' ! q = hp ! q"
  using push_cases [OF assms(2,3), of e] assms(1)
  by (metis Inr_inject prod.inject length_list_update nth_list_update_neq)+

fun push_all :: "'e list \<Rightarrow> 's \<Rightarrow> heap \<Rightarrow> ('s \<times> heap) result" where
  "push_all [] s hp = Inr (s, hp)"
| "push_all (e # es) s hp = andThen (push e s hp) (\<lambda>(s, hp). push_all es s hp)"

lemma push_all_img:
  assumes "hdr s = Some p" and "p < length hp"
  shows "\<exists>s' hp'. push_all es s hp = Inr (s', hp') \<and> img s' = img s @ concat (map enc es) \<and>
           hdr s' = Some p \<and> length hp' = length hp \<and> (es \<noteq> [] \<longrightarrow> synced s' hp')"
  using assms
proof (induction es arbitrary: s hp)
  case Nil
  then show ?case by simp
next
  case (Cons e es)
  obtain s1 where s1: "push e s hp = Inr (s1, hp[p := (hp ! p)\<lparr>sh_size := of_nat (size_in_bytes s1)\<rparr>])"
    "img s1 = img s @ enc e" "hdr s1 = Some p"
    "synced s1 (hp[p := (hp ! p)\<lparr>sh_size := of_nat (size_in_bytes s1)\<rparr>])"
    using push_cases [OF Cons.prems] by blast
  show ?case
    using Cons.IH [OF s1(3), of "hp[p := (hp ! p)\<lparr>sh_size := of_nat (size_in_bytes s1)\<rparr>]"]
      Cons.prems s1 by (cases es) auto
qed

end

section \<open>Text, Data and Symtab meet it\<close>

definition Text_image :: "byte_order \<Rightarrow> Text \<Rightarrow> byte list" where
  "Text_image bo s = concat (map (\<lambda>t. write_bytes t bo) (data s))"

definition Symtab_image :: "Symtab \<Rightarrow> byte list" where
  "Symtab_image s = concat (map (Sym_image LE) (data s))"

text \<open>A loop that writes the entries one after the other writes the concatenation.\<close>

lemma fold_write_at_end:
  assumes "\<And>x os. at_end os \<Longrightarrow> w x os = os_write (f x) os" and "at_end os"
  shows "fold w xs os = os_write (concat (map f xs)) os"
  using assms(2)
proof (induction xs arbitrary: os)
  case Nil
  then show ?case by (simp add: os_write_at_end at_end_def)
next
  case (Cons x xs)
  then have "fold w (x # xs) os = os_write (concat (map f xs)) (os_write (f x) os)"
    by (simp add: assms(1))
  also have "\<dots> = os_write (concat (map f (x # xs))) os"
    using Cons.prems by (simp add: os_write_write at_end_def)
  finally show ?case .
qed

lemma length_Text_image [layout]: "length (Text_image bo s) = length (data s) * 4"
  unfolding Text_image_def by (rule length_concat_const) (simp add: layout)

lemma length_Symtab_image [layout]: "length (Symtab_image s) = length (data s) * sizeof_Sym"
  by (simp add: Symtab_image_def sym.length_table)

interpretation text_le: section_store "Text_image LE" Text_size_in_bytes "Text_serialize LE"
  header Text_push "\<lambda>t. write_bytes t LE"
proof
  show "Text_size_in_bytes s = length (Text_image LE s)" for s
    by (simp add: Text_size_in_bytes_def layout)
  show "Text_serialize LE s os = os_write (Text_image LE s) os" if "at_end os" for s os
    unfolding Text_serialize_def Text_image_def using that
    by (intro fold_write_at_end) (simp_all add: write_int_def)
qed (simp add: Text_push_def Let_def Text_image_def)

interpretation data_le: section_store data Data_size_in_bytes "Data_serialize LE"
  header "\<lambda>e s hp. andThen (Data_push_string e s hp) (\<lambda>(off, s, hp). Inr (s, hp))" "map of_char"
proof
  show "Data_serialize LE s os = os_write (data s) os" for s os
    by (simp add: Data_serialize_def)
qed (simp_all add: Data_size_in_bytes_def Data_push_string_def Let_def)

interpretation data_be: section_store data Data_size_in_bytes "Data_serialize LE"
  header "\<lambda>e s hp. andThen (Data_push_u32 e s hp) (\<lambda>(off, s, hp). Inr (s, hp))"
  "\<lambda>e. write_bytes e BE"
proof
  have be: "write_bytes e BE = [ucast (drop_bit 24 e AND 0xFF), ucast (drop_bit 16 e AND 0xFF),
      ucast (drop_bit 8 e AND 0xFF), ucast (e AND 0xFF)]" for e :: u32
    by (simp add: write_bytes_BE write_bytes_LE upt_numerals)
  show "header s = Some p \<Longrightarrow> p < length hp \<Longrightarrow>
    \<exists>s'. andThen (Data_push_u32 e s hp) (\<lambda>(off, s, hp). Inr (s, hp)) =
        Inr (s', hp[p := (hp ! p)\<lparr>sh_size := of_nat (Data_size_in_bytes s')\<rparr>]) \<and>
      data s' = data s @ write_bytes e BE \<and> header s' = Some p" for s p hp e
    by (simp add: Data_push_u32_def Let_def be)
qed

interpretation symtab_le: section_store Symtab_image Symtab_size_in_bytes "Symtab_output LE"
  header Symtab_push "Sym_image LE"
proof
  show "Symtab_size_in_bytes s = length (Symtab_image s)" for s
    by (simp add: Symtab_size_in_bytes_def layout)
  show "Symtab_output LE s os = os_write (Symtab_image s) os" if "at_end os" for s os
    unfolding Symtab_output_def Symtab_image_def using that
    by (intro fold_write_at_end) (simp_all add: Sym_serialize_image at_end_def)
qed (simp add: Symtab_push_def Let_def Symtab_image_def)

text \<open>The offset that \<open>Data::push\<close> returns is where the pushed bytes start.\<close>

lemma Data_push_string_offset:
  assumes "header s = Some p" and "p < length hp"
  shows "\<exists>s' hp'. Data_push_string v s hp = Inr (length (data s), s', hp') \<and>
     slice (length (data s)) (length v) (data s') = map of_char v"
  using assms by (simp add: Data_push_string_def Let_def slice_def)

end
