(* ===== verification/String_Table.thy ===== *)
theory String_Table
  imports Sections
begin

text \<open>
  The string tables: \<open>src/strtab.h\<close> and \<open>src/strtab.cc\<close>. The concrete operations insert before
  the last byte of the vector; the abstract view is the list of strings added so far, and the
  table is a refinement of it.
\<close>

section \<open>C strings\<close>

abbreviation NUL :: char where "NUL \<equiv> CHR 0x00"

definition strlen :: "string \<Rightarrow> nat" where
  "strlen str = length (takeWhile (\<lambda>c. c \<noteq> NUL) str)"

text \<open>The string that a pointer to the given bytes denotes.\<close>

definition c_str :: "string \<Rightarrow> string" where
  "c_str bs = takeWhile (\<lambda>c. c \<noteq> NUL) bs"

definition nul_free :: "string \<Rightarrow> bool" where
  "nul_free s \<longleftrightarrow> NUL \<notin> set s"

lemma takeWhile_nul_free: "nul_free s \<Longrightarrow> takeWhile (\<lambda>c. c \<noteq> NUL) s = s"
  by (induction s) (auto simp: nul_free_def)

lemma strlen_nul_free: "nul_free s \<Longrightarrow> strlen s = length s"
  by (simp add: strlen_def takeWhile_nul_free)

lemma take_strlen: "take (strlen s) s = c_str s"
  by (simp add: strlen_def c_str_def takeWhile_eq_take [symmetric])

lemma c_str_nul_free [simp]: "nul_free s \<Longrightarrow> c_str s = s"
  by (simp add: c_str_def takeWhile_nul_free)

lemma nul_free_c_str [simp]: "nul_free (c_str s)"
  by (auto simp: nul_free_def c_str_def dest: set_takeWhileD)

lemma c_str_append: "nul_free s \<Longrightarrow> c_str (s @ NUL # rest) = s"
  unfolding c_str_def by (subst takeWhile_append2) (auto simp: nul_free_def)

section \<open>The operations\<close>

record StringTable = "char Section" +
  is_section_header_string_table :: bool

text \<open>Inserting a range before the last byte: \<open>data.insert(data.end() - 1, first, last)\<close>.\<close>

definition insert_before_last :: "'t list \<Rightarrow> 't list \<Rightarrow> 't list" where
  "insert_before_last xs bs = take (length xs - 1) xs @ bs @ drop (length xs - 1) xs"

definition StringTable_init_table :: "StringTable \<Rightarrow> StringTable" where
  "StringTable_init_table t = (if data t = [] then t\<lparr>data := data t @ [NUL]\<rparr> else t)"

definition StringTable_new :: "bool \<Rightarrow> StringTable" where
  "StringTable_new is_shstrtab =
     (StringTable_init_table \<lparr>header = None, data = [], is_section_header_string_table = False\<rparr>)
       \<lparr>is_section_header_string_table := is_shstrtab\<rparr>"

definition StringTable_size_in_bytes :: "StringTable \<Rightarrow> nat" where
  "StringTable_size_in_bytes t = length (data t) * 1"

text \<open>The argument is \<open>None\<close> for a null pointer.\<close>

definition add_string :: "string option \<Rightarrow> StringTable \<Rightarrow> heap \<Rightarrow> (nat \<times> StringTable \<times> heap) result" where
  "add_string str t hp = (case str of
     None \<Rightarrow> Inl (Invalid_argument ''Null string passed'')
   | Some str \<Rightarrow>
      (let len = strlen str;
           (offset, t) =
             (if length (data t) < 2 then (1, t\<lparr>data := data t @ [NUL]\<rparr>)
              else (length (data t) - 1, t));
           t = t\<lparr>data := insert_before_last (data t) (take len str)\<rparr>;
           t = t\<lparr>data := insert_before_last (data t) [NUL]\<rparr>
       in andThen (hdr_update (header t) (\<lambda>h. h\<lparr>sh_size := of_nat (StringTable_size_in_bytes t)\<rparr>) hp)
            (\<lambda>hp. Inr (offset, t, hp))))"

text \<open>A pointer into the table: the bytes from the offset on.\<close>

definition get_string :: "nat \<Rightarrow> StringTable \<Rightarrow> string result" where
  "get_string offset t =
     (if offset \<ge> length (data t) then Inl (Out_of_range ''Offset out of bounds'')
      else Inr (drop offset (data t)))"

definition is_shstrtab :: "StringTable \<Rightarrow> bool" where
  "is_shstrtab t = is_section_header_string_table t"

definition StringTable_size :: "StringTable \<Rightarrow> nat" where
  "StringTable_size t = length (data t)"

definition StringTable_output :: "StringTable \<Rightarrow> ostream \<Rightarrow> ostream" where
  "StringTable_output t os = os_write (map of_char (data t)) (seekp_end os)"

definition StringTable_serialize :: "StringTable \<Rightarrow> heap \<Rightarrow> ostream \<Rightarrow> (heap \<times> ostream) result" where
  "StringTable_serialize t hp os =
    (if header t = None then Inl (Runtime_error ''Header not set'')
     else let os = seekp_end os in
       andThen (hdr_update (header t)
           (\<lambda>h. h\<lparr>sh_offset := of_nat (tellp os), sh_size := of_nat (StringTable_size_in_bytes t)\<rparr>) hp)
         (\<lambda>hp. Inr (hp, os_write (map of_char (data t)) os)))"

interpretation strtab: section_writer "\<lambda>t. map of_char (data t)" StringTable_size_in_bytes
  StringTable_output
  by unfold_locales
    (simp_all add: StringTable_size_in_bytes_def StringTable_output_def seekp_end_at_end)

section \<open>The abstract view\<close>

text \<open>
  After the strings \<open>ss\<close> have been added the table holds a leading zero byte, every string
  with its terminator, and one more zero byte at the end; a new table is the single byte.
\<close>

definition strtab_bytes :: "string list \<Rightarrow> string" where
  "strtab_bytes ss = (if ss = [] then [NUL] else NUL # concat (map (\<lambda>s. s @ [NUL]) ss) @ [NUL])"

definition strtab_offset :: "string list \<Rightarrow> nat" where
  "strtab_offset ss = Suc (length (concat (map (\<lambda>s. s @ [NUL]) ss)))"

definition strtab_rep :: "StringTable \<Rightarrow> string list \<Rightarrow> bool" where
  "strtab_rep t ss \<longleftrightarrow> data t = strtab_bytes ss \<and> (\<forall>s \<in> set ss. nul_free s)"

lemma strtab_rep_new: "strtab_rep (StringTable_new b) []"
  by (simp add: strtab_rep_def StringTable_new_def StringTable_init_table_def strtab_bytes_def)

lemma insert_before_last_snoc [simp]: "insert_before_last (xs @ [x]) bs = xs @ bs @ [x]"
  by (simp add: insert_before_last_def)

lemma insert_before_last_snoc2 [simp]: "insert_before_last (xs @ [y, x]) bs = xs @ [y] @ bs @ [x]"
  using insert_before_last_snoc [of "xs @ [y]" x bs] by simp

text \<open>Adding a string appends it to the abstract list and returns where it starts.\<close>

lemma add_string_refines:
  assumes rep: "strtab_rep t ss" and hdr: "header t = Some p" "p < length hp"
  shows "\<exists>t'. add_string (Some str) t hp =
      Inr (strtab_offset ss, t', hp[p := (hp ! p)\<lparr>sh_size := of_nat (StringTable_size_in_bytes t')\<rparr>])
    \<and> strtab_rep t' (ss @ [c_str str]) \<and> header t' = Some p
    \<and> is_section_header_string_table t' = is_section_header_string_table t"
proof (cases "ss = []")
  case True
  then have d: "data t = [NUL]" using rep by (simp add: strtab_rep_def strtab_bytes_def)
  then have "insert_before_last (data t @ [NUL]) bs = NUL # bs @ [NUL]" for bs
    using insert_before_last_snoc [of "[NUL]" NUL bs] by simp
  then show ?thesis
    using True d hdr insert_before_last_snoc [of "NUL # c_str str" NUL "[NUL]"]
    by (simp add: add_string_def Let_def take_strlen strtab_rep_def strtab_bytes_def strtab_offset_def)
next
  case False
  define body where "body = NUL # concat (map (\<lambda>s. s @ [NUL]) ss)"
  have d: "data t = body @ [NUL]"
    using rep False by (simp add: strtab_rep_def strtab_bytes_def body_def)
  have "body \<noteq> []" by (simp add: body_def)
  have off: "length body = strtab_offset ss" by (simp add: body_def strtab_offset_def)
  have "\<not> length (data t) < 2" using \<open>body \<noteq> []\<close> d by (cases body) auto
  moreover have "insert_before_last (data t) (c_str str) = body @ c_str str @ [NUL]"
    by (simp add: d)
  moreover have "insert_before_last (body @ c_str str @ [NUL]) [NUL] = body @ c_str str @ [NUL, NUL]"
    using insert_before_last_snoc [of "body @ c_str str" NUL "[NUL]"] by simp
  moreover have "\<forall>s \<in> set (ss @ [c_str str]). nul_free s"
    using rep by (auto simp: strtab_rep_def)
  ultimately show ?thesis
    using d hdr off False
    by (simp add: add_string_def Let_def take_strlen strtab_rep_def strtab_bytes_def)
      (simp add: body_def)
qed

text \<open>Every string added so far is found at its offset, also after later additions.\<close>

lemma strtab_bytes_split:
  "strtab_bytes (ss @ s # rest) = NUL # concat (map (\<lambda>s. s @ [NUL]) ss) @ s @ NUL #
     concat (map (\<lambda>s. s @ [NUL]) rest) @ [NUL]"
  by (simp add: strtab_bytes_def)

lemma get_string_offset:
  assumes "strtab_rep t (ss @ s # rest)"
  shows "\<exists>bs. get_string (strtab_offset ss) t = Inr bs \<and> c_str bs = s"
proof -
  have d: "data t = strtab_bytes (ss @ s # rest)" and nf: "nul_free s"
    using assms by (auto simp: strtab_rep_def)
  let ?pre = "NUL # concat (map (\<lambda>s. s @ [NUL]) ss)"
  have pre: "strtab_offset ss = length ?pre"
    by (simp add: strtab_offset_def)
  have split: "data t = ?pre @ s @ NUL # concat (map (\<lambda>s. s @ [NUL]) rest) @ [NUL]"
    by (simp add: d strtab_bytes_split)
  have "drop (strtab_offset ss) (data t) = s @ NUL # concat (map (\<lambda>s. s @ [NUL]) rest) @ [NUL]"
    unfolding pre split by (rule append_eq_conv_conj [THEN iffD1, THEN conjunct2, symmetric, OF refl])
  then show ?thesis
    using nf split pre by (simp add: get_string_def c_str_append)
qed

lemma strtab_bytes_last: "strtab_bytes ss \<noteq> [] \<and> last (strtab_bytes ss) = NUL \<and> hd (strtab_bytes ss) = NUL"
  by (simp add: strtab_bytes_def)

lemma StringTable_size_rep:
  "strtab_rep t ss \<Longrightarrow> ss \<noteq> [] \<Longrightarrow> StringTable_size_in_bytes t = strtab_offset ss + 1"
  by (simp add: strtab_rep_def StringTable_size_in_bytes_def strtab_bytes_def strtab_offset_def)

section \<open>The table as text\<close>

text \<open>
  What \<open>print_content\<close> prints: the bytes in rows of ten, after the offset of the row in six digits;
  a byte that cannot be printed shows as a dot, and a missing one as blanks.
\<close>

definition isprint :: "char \<Rightarrow> bool" where
  "isprint c \<longleftrightarrow> (32 :: nat) \<le> of_char c \<and> of_char c \<le> (126 :: nat)"

definition zero_padded :: "nat \<Rightarrow> nat \<Rightarrow> string" where
  "zero_padded w n = replicate (w - length (digits 10 n)) CHR ''0'' @ digits 10 n"

definition print_cell :: "string \<Rightarrow> nat \<Rightarrow> string" where
  "print_cell bs k =
     (if k < length bs then
        (if isprint (bs ! k) then '' '' @ [bs ! k] @ '' '' else '' . '')
      else ''   '')"

function print_rows :: "nat \<Rightarrow> string \<Rightarrow> string" where
  "print_rows i bs =
     (if i < length bs then
        zero_padded 6 i @ '' |'' @ concat (map (\<lambda>j. print_cell bs (i + j)) [0..<10]) @ [CHR 0x0A] @
        print_rows (i + 10) bs
      else [])"
  by auto
termination by (relation "measure (\<lambda>(i, bs). length bs - i)") auto

declare print_rows.simps [simp del]

definition print_content :: "StringTable \<Rightarrow> string" where
  "print_content t =
     [CHR 0x0A] @ ''========= strtab (size: '' @ digits 10 (length (data t)) @ '') ========='' @ [CHR 0x0A] @
     ''Offset |'' @ concat (map (\<lambda>col. '' '' @ digits 10 col @ '' '') [0..<10]) @ [CHR 0x0A] @
     ''-------+------------------------------'' @ [CHR 0x0A] @
     print_rows 0 (data t) @ ''======================================='' @ [CHR 0x0A]"

text \<open>Every row is of the same length while the offset has six digits, and there is one for ten bytes.\<close>

lemma length_print_cell [simp]: "length (print_cell bs k) = 3"
  by (simp add: print_cell_def)

lemma rows_of: "0 < d \<Longrightarrow> (d + 9) div 10 = Suc ((d - 10 + 9) div 10)" for d :: nat
  by (cases "10 \<le> d") (auto simp: div_nat_eqI dest: le_Suc_ex)

lemma length_print_rows:
  assumes "\<forall>j < length bs. length (digits 10 j) \<le> 6"
  shows "length (print_rows i bs) = 39 * ((length bs - i + 9) div 10)"
  using assms
proof (induction i bs rule: print_rows.induct)
  case (1 i bs)
  show ?case
  proof (cases "i < length bs")
    case True
    have "length (zero_padded 6 i) = 6"
      using "1.prems" True by (simp add: zero_padded_def)
    moreover have "length (concat (map (\<lambda>j. print_cell bs (i + j)) [0..<10])) = 30"
      by (simp add: length_concat comp_def sum_list_triv)
    ultimately have "length (print_rows i bs) = 39 + length (print_rows (i + 10) bs)"
      by (subst print_rows.simps) (simp add: True)
    also have "length (print_rows (i + 10) bs) = 39 * ((length bs - i - 10 + 9) div 10)"
      using "1.IH" True "1.prems" by simp
    finally show ?thesis
      using rows_of [of "length bs - i"] True by (simp only: zero_less_diff mult_Suc_right)
  qed (subst print_rows.simps, simp)
qed

end
