(* ===== verification/Lexer.thy ===== *)
theory Lexer
  imports Regex String_Table
begin

text \<open>
  The lexer: the rules of \<open>riscvass.l\<close> in their order, with the values their actions store in
  \<open>yylval\<close>. The rules are read the way the lex language defines them: the longest match
  wins, and among equally long ones the first rule. The messages for unknown characters are left
  out; the line counter, which only reaches messages, is in \<open>Diagnostics\<close>.
\<close>

section \<open>Tokens\<close>

text \<open>
  The tokens of \<open>riscvass.y\<close> that the lexer returns: those with a value, and the keywords.
\<close>

datatype (plugins only: code) keyword =
    K_COMMA | K_COLON | K_PAREN_OPEN | K_PAREN_CLOSE | K_ADD | K_ADDI
  | K_AND | K_ANDI | K_SUB | K_OR | K_ORI | K_XOR
  | K_XORI | K_SLL | K_SLLI | K_SRL | K_SRLI | K_SRA
  | K_SRAI | K_BLT | K_BLTU | K_BEQ | K_BNE | K_BGE
  | K_BGEU | K_LW | K_LH | K_LHU | K_LB | K_LBU
  | K_SW | K_SH | K_SB | K_SLT | K_SLTI | K_SLTIU
  | K_SLTU | K_JAL | K_JALR | K_ECALL | K_EBREAK | K_FENCE
  | K_LUI | K_AUIPC | K_JUMP | K_MOV | K_RET | K_LI
  | K_LA | K_SECTION | K_DIRECTIVE_COMMAND | K_D_GLOBAL | K_D_DATA | K_D_TEXT
  | K_D_SIZE | K_D_RODATA | K_D_BSS | K_D_ASCII | K_PCT | K_HI
  | K_LO

datatype token =
    T_REG i32
  | T_IMM i32
  | T_STRING string
  | T_SYMBOL string
  | Key keyword

section \<open>Numbers\<close>

text \<open>
  \<open>strtol\<close> on a 64-bit \<open>long\<close>: it stops at the first character that is no digit of the base and
  saturates. \<open>atoi\<close> is \<open>strtol\<close> in base 10. The result is stored in an \<open>int\<close>, which keeps the
  low 32 bits.
\<close>

definition digit_value :: "char \<Rightarrow> nat" where
  "digit_value c = (let n = of_char c in
     if 48 \<le> n \<and> n \<le> 57 then n - 48
     else if 97 \<le> n \<and> n \<le> 102 then n - 87
     else if 65 \<le> n \<and> n \<le> 70 then n - 55
     else 16)"

fun strtol_digits :: "nat \<Rightarrow> nat \<Rightarrow> string \<Rightarrow> nat" where
  "strtol_digits base acc [] = acc"
| "strtol_digits base acc (c # cs) =
     (if digit_value c < base then strtol_digits base (acc * base + digit_value c) cs else acc)"

definition clamp_long :: "int \<Rightarrow> int" where
  "clamp_long i = max (- (2 ^ 63)) (min (2 ^ 63 - 1) i)"

definition strtol :: "nat \<Rightarrow> string \<Rightarrow> int" where
  "strtol base s = clamp_long
     (case s of
        [] \<Rightarrow> 0
      | c # cs \<Rightarrow> if c = CHR ''-'' then - int (strtol_digits base 0 cs)
                else if c = CHR ''+'' then int (strtol_digits base 0 cs)
                else int (strtol_digits base 0 s))"

definition atoi :: "string \<Rightarrow> i32" where
  "atoi s = word_of_int (strtol 10 s)"

section \<open>The rules\<close>

text \<open>An action returns a token, or \<open>None\<close> where the scanner goes on.\<close>

type_synonym action = "string \<Rightarrow> token option"
type_synonym rule = "rexp \<times> action"

definition skip :: action where
  "skip = (\<lambda>yytext. None)"

definition ret :: "token \<Rightarrow> action" where
  "ret t = (\<lambda>yytext. Some t)"

definition newline_char :: char where
  "newline_char = CHR 0x0A"

text \<open>White space, comments and punctuation. The fourth class is a backslash or the letter n.\<close>

definition rules_blank :: "rule list" where
  "rules_blank =
    [(one_of [CHR 0x09, CHR '' ''], skip),
     (Seq (lit ''#'') (Star (Cls (\<lambda>c. c \<noteq> newline_char))), skip),
     (one_of [newline_char], skip),
     (one_of [CHR 0x5C, CHR ''n''], skip),
     (lit ''('', ret (Key K_PAREN_OPEN)),
     (lit '')'', ret (Key K_PAREN_CLOSE)),
     (lit '':'', ret (Key K_COLON)),
     (lit ''%'', ret (Key K_PCT)),
     (lit ''j'', ret (Key K_JUMP))]"

definition rules_mnemonics :: "rule list" where
  "rules_mnemonics =
    [(lit ''add'', ret (Key K_ADD)), (lit ''addi'', ret (Key K_ADDI)), (lit ''and'', ret (Key K_AND)),
     (lit ''andi'', ret (Key K_ANDI)), (lit ''sub'', ret (Key K_SUB)), (lit ''li'', ret (Key K_LI)),
     (lit ''beq'', ret (Key K_BEQ)), (lit ''bne'', ret (Key K_BNE)), (lit ''bge'', ret (Key K_BGE)),
     (lit ''bgeu'', ret (Key K_BGEU)), (lit ''blt'', ret (Key K_BLT)), (lit ''bltu'', ret (Key K_BLTU)),
     (lit ''la'', ret (Key K_LA)), (lit ''lb'', ret (Key K_LB)), (lit ''lbu'', ret (Key K_LBU)),
     (lit ''lh'', ret (Key K_LH)), (lit ''lhu'', ret (Key K_LHU)), (lit ''lw'', ret (Key K_LW)),
     (lit ''mv'', ret (Key K_MOV)), (lit ''or'', ret (Key K_OR)), (lit ''ori'', ret (Key K_ORI)),
     (lit ''sb'', ret (Key K_SB)), (lit ''sh'', ret (Key K_SH)), (lit ''sll'', ret (Key K_SLL)),
     (lit ''slli'', ret (Key K_SLLI)), (lit ''slt'', ret (Key K_SLT)), (lit ''slti'', ret (Key K_SLTI)),
     (lit ''sltiu'', ret (Key K_SLTIU)), (lit ''sltu'', ret (Key K_SLTU)), (lit ''sra'', ret (Key K_SRA)),
     (lit ''srai'', ret (Key K_SRAI)), (lit ''srl'', ret (Key K_SRL)), (lit ''srli'', ret (Key K_SRLI)),
     (lit ''sw'', ret (Key K_SW)), (lit ''xor'', ret (Key K_XOR)), (lit ''xori'', ret (Key K_XORI)),
     (lit ''ecall'', ret (Key K_ECALL)), (lit ''ebreak'', ret (Key K_EBREAK)), (lit ''ret'', ret (Key K_RET)),
     (lit ''jal'', ret (Key K_JAL)), (lit ''jalr'', ret (Key K_JALR)), (lit ''fence'', ret (Key K_FENCE)),
     (lit ''lui'', ret (Key K_LUI)), (lit ''auipc'', ret (Key K_AUIPC)), (lit ''hi'', ret (Key K_HI)),
     (lit ''lo'', ret (Key K_LO))]"

text \<open>Immediates: decimal, hexadecimal and binary.\<close>

definition digits_class :: string where
  "digits_class = ''0123456789''"

definition rules_numbers :: "rule list" where
  "rules_numbers =
    [(Seq (opt (one_of ''+-'')) (plus (one_of digits_class)), \<lambda>yytext. Some (T_IMM (atoi yytext))),
     (Seq (lit ''0'') (Seq (one_of ''xX'') (plus (one_of (digits_class @ ''abcdefABCDEF'')))),
       \<lambda>yytext. Some (T_IMM (word_of_int (strtol 16 (drop 2 yytext))))),
     (Seq (lit ''0'') (Seq (one_of ''bB'') (plus (one_of ''01''))),
       \<lambda>yytext. Some (T_IMM (word_of_int (strtol 2 (drop 2 yytext)))))]"

definition rules_registers :: "rule list" where
  "rules_registers =
    [(lit ''zero'', ret (T_REG 0)),
     (lit ''ra'', ret (T_REG 1)),
     (lit ''sp'', ret (T_REG 2)),
     (lit ''gp'', ret (T_REG 3)),
     (lit ''tp'', ret (T_REG 4)),
     (Seq (lit ''a'') (one_of ''01234567''), \<lambda>yytext. Some (T_REG (10 + atoi (drop 1 yytext)))),
     (Seq (lit ''t'') (one_of ''012''), \<lambda>yytext. Some (T_REG (5 + atoi (drop 1 yytext)))),
     (Seq (lit ''t'') (one_of ''3456''), \<lambda>yytext. Some (T_REG (25 + atoi (drop 1 yytext)))),
     (Seq (lit ''s'') (one_of ''01''), \<lambda>yytext. Some (T_REG (8 + atoi (drop 1 yytext)))),
     (Seq (lit ''s'') (Alt (one_of ''23456789'') (Seq (lit ''1'') (one_of ''01''))),
       \<lambda>yytext. Some (T_REG (16 + atoi (drop 1 yytext)))),
     (Seq (lit ''x'') (Alt (one_of digits_class)
         (Alt (Seq (one_of ''12'') (one_of digits_class)) (Seq (lit ''3'') (one_of ''01'')))),
       \<lambda>yytext. Some (T_REG (atoi (drop 1 yytext))))]"

definition alnum :: "char \<Rightarrow> bool" where
  "alnum c \<longleftrightarrow> between CHR ''a'' CHR ''z'' c \<or> between CHR ''A'' CHR ''Z'' c \<or> between CHR ''0'' CHR ''9'' c"

definition rules_names :: "rule list" where
  "rules_names =
    [(lit ''.section'', ret (Key K_SECTION)),
     (lit ''.text'', ret (Key K_D_TEXT)),
     (lit ''.data'', ret (Key K_D_DATA)),
     (lit ''.rodata'', ret (Key K_D_RODATA)),
     (lit ''.bss'', ret (Key K_D_BSS)),
     (lit ''.size'', ret (Key K_D_SIZE)),
     (Seq (lit ''.glob'') (Seq (opt (lit ''a'')) (lit ''l'')), ret (Key K_D_GLOBAL)),
     (lit ''.ascii'', ret (Key K_D_ASCII)),
     (Seq (lit ''.'') (Star (Cls alnum)), ret (Key K_DIRECTIVE_COMMAND)),
     (Seq (opt (lit ''_'')) (Star (Cls alnum)), \<lambda>yytext. Some (T_SYMBOL (c_str yytext))),
     (Seq (lit [CHR 0x22]) (Seq (Star (Cls (\<lambda>c. c \<noteq> CHR 0x22))) (lit [CHR 0x22])),
       \<lambda>yytext. Some (T_STRING (c_str yytext))),
     (lit '','', ret (Key K_COMMA)),
     (Cls (\<lambda>c. c \<noteq> newline_char), skip)]"

definition rules :: "rule list" where
  "rules = rules_blank @ rules_mnemonics @ rules_numbers @ rules_registers @ rules_names"

lemmas rules_defs = rules_blank_def rules_mnemonics_def rules_numbers_def rules_registers_def rules_names_def

section \<open>Scanning\<close>

text \<open>The length of the longest match of all rules and the first rule that has it.\<close>

fun pick :: "rule list \<Rightarrow> string \<Rightarrow> (nat \<times> rule) option" where
  "pick [] s = None"
| "pick (r # rs) s = (case longest (fst r) s of
     None \<Rightarrow> pick rs s
   | Some n \<Rightarrow> (case pick rs s of
       None \<Rightarrow> Some (n, r)
     | Some (m, q) \<Rightarrow> if m > n then Some (m, q) else Some (n, r)))"

text \<open>
  What no rule matches goes to the default rule of flex, a character at a time. The rules leave
  nothing to it (\<open>scan_total\<close>).
\<close>

definition default_rule :: rule where
  "default_rule = (Cls (\<lambda>c. True), skip)"

text \<open>
  The input cut into lexemes, each with the rule that matched it, up to the end of the file. A rule
  that matches the empty string where no rule matches more, as that for symbols could, leaves the
  scanner where it was: then it never gets to the end, which is the result \<open>None\<close>.
\<close>

partial_function (option) scan :: "string \<Rightarrow> (rule \<times> string) list option" where
  "scan s =
     (if s = [] then Some []
      else case pick rules s of
        None \<Rightarrow> Option.bind (scan (drop 1 s)) (\<lambda>ls. Some ((default_rule, take 1 s) # ls))
      | Some (n, r) \<Rightarrow> Option.bind (scan (drop n s)) (\<lambda>ls. Some ((r, take n s) # ls)))"

declare scan.simps [code]

definition lexemes :: "string \<Rightarrow> (rule \<times> string) list" where
  "lexemes s = (case scan s of None \<Rightarrow> [] | Some ls \<Rightarrow> ls)"

text \<open>The tokens that successive calls of \<open>yylex\<close> return until the end of the file.\<close>

definition yylex_all :: "string \<Rightarrow> token list" where
  "yylex_all s = List.map_filter (\<lambda>(r, yytext). snd r yytext) (lexemes s)"

section \<open>What the scanner does\<close>

text \<open>
  The lex discipline as a relation: rule \<open>r\<close> takes the first \<open>n\<close> characters when it matches
  them, no rule matches more, and no earlier rule matches as much.
\<close>

definition munch :: "rule list \<Rightarrow> string \<Rightarrow> nat \<Rightarrow> rule \<Rightarrow> bool" where
  "munch rs s n r \<longleftrightarrow> n \<le> length s \<and> (\<exists>i < length rs. rs ! i = r \<and> matches (fst r) (take n s) \<and>
     (\<forall>q \<in> set rs. \<forall>m. n < m \<longrightarrow> m \<le> length s \<longrightarrow> \<not> matches (fst q) (take m s)) \<and>
     (\<forall>j < i. \<not> matches (fst (rs ! j)) (take n s)))"

lemma pick_None: "pick rs s = None \<longleftrightarrow> (\<forall>q \<in> set rs. longest (fst q) s = None)"
  by (induction rs) (auto split: option.splits)

lemma pick_bound: "pick rs s = Some (n, r) \<Longrightarrow> q \<in> set rs \<Longrightarrow> longest (fst q) s = Some m \<Longrightarrow> m \<le> n"
proof (induction rs arbitrary: n r)
  case (Cons x rs)
  then show ?case
    by (cases "pick rs s") (fastforce simp: pick_None split: option.splits if_splits prod.splits)+
qed simp

lemma pick_first:
  "pick rs s = Some (n, r) \<Longrightarrow> \<exists>i < length rs. rs ! i = r \<and> longest (fst r) s = Some n \<and>
     (\<forall>j < i. \<forall>m. longest (fst (rs ! j)) s = Some m \<longrightarrow> m < n)"
proof (induction rs arbitrary: n r)
  case (Cons x rs)
  show ?case
  proof (cases "pick rs s")
    case None
    then have "longest (fst x) s = Some n \<and> r = x"
      using Cons.prems by (auto split: option.splits)
    then show ?thesis by (intro exI [of _ 0]) simp
  next
    case (Some p)
    obtain m q where p: "p = (m, q)" by (cases p) blast
    show ?thesis
    proof (cases "\<exists>k. longest (fst x) s = Some k \<and> m \<le> k")
      case True
      then have "longest (fst x) s = Some n \<and> r = x"
        using Cons.prems Some p by auto
      then show ?thesis by (intro exI [of _ 0]) simp
    next
      case False
      then have mq: "n = m \<and> r = q"
        using Cons.prems Some p by (auto split: option.splits if_splits)
      have less: "k < n" if "longest (fst x) s = Some k" for k
        using False mq that by auto
      obtain i where i: "i < length rs" "rs ! i = r" "longest (fst r) s = Some n"
          "\<forall>j < i. \<forall>m. longest (fst (rs ! j)) s = Some m \<longrightarrow> m < n"
        using Cons.IH Some p mq by blast
      have "\<forall>j < Suc i. \<forall>m. longest (fst ((x # rs) ! j)) s = Some m \<longrightarrow> m < n"
        using i(4) less by (auto simp: nth_Cons split: nat.splits)
      then show ?thesis using i by (intro exI [of _ "Suc i"]) simp
    qed
  qed
qed simp

lemma matches_le_longest:
  assumes "matches r (take m s)" and "m \<le> length s"
  obtains k where "longest r s = Some k" and "m \<le> k"
proof (cases "longest r s")
  case None
  then show ?thesis using assms longest_None by blast
next
  case (Some k)
  then have "\<not> k < m" using assms longest_sound by blast
  then show ?thesis using that Some by simp
qed

theorem pick_munch: "pick rs s = Some (n, r) \<longleftrightarrow> munch rs s n r"
proof
  assume p: "pick rs s = Some (n, r)"
  then obtain i where i: "i < length rs" "rs ! i = r" "longest (fst r) s = Some n"
      "\<forall>j < i. \<forall>m. longest (fst (rs ! j)) s = Some m \<longrightarrow> m < n"
    using pick_first by blast
  have n: "n \<le> length s" using longest_sound [OF i(3)] by blast
  have "\<not> matches (fst q) (take m s)" if q: "q \<in> set rs" "n < m" "m \<le> length s" for q m
  proof
    assume "matches (fst q) (take m s)"
    then obtain k where "longest (fst q) s = Some k" "m \<le> k"
      using matches_le_longest q(3) by blast
    then show False using pick_bound [OF p q(1)] q(2) by fastforce
  qed
  moreover have "\<not> matches (fst (rs ! j)) (take n s)" if "j < i" for j
  proof
    assume "matches (fst (rs ! j)) (take n s)"
    then obtain k where "longest (fst (rs ! j)) s = Some k" "n \<le> k"
      using matches_le_longest n by blast
    then show False using i(4) that by fastforce
  qed
  ultimately show "munch rs s n r"
    using i(1,2) longest_sound [OF i(3)] unfolding munch_def by blast
next
  assume "munch rs s n r"
  then obtain i where i: "n \<le> length s" "i < length rs" "rs ! i = r" "matches (fst r) (take n s)"
      "\<forall>q \<in> set rs. \<forall>m. n < m \<longrightarrow> m \<le> length s \<longrightarrow> \<not> matches (fst q) (take m s)"
      "\<forall>j < i. \<not> matches (fst (rs ! j)) (take n s)"
    unfolding munch_def by blast
  have "r \<in> set rs" using i(2,3) by auto
  then have l: "longest (fst r) s = Some n" using i by (simp add: longest_Some)
  then obtain n' r' where p: "pick rs s = Some (n', r')"
    using pick_None [of rs s] \<open>r \<in> set rs\<close> by (cases "pick rs s") auto
  then obtain i' where i': "i' < length rs" "rs ! i' = r'" "longest (fst r') s = Some n'"
      "\<forall>j < i'. \<forall>m. longest (fst (rs ! j)) s = Some m \<longrightarrow> m < n'"
    using pick_first by blast
  have "n \<le> n'" by (rule pick_bound [OF p \<open>r \<in> set rs\<close> l])
  moreover have "n' \<le> n"
  proof (rule ccontr)
    assume "\<not> n' \<le> n"
    then show False using i(5) i'(1,2) longest_sound [OF i'(3)] by (meson not_le nth_mem)
  qed
  ultimately have n: "n' = n" by simp
  have "\<not> i < i'" using i'(4) i(3) l n by blast
  moreover have "\<not> i' < i" using i(6) i'(2) longest_sound [OF i'(3)] n by blast
  ultimately have "i' = i" by simp
  then show "pick rs s = Some (n, r)" using p n i(3) i'(2) by simp
qed

text \<open>Every character starts some lexeme, so scanning always advances.\<close>

lemma pick_progress:
  assumes "s \<noteq> []"
  obtains n r where "pick rules s = Some (n, r)" and "0 < n" and "n \<le> length s"
proof -
  obtain c cs where s: "s = c # cs" using assms by (cases s) auto
  have in_rules: "(Cls (\<lambda>c. c \<noteq> newline_char), skip) \<in> set rules" "(one_of [newline_char], skip) \<in> set rules"
    unfolding rules_def rules_names_def rules_blank_def set_append by simp_all
  obtain x where x: "x \<in> set rules" "matches (fst x) (take 1 s)"
  proof (cases "c = newline_char")
    case True
    then show ?thesis using that [OF in_rules(2)] s by (simp add: one_of_def matches_simps)
  next
    case False
    then show ?thesis using that [OF in_rules(1)] s by (simp add: matches_simps)
  qed
  have "1 \<le> length s" using s by simp
  then obtain k where k: "longest (fst x) s = Some k" "1 \<le> k"
    using matches_le_longest [OF x(2)] by blast
  then obtain n r where p: "pick rules s = Some (n, r)"
    using pick_None [of rules s] x(1) by (cases "pick rules s") auto
  have "k \<le> n" by (rule pick_bound [OF p x(1) k(1)])
  moreover have "n \<le> length s" using p pick_munch munch_def by blast
  ultimately show ?thesis using that p k(2) by simp
qed

theorem scan_total: "scan s = Some (lexemes s)"
proof (induction "length s" arbitrary: s rule: less_induct)
  case less
  show ?case
  proof (cases "s = []")
    case True
    then show ?thesis by (simp add: lexemes_def scan.simps [of "[]"])
  next
    case False
    then obtain n r where n: "pick rules s = Some (n, r)" "0 < n" "n \<le> length s"
      using pick_progress by blast
    then obtain ls where "scan (drop n s) = Some ls" using less [of "drop n s"] False by auto
    then show ?thesis using n(1) False by (simp add: lexemes_def scan.simps [of s])
  qed
qed

lemma lexemes_Nil [simp]: "lexemes [] = []"
  by (simp add: lexemes_def scan.simps [of "[]"])

lemma lexemes_step:
  "pick rules s = Some (n, r) \<Longrightarrow> 0 < n \<Longrightarrow> s \<noteq> [] \<Longrightarrow> lexemes s = (r, take n s) # lexemes (drop n s)"
  using scan_total [of s] scan_total [of "drop n s"] by (simp add: scan.simps [of s])

text \<open>A tokenization of the input: lexemes cut off one by one under the lex discipline.\<close>

inductive tokenization :: "string \<Rightarrow> (rule \<times> string) list \<Rightarrow> bool" where
  tk_nil: "tokenization [] []"
| tk_step: "w \<noteq> [] \<Longrightarrow> munch rules (w @ s) (length w) r \<Longrightarrow> tokenization s ls \<Longrightarrow>
    tokenization (w @ s) ((r, w) # ls)"

inductive_cases tokenization_ConsE: "tokenization s (l # ls)"

theorem tokenization_lexemes: "tokenization s ls \<longleftrightarrow> ls = lexemes s"
proof
  show "tokenization s ls \<Longrightarrow> ls = lexemes s"
  proof (induction rule: tokenization.induct)
    case (tk_step w s r ls)
    then have "pick rules (w @ s) = Some (length w, r)" by (simp add: pick_munch)
    then show ?case using lexemes_step [of "w @ s" "length w" r] tk_step by simp
  qed simp
  have "tokenization s (lexemes s)"
  proof (induction "length s" arbitrary: s rule: less_induct)
    case less
    show ?case
    proof (cases "s = []")
      case True
      then show ?thesis by (simp add: tokenization.tk_nil)
    next
      case False
      then obtain n r where n: "pick rules s = Some (n, r)" "0 < n" "n \<le> length s"
        using pick_progress by blast
      have "tokenization (drop n s) (lexemes (drop n s))" using less n False by simp
      moreover have "munch rules (take n s @ drop n s) (length (take n s)) r"
        using n by (simp add: pick_munch min_absorb2)
      moreover have "take n s \<noteq> []" using n(2) False by simp
      ultimately have "tokenization (take n s @ drop n s) ((r, take n s) # lexemes (drop n s))"
        by (intro tokenization.tk_step)
      then show ?thesis using lexemes_step [OF n(1,2) False] by simp
    qed
  qed
  then show "ls = lexemes s \<Longrightarrow> tokenization s ls" by simp
qed

lemma lexemes_cover: "concat (map snd (lexemes s)) = s"
proof -
  have "tokenization t ls \<Longrightarrow> concat (map snd ls) = t" for t ls
    by (induction rule: tokenization.induct) simp_all
  then show ?thesis by (simp add: tokenization_lexemes)
qed

lemma lexemes_matches: "(r, w) \<in> set (lexemes s) \<Longrightarrow> r \<in> set rules \<and> matches (fst r) w"
proof -
  have "tokenization t ls \<Longrightarrow> (r, w) \<in> set ls \<Longrightarrow> r \<in> set rules \<and> matches (fst r) w" for t ls
    by (induction rule: tokenization.induct) (auto simp: munch_def dest: nth_mem)
  then show "(r, w) \<in> set (lexemes s) \<Longrightarrow> r \<in> set rules \<and> matches (fst r) w"
    by (simp add: tokenization_lexemes)
qed

section \<open>Register numbers\<close>

text \<open>What the rules put into a register token is below 32.\<close>

lemma rules_registers_bound:
  assumes "r \<in> set rules_registers" and "matches (fst r) w" and "snd r w = Some (T_REG v)"
  shows "v < 32"
  using assms
  by (auto simp: rules_registers_def ret_def matches_simps one_of_def digits_class_def atoi_def
      strtol_def digit_value_def clamp_long_def)

lemma other_rules_no_reg:
  "r \<in> set (rules_blank @ rules_mnemonics @ rules_numbers @ rules_names) \<Longrightarrow> snd r w \<noteq> Some (T_REG v)"
  by (auto simp: rules_blank_def rules_mnemonics_def rules_numbers_def rules_names_def ret_def skip_def)

lemma yylex_all_reg_bound: "T_REG v \<in> set (yylex_all s) \<Longrightarrow> v < 32"
proof -
  assume "T_REG v \<in> set (yylex_all s)"
  then obtain r w where rw: "(r, w) \<in> set (lexemes s)" "snd r w = Some (T_REG v)"
    by (auto simp: yylex_all_def List.map_filter_def)
  then have r: "r \<in> set rules" "matches (fst r) w" using lexemes_matches by blast+
  then have "r \<in> set rules_registers"
    using other_rules_no_reg [of r w v] rw(2) by (auto simp: rules_def)
  then show ?thesis using rules_registers_bound r(2) rw(2) by blast
qed

end
