(* ===== verification/Encoding.thy ===== *)
theory Encoding
  imports Prelude
begin

text \<open>
  Instruction words: \<open>src/encoding.h\<close>, \<open>src/encoding.cc\<close> and \<open>src/opcodes.h\<close>,
  \<open>src/opcodes.cc\<close>. Each bit-field struct is a record whose fields are words of the declared
  width, so that storing a wider value into a field truncates it (\<open>ucast\<close>) as the bit-field
  assignment does. The conversion operators are the \<open>_to_uint32\<close> definitions.
\<close>

section \<open>Bit-field structures\<close>

text \<open>\<open>BIT_MASK(n)\<close> computes with \<open>1ULL\<close>, in 64 bits; the callers use \<open>n < 64\<close> only.\<close>

definition BIT_MASK :: "nat \<Rightarrow> u64" where
  "BIT_MASK n = push_bit n 1 - 1"

definition INSTRUCTION_WIDTH :: size_t where
  "INSTRUCTION_WIDTH = 4"

record rtype32_t =
  r_opcode :: "7 word"
  r_rd :: "5 word"
  r_funct3 :: "3 word"
  r_rs1 :: "5 word"
  r_rs2 :: "5 word"
  r_funct7 :: "7 word"

definition rtype32_to_uint32 :: "rtype32_t \<Rightarrow> u32" where
  "rtype32_to_uint32 i =
     push_bit 25 (ucast (r_funct7 i)) OR push_bit 20 (ucast (r_rs2 i)) OR
     push_bit 15 (ucast (r_rs1 i)) OR push_bit 12 (ucast (r_funct3 i)) OR
     push_bit 7 (ucast (r_rd i)) OR ucast (r_opcode i)"

record itype32_t =
  i_opcode :: "7 word"
  i_rd :: "5 word"
  i_funct3 :: "3 word"
  i_rs1 :: "5 word"
  i_imm :: "12 word"

definition itype32_to_uint32 :: "itype32_t \<Rightarrow> u32" where
  "itype32_to_uint32 i =
     push_bit 20 (ucast (i_imm i)) OR push_bit 15 (ucast (i_rs1 i)) OR
     push_bit 12 (ucast (i_funct3 i)) OR push_bit 7 (ucast (i_rd i)) OR ucast (i_opcode i)"

record stype32_t =
  s_opcode :: "7 word"
  s_imm_lo :: "5 word"
  s_funct3 :: "3 word"
  s_rs1 :: "5 word"
  s_rs2 :: "5 word"
  s_imm_hi :: "7 word"

definition stype32_to_uint32 :: "stype32_t \<Rightarrow> u32" where
  "stype32_to_uint32 i =
     push_bit 25 (ucast (s_imm_hi i)) OR push_bit 20 (ucast (s_rs2 i)) OR
     push_bit 15 (ucast (s_rs1 i)) OR push_bit 12 (ucast (s_funct3 i)) OR
     push_bit 7 (ucast (s_imm_lo i)) OR ucast (s_opcode i)"

definition stype32_deserialize :: "u32 \<Rightarrow> stype32_t" where
  "stype32_deserialize val = \<lparr>
     s_opcode = ucast (ucast val AND BIT_MASK 7),
     s_imm_lo = ucast (ucast (drop_bit 7 val) AND BIT_MASK 5),
     s_funct3 = ucast (ucast (drop_bit 12 val) AND BIT_MASK 3),
     s_rs1 = ucast (ucast (drop_bit 15 val) AND BIT_MASK 5),
     s_rs2 = ucast (ucast (drop_bit 20 val) AND BIT_MASK 5),
     s_imm_hi = ucast (ucast (drop_bit 25 val) AND BIT_MASK 7) \<rparr>"

record utype32_t =
  u_opcode :: "7 word"
  u_rd :: "5 word"
  u_imm :: "20 word"

definition utype32_to_uint32 :: "utype32_t \<Rightarrow> u32" where
  "utype32_to_uint32 i =
     push_bit 12 (ucast (u_imm i)) OR push_bit 7 (ucast (u_rd i)) OR ucast (u_opcode i)"

definition utype32_deserialize :: "u32 \<Rightarrow> utype32_t" where
  "utype32_deserialize val = \<lparr>
     u_opcode = ucast (ucast val AND BIT_MASK 7),
     u_rd = ucast (ucast (drop_bit 7 val) AND BIT_MASK 5),
     u_imm = ucast (ucast (drop_bit 12 val) AND BIT_MASK 20) \<rparr>"

record btype32_t =
  b_opcode :: "7 word"
  b_imm11 :: "1 word"
  b_imm4_1 :: "4 word"
  b_funct3 :: "3 word"
  b_rs1 :: "5 word"
  b_rs2 :: "5 word"
  b_imm10_5 :: "6 word"
  b_imm12 :: "1 word"

definition btype32_to_uint32 :: "btype32_t \<Rightarrow> u32" where
  "btype32_to_uint32 i =
     push_bit 31 (ucast (b_imm12 i)) OR push_bit 25 (ucast (b_imm10_5 i)) OR
     push_bit 20 (ucast (b_rs2 i)) OR push_bit 15 (ucast (b_rs1 i)) OR
     push_bit 12 (ucast (b_funct3 i)) OR push_bit 8 (ucast (b_imm4_1 i)) OR
     push_bit 7 (ucast (b_imm11 i)) OR ucast (b_opcode i)"

definition btype32_deserialize :: "u32 \<Rightarrow> btype32_t" where
  "btype32_deserialize val = \<lparr>
     b_opcode = ucast (ucast val AND BIT_MASK 7),
     b_imm11 = ucast (ucast (drop_bit 7 val) AND BIT_MASK 1),
     b_imm4_1 = ucast (ucast (drop_bit 8 val) AND BIT_MASK 4),
     b_funct3 = ucast (ucast (drop_bit 12 val) AND BIT_MASK 3),
     b_rs1 = ucast (ucast (drop_bit 15 val) AND BIT_MASK 5),
     b_rs2 = ucast (ucast (drop_bit 20 val) AND BIT_MASK 5),
     b_imm10_5 = ucast (ucast (drop_bit 25 val) AND BIT_MASK 6),
     b_imm12 = ucast (ucast (drop_bit 31 val) AND BIT_MASK 1) \<rparr>"

record jtype32_t =
  j_opcode :: "7 word"
  j_rd :: "5 word"
  j_imm12_19 :: "8 word"
  j_imm11 :: "1 word"
  j_imm1_10 :: "10 word"
  j_imm20 :: "1 word"

definition jtype32_to_uint32 :: "jtype32_t \<Rightarrow> u32" where
  "jtype32_to_uint32 i =
     push_bit 31 (ucast (j_imm20 i)) OR push_bit 21 (ucast (j_imm1_10 i)) OR
     push_bit 20 (ucast (j_imm11 i)) OR push_bit 12 (ucast (j_imm12_19 i)) OR
     push_bit 7 (ucast (j_rd i)) OR ucast (j_opcode i)"

definition jtype32_deserialize :: "u32 \<Rightarrow> jtype32_t" where
  "jtype32_deserialize val = \<lparr>
     j_opcode = ucast (ucast (drop_bit 0 val) AND BIT_MASK 7),
     j_rd = ucast (ucast (drop_bit 7 val) AND BIT_MASK 5),
     j_imm12_19 = ucast (ucast (drop_bit 12 val) AND BIT_MASK 8),
     j_imm11 = ucast (ucast (drop_bit 20 val) AND BIT_MASK 1),
     j_imm1_10 = ucast (ucast (drop_bit 21 val) AND BIT_MASK 10),
     j_imm20 = ucast (ucast (drop_bit 31 val) AND BIT_MASK 1) \<rparr>"

datatype RISCV32_INST_TYPE = B_TYPE | R_TYPE | I_TYPE | S_TYPE | U_TYPE | J_TYPE

section \<open>Emitting instruction words\<close>

definition emit_u_type_instruction :: "u32 \<Rightarrow> u32 \<Rightarrow> u32 \<Rightarrow> u32" where
  "emit_u_type_instruction imm rd opcode =
     push_bit 12 (imm AND 0xFFFFF) OR push_bit 7 (rd AND 0x1F) OR (opcode AND 0x7F)"

definition emit_i_type_instruction :: "u32 \<Rightarrow> u32 \<Rightarrow> u32 \<Rightarrow> u32 \<Rightarrow> u32 \<Rightarrow> u32" where
  "emit_i_type_instruction rd rs1 imm funct3 opcode = itype32_to_uint32 \<lparr>
     i_opcode = ucast opcode, i_rd = ucast rd, i_funct3 = ucast funct3,
     i_rs1 = ucast rs1, i_imm = ucast imm \<rparr>"

definition emit_r_type_instruction :: "u32 \<Rightarrow> u32 \<Rightarrow> u32 \<Rightarrow> u32 \<Rightarrow> u32 \<Rightarrow> u32 \<Rightarrow> u32" where
  "emit_r_type_instruction funct7 rs1 rs2 funct3 rd opcode = rtype32_to_uint32 \<lparr>
     r_opcode = ucast opcode, r_rd = ucast rd, r_funct3 = ucast funct3,
     r_rs1 = ucast rs1, r_rs2 = ucast rs2, r_funct7 = ucast funct7 \<rparr>"

text \<open>
  The parameter order is the one of the definition in \<open>encoding.cc\<close> (\<open>imm\<close>, \<open>rs2\<close>, \<open>rs1\<close>);
  the declaration in \<open>encoding.h\<close> names the second and third the other way round.
\<close>

definition emit_b_type_instruction :: "u32 \<Rightarrow> u32 \<Rightarrow> u32 \<Rightarrow> u32 \<Rightarrow> u32 \<Rightarrow> u32" where
  "emit_b_type_instruction imm rs2 rs1 funct3 opcode = btype32_to_uint32 \<lparr>
     b_opcode = ucast opcode,
     b_imm11 = ucast (drop_bit 11 imm AND 0x1),
     b_imm4_1 = ucast (drop_bit 1 imm AND 0xF),
     b_funct3 = ucast funct3, b_rs1 = ucast rs1, b_rs2 = ucast rs2,
     b_imm10_5 = ucast (drop_bit 5 imm AND 0x3F),
     b_imm12 = ucast (drop_bit 12 imm AND 0x1) \<rparr>"

definition emit_j_type_instruction :: "u32 \<Rightarrow> u32 \<Rightarrow> u32 \<Rightarrow> u32" where
  "emit_j_type_instruction imm rd opcode = jtype32_to_uint32 \<lparr>
     j_opcode = ucast opcode, j_rd = ucast rd,
     j_imm12_19 = ucast (drop_bit 12 imm AND 0xFF),
     j_imm11 = ucast (drop_bit 11 imm AND 0x1),
     j_imm1_10 = ucast (drop_bit 1 imm AND 0x3FF),
     j_imm20 = ucast (drop_bit 20 imm AND 0x1) \<rparr>"

definition emit_s_type_instruction :: "u32 \<Rightarrow> u32 \<Rightarrow> u32 \<Rightarrow> u32 \<Rightarrow> u32 \<Rightarrow> u32" where
  "emit_s_type_instruction rs2 rs1 imm funct3 opcode = stype32_to_uint32 \<lparr>
     s_opcode = ucast opcode,
     s_imm_lo = ucast (imm AND 0x1F),
     s_funct3 = ucast (funct3 AND 0x7),
     s_rs1 = ucast (rs1 AND 0x1F), s_rs2 = ucast (rs2 AND 0x1F),
     s_imm_hi = ucast (drop_bit 5 imm AND 0x7F) \<rparr>"

section \<open>The contract of a bit-field structure\<close>

text \<open>
  What the assembler relies on when it takes a word apart, replaces some fields and puts it
  together again: the two conversions are inverse to each other, so that no bit of the word is
  lost and no field leaks into another.
\<close>

locale bitfield_struct =
  fixes to_word :: "'s \<Rightarrow> u32"
    and of_word :: "u32 \<Rightarrow> 's"
  assumes of_to [simp]: "of_word (to_word s) = s"
    and to_of [simp]: "to_word (of_word v) = v"
begin

lemma to_word_inject: "to_word s = to_word t \<longleftrightarrow> s = t"
  by (metis of_to)

lemma of_word_inject: "of_word v = of_word w \<longleftrightarrow> v = w"
  by (metis to_of)

lemma of_word_eq_iff: "of_word v = s \<longleftrightarrow> v = to_word s"
  by auto

lemma bij_to_word: "bij to_word"
  by (rule bij_betw_byWitness [where f' = of_word]) auto

end

lemma BIT_MASK_eq_mask: "BIT_MASK n = mask n"
  by (simp add: BIT_MASK_def mask_eq_exp_minus_1 push_bit_eq_mult)

lemma bit_BIT_MASK [field_simps_rv]: "bit (BIT_MASK n) k \<longleftrightarrow> k < n \<and> k < 64"
  by (auto simp: BIT_MASK_eq_mask bit_mask_iff)

text \<open>The four structures with a \<open>deserialize\<close> satisfy it.\<close>

interpretation stype: bitfield_struct stype32_to_uint32 stype32_deserialize
proof
  show "stype32_deserialize (stype32_to_uint32 s) = s" for s
    by (cases s) (auto simp: stype32_to_uint32_def stype32_deserialize_def field_simps_rv
        intro!: bit_word_eqI)
  show "stype32_to_uint32 (stype32_deserialize v) = v" for v
    by (rule word32_bitsI)
      (simp add: stype32_to_uint32_def stype32_deserialize_def field_simps_rv)
qed

interpretation utype: bitfield_struct utype32_to_uint32 utype32_deserialize
proof
  show "utype32_deserialize (utype32_to_uint32 s) = s" for s
    by (cases s) (auto simp: utype32_to_uint32_def utype32_deserialize_def field_simps_rv
        intro!: bit_word_eqI)
  show "utype32_to_uint32 (utype32_deserialize v) = v" for v
    by (rule word32_bitsI)
      (simp add: utype32_to_uint32_def utype32_deserialize_def field_simps_rv)
qed

interpretation btype: bitfield_struct btype32_to_uint32 btype32_deserialize
proof
  show "btype32_deserialize (btype32_to_uint32 s) = s" for s
    by (cases s) (auto simp: btype32_to_uint32_def btype32_deserialize_def field_simps_rv
        intro!: bit_word_eqI)
  show "btype32_to_uint32 (btype32_deserialize v) = v" for v
    by (rule word32_bitsI)
      (simp add: btype32_to_uint32_def btype32_deserialize_def field_simps_rv)
qed

interpretation jtype: bitfield_struct jtype32_to_uint32 jtype32_deserialize
proof
  show "jtype32_deserialize (jtype32_to_uint32 s) = s" for s
    by (cases s) (auto simp: jtype32_to_uint32_def jtype32_deserialize_def field_simps_rv
        intro!: bit_word_eqI)
  show "jtype32_to_uint32 (jtype32_deserialize v) = v" for v
    by (rule word32_bitsI)
      (simp add: jtype32_to_uint32_def jtype32_deserialize_def field_simps_rv)
qed

text \<open>
  The masked expression that \<open>emit_u_type_instruction\<close> returns is the structure it keeps in a
  comment, with the immediate taken from the low 20 bits.
\<close>

lemma emit_u_type_as_struct:
  "emit_u_type_instruction imm rd opcode = utype32_to_uint32
     \<lparr> u_opcode = ucast opcode, u_rd = ucast rd, u_imm = ucast imm \<rparr>"
  by (rule word32_bitsI) (simp add: emit_u_type_instruction_def utype32_to_uint32_def field_simps_rv)

end
