(* ===== verification/Opcodes.thy ===== *)
theory Opcodes
  imports Prelude
begin

text \<open>
  The opcode constants of \<open>src/opcodes.h\<close> (bits 6 to 0 of an RV32I instruction word) and the
  one predicate of \<open>src/opcodes.cc\<close>. The constants keep the values of the header, also where
  the ISA manual has another one (\<open>SLTIU_32\<close>).
\<close>

named_theorems opcodes \<open>values of the opcode constants\<close>

definition LUI_32 :: u32 where [opcodes]: "LUI_32 = 0x37"
definition AUIPC_32 :: u32 where [opcodes]: "AUIPC_32 = 0x17"
definition JAL_32 :: u32 where [opcodes]: "JAL_32 = 0x6f"
definition JALR_32 :: u32 where [opcodes]: "JALR_32 = 0x67"
definition BEQ_32 :: u32 where [opcodes]: "BEQ_32 = 0x63"
definition BNE_32 :: u32 where [opcodes]: "BNE_32 = 0x63"
definition BLT_32 :: u32 where [opcodes]: "BLT_32 = 0x63"
definition BGE_32 :: u32 where [opcodes]: "BGE_32 = 0x63"
definition BLTU_32 :: u32 where [opcodes]: "BLTU_32 = 0x63"
definition BGEU_32 :: u32 where [opcodes]: "BGEU_32 = 0x63"
definition LB_32 :: u32 where [opcodes]: "LB_32 = 0x03"
definition LH_32 :: u32 where [opcodes]: "LH_32 = 0x03"
definition LW_32 :: u32 where [opcodes]: "LW_32 = 0x03"
definition LBU_32 :: u32 where [opcodes]: "LBU_32 = 0x03"
definition LHU_32 :: u32 where [opcodes]: "LHU_32 = 0x03"
definition SB_32 :: u32 where [opcodes]: "SB_32 = 0x23"
definition SH_32 :: u32 where [opcodes]: "SH_32 = 0x23"
definition SW_32 :: u32 where [opcodes]: "SW_32 = 0x23"
definition ADDI_32 :: u32 where [opcodes]: "ADDI_32 = 0x13"
definition SLTI_32 :: u32 where [opcodes]: "SLTI_32 = 0x13"
definition XORI_32 :: u32 where [opcodes]: "XORI_32 = 0x13"
definition ORI_32 :: u32 where [opcodes]: "ORI_32 = 0x13"
definition ANDI_32 :: u32 where [opcodes]: "ANDI_32 = 0x13"
definition SLLI_32 :: u32 where [opcodes]: "SLLI_32 = 0x13"
definition SRLI_32 :: u32 where [opcodes]: "SRLI_32 = 0x13"
definition SRAI_32 :: u32 where [opcodes]: "SRAI_32 = 0x13"
definition ADD_32 :: u32 where [opcodes]: "ADD_32 = 0x33"
definition SUB_32 :: u32 where [opcodes]: "SUB_32 = 0x33"
definition SLL_32 :: u32 where [opcodes]: "SLL_32 = 0x33"
definition SLT_32 :: u32 where [opcodes]: "SLT_32 = 0x33"
definition SLTU_32 :: u32 where [opcodes]: "SLTU_32 = 0x33"
definition SLTIU_32 :: u32 where [opcodes]: "SLTIU_32 = 0x33"
definition XOR_32 :: u32 where [opcodes]: "XOR_32 = 0x33"
definition SRL_32 :: u32 where [opcodes]: "SRL_32 = 0x33"
definition SRA_32 :: u32 where [opcodes]: "SRA_32 = 0x33"
definition OR_32 :: u32 where [opcodes]: "OR_32 = 0x33"
definition AND_32 :: u32 where [opcodes]: "AND_32 = 0x33"
definition FENCE_32 :: u32 where [opcodes]: "FENCE_32 = 0x0f"
definition FENCETSO_32 :: u32 where [opcodes]: "FENCETSO_32 = 0x0f"
definition PAUSE_32 :: u32 where [opcodes]: "PAUSE_32 = 0x0f"
definition ECALL_32 :: u32 where [opcodes]: "ECALL_32 = 0x73"
definition EBREAK_32 :: u32 where [opcodes]: "EBREAK_32 = 0x73"

text \<open>The last disjunct is written twice in the source.\<close>

definition is_load :: "u32 \<Rightarrow> bool" where
  "is_load opcode =
     (if opcode = LB_32 \<or> opcode = LH_32 \<or> opcode = LW_32 \<or> opcode = LBU_32 \<or>
         opcode = LHU_32 \<or> opcode = LHU_32
      then True else False)"

lemma is_load_iff: "is_load opcode \<longleftrightarrow> opcode = 0x03"
  by (simp add: is_load_def opcodes)

text \<open>Loads and stores are told apart by the opcode alone, so \<open>is_load\<close> decides the encoding.\<close>

lemma is_load_mnemonics:
  "is_load LB_32" "is_load LH_32" "is_load LW_32" "is_load LBU_32" "is_load LHU_32"
  "\<not> is_load SB_32" "\<not> is_load SH_32" "\<not> is_load SW_32"
  by (simp_all add: is_load_iff opcodes)

end
