(* ===== verification/Parser.thy ===== *)
theory Parser
  imports Lexer Encoding Opcodes "HOL-Library.Monad_Syntax"
begin

text \<open>
  The grammar of \<open>riscvass.y\<close>: its productions as inductive relations, and the parser as
  functions on the token list that decide with one token of lookahead, the way the tables that
  bison derives do. A state of those tables in which some production is complete reduces it on
  every token that cannot be shifted (bison's default reductions); the functions follow that, and
  say where the error is then found.
\<close>

section \<open>Semantic values\<close>

record opcode_t =
  opc :: u32
  funct3 :: u32
  funct5 :: u32
  funct7 :: u32
  imm12 :: u32
  opc_valid :: i32

text \<open>Members that an initialiser does not name are zero.\<close>

definition opcode_init :: "u32 \<Rightarrow> u32 \<Rightarrow> opcode_t" where
  "opcode_init op f3 = \<lparr>opc = op, funct3 = f3, funct5 = 0, funct7 = 0, imm12 = 0, opc_valid = 1\<rparr>"

text \<open>The four opcode nonterminals.\<close>

definition opcode :: "keyword \<Rightarrow> opcode_t option" where
  "opcode k =
    (if k = K_SLTIU then Some (opcode_init SLTIU_32 3)
     else if k = K_ECALL then Some (opcode_init ECALL_32 0)
     else if k = K_ADD then Some (opcode_init ADD_32 0)
     else if k = K_SUB then Some ((opcode_init SUB_32 0)\<lparr>funct7 := 0x20\<rparr>)
     else None)"

definition opcode_load_store :: "keyword \<Rightarrow> opcode_t option" where
  "opcode_load_store k =
    (if k = K_LB then Some (opcode_init LB_32 0)
     else if k = K_LH then Some (opcode_init LH_32 1)
     else if k = K_LW then Some (opcode_init LW_32 2)
     else if k = K_LBU then Some (opcode_init LBU_32 4)
     else if k = K_LHU then Some (opcode_init LHU_32 5)
     else if k = K_SB then Some (opcode_init SB_32 0)
     else if k = K_SH then Some (opcode_init SH_32 1)
     else if k = K_SW then Some (opcode_init SW_32 2)
     else None)"

definition opcode_immediate :: "keyword \<Rightarrow> opcode_t option" where
  "opcode_immediate k =
    (if k = K_ADDI then Some (opcode_init ADDI_32 0)
     else if k = K_SLTI then Some (opcode_init SLTI_32 2)
     else if k = K_ORI then Some (opcode_init ORI_32 5)
     else if k = K_XORI then Some (opcode_init XORI_32 4)
     else if k = K_ANDI then Some (opcode_init ANDI_32 6)
     else None)"

definition opcode_branch :: "keyword \<Rightarrow> opcode_t option" where
  "opcode_branch k = (if k = K_BEQ then Some (opcode_init BEQ_32 0) else None)"

lemmas opcode_tables = opcode_def opcode_load_store_def opcode_immediate_def opcode_branch_def

text \<open>The immediates, with \<open>imm_kind\<close> and the value that goes with the kind.\<close>

datatype immediate = IMM_INT i32 | IMM_SYMBOL string | MODIFIER_ABS_HI string

text \<open>One constructor for each production of \<open>instruction\<close>, \<open>directive\<close> and \<open>statement\<close>.\<close>

datatype instruction =
    Reg_insn opcode_t u32 u32 u32
  | Imm_insn opcode_t u32 u32 immediate
  | Mem_insn opcode_t u32 u32 u32
  | Branch_insn opcode_t u32 u32 string
  | Bare_insn opcode_t
  | La_insn u32 string
  | Jump_insn string
  | Mov_insn u32 u32
  | Ret_insn

datatype directive = Section_data | Section_text | Text_dir | Data_dir | Global_dir string | Ascii_dir string

datatype statement =
    Label_insns string "instruction list"
  | Label_directive string directive
  | Directive directive

section \<open>The productions\<close>

inductive g_immediate :: "token list \<Rightarrow> immediate \<Rightarrow> bool" where
  "g_immediate [T_IMM v] (IMM_INT v)"
| "g_immediate [Key K_PCT, Key K_HI, Key K_PAREN_OPEN, T_SYMBOL l, Key K_PAREN_CLOSE] (MODIFIER_ABS_HI l)"
| "g_immediate [T_SYMBOL l] (IMM_SYMBOL l)"

inductive g_instruction :: "token list \<Rightarrow> instruction \<Rightarrow> bool" where
  "opcode k = Some c \<Longrightarrow>
     g_instruction [Key k, T_REG d, Key K_COMMA, T_REG a, Key K_COMMA, T_REG b] (Reg_insn c d a b)"
| "opcode_immediate k = Some c \<Longrightarrow> g_immediate ts i \<Longrightarrow>
     g_instruction ([Key k, T_REG d, Key K_COMMA, T_REG a, Key K_COMMA] @ ts) (Imm_insn c d a i)"
| "opcode_load_store k = Some c \<Longrightarrow>
     g_instruction [Key k, T_REG d, Key K_COMMA, T_IMM i, Key K_PAREN_OPEN, T_REG a, Key K_PAREN_CLOSE]
       (Mem_insn c d i a)"
| "opcode_branch k = Some c \<Longrightarrow>
     g_instruction [Key k, T_REG a, Key K_COMMA, T_REG b, Key K_COMMA, T_SYMBOL l] (Branch_insn c a b l)"
| "opcode k = Some c \<Longrightarrow> g_instruction [Key k] (Bare_insn c)"
| "g_instruction [Key K_LA, T_REG d, Key K_COMMA, T_SYMBOL l] (La_insn d l)"
| "g_instruction [Key K_JUMP, T_SYMBOL l] (Jump_insn l)"
| "g_instruction [Key K_MOV, T_REG d, Key K_COMMA, T_REG a] (Mov_insn d a)"
| "g_instruction [Key K_RET] Ret_insn"

inductive g_instructions :: "token list \<Rightarrow> instruction list \<Rightarrow> bool" where
  "g_instruction ts i \<Longrightarrow> g_instructions ts [i]"
| "g_instructions ts is \<Longrightarrow> g_instruction us i \<Longrightarrow> g_instructions (ts @ us) (is @ [i])"

inductive g_directive :: "token list \<Rightarrow> directive \<Rightarrow> bool" where
  "g_directive [Key K_SECTION, Key K_D_DATA] Section_data"
| "g_directive [Key K_SECTION, Key K_D_TEXT] Section_text"
| "g_directive [Key K_D_TEXT] Text_dir"
| "g_directive [Key K_D_DATA] Data_dir"
| "g_directive [Key K_D_GLOBAL, T_SYMBOL l] (Global_dir l)"
| "g_directive [Key K_D_ASCII, T_STRING s] (Ascii_dir s)"

inductive g_statement :: "token list \<Rightarrow> statement \<Rightarrow> bool" where
  "g_instructions ts is \<Longrightarrow> g_statement (T_SYMBOL l # Key K_COLON # ts) (Label_insns l is)"
| "g_directive ts d \<Longrightarrow> g_statement (T_SYMBOL l # Key K_COLON # ts) (Label_directive l d)"
| "g_directive ts d \<Longrightarrow> g_statement ts (Directive d)"

inductive g_statements :: "token list \<Rightarrow> statement list \<Rightarrow> bool" where
  "g_statement ts s \<Longrightarrow> g_statements ts [s]"
| "g_statements ts ss \<Longrightarrow> g_statement us s \<Longrightarrow> g_statements (ts @ us) (ss @ [s])"

section \<open>The parser\<close>

text \<open>Taking one token; \<open>None\<close> is a token that the current state cannot shift.\<close>

definition expect :: "keyword \<Rightarrow> token list \<Rightarrow> token list option" where
  "expect k ts = (case ts of Key k' # r \<Rightarrow> if k' = k then Some r else None | _ \<Rightarrow> None)"

definition register :: "token list \<Rightarrow> (u32 \<times> token list) option" where
  "register ts = (case ts of T_REG v # r \<Rightarrow> Some (v, r) | _ \<Rightarrow> None)"

definition imm_token :: "token list \<Rightarrow> (u32 \<times> token list) option" where
  "imm_token ts = (case ts of T_IMM v # r \<Rightarrow> Some (v, r) | _ \<Rightarrow> None)"

definition symbol_token :: "token list \<Rightarrow> (string \<times> token list) option" where
  "symbol_token ts = (case ts of T_SYMBOL l # r \<Rightarrow> Some (l, r) | _ \<Rightarrow> None)"

definition string_token :: "token list \<Rightarrow> (string \<times> token list) option" where
  "string_token ts = (case ts of T_STRING l # r \<Rightarrow> Some (l, r) | _ \<Rightarrow> None)"

lemmas takers = expect_def register_def imm_token_def symbol_token_def string_token_def

definition modifier :: "token list \<Rightarrow> (immediate \<times> token list) option" where
  "modifier ts = do {
     ts \<leftarrow> expect K_PCT ts; ts \<leftarrow> expect K_HI ts; ts \<leftarrow> expect K_PAREN_OPEN ts;
     (l, ts) \<leftarrow> symbol_token ts; ts \<leftarrow> expect K_PAREN_CLOSE ts;
     Some (MODIFIER_ABS_HI l, ts) }"

definition immediate_kind :: "token list \<Rightarrow> (immediate \<times> token list) option" where
  "immediate_kind ts = (case ts of
     T_IMM v # r \<Rightarrow> Some (IMM_INT v, r)
   | T_SYMBOL l # r \<Rightarrow> Some (IMM_SYMBOL l, r)
   | _ \<Rightarrow> modifier ts)"

text \<open>
  After an \<open>opcode\<close> a register starts the three-operand form; on any other token the bare form
  is reduced.
\<close>

definition parse_instruction_after :: "keyword \<Rightarrow> token list \<Rightarrow> (instruction \<times> token list) option" where
  "parse_instruction_after k ts =
    (case opcode k of Some c \<Rightarrow>
       (case register ts of
          None \<Rightarrow> Some (Bare_insn c, ts)
        | Some (d, ts) \<Rightarrow> do {
            ts \<leftarrow> expect K_COMMA ts; (a, ts) \<leftarrow> register ts;
            ts \<leftarrow> expect K_COMMA ts; (b, ts) \<leftarrow> register ts;
            Some (Reg_insn c d a b, ts) })
     | None \<Rightarrow>
    (case opcode_immediate k of Some c \<Rightarrow> do {
       (d, ts) \<leftarrow> register ts; ts \<leftarrow> expect K_COMMA ts; (a, ts) \<leftarrow> register ts;
       ts \<leftarrow> expect K_COMMA ts; (i, ts) \<leftarrow> immediate_kind ts;
       Some (Imm_insn c d a i, ts) }
     | None \<Rightarrow>
    (case opcode_load_store k of Some c \<Rightarrow> do {
       (d, ts) \<leftarrow> register ts; ts \<leftarrow> expect K_COMMA ts; (i, ts) \<leftarrow> imm_token ts;
       ts \<leftarrow> expect K_PAREN_OPEN ts; (a, ts) \<leftarrow> register ts; ts \<leftarrow> expect K_PAREN_CLOSE ts;
       Some (Mem_insn c d i a, ts) }
     | None \<Rightarrow>
    (case opcode_branch k of Some c \<Rightarrow> do {
       (a, ts) \<leftarrow> register ts; ts \<leftarrow> expect K_COMMA ts; (b, ts) \<leftarrow> register ts;
       ts \<leftarrow> expect K_COMMA ts; (l, ts) \<leftarrow> symbol_token ts;
       Some (Branch_insn c a b l, ts) }
     | None \<Rightarrow>
       if k = K_LA then do {
         (d, ts) \<leftarrow> register ts; ts \<leftarrow> expect K_COMMA ts; (l, ts) \<leftarrow> symbol_token ts;
         Some (La_insn d l, ts) }
       else if k = K_JUMP then do { (l, ts) \<leftarrow> symbol_token ts; Some (Jump_insn l, ts) }
       else if k = K_MOV then do {
         (d, ts) \<leftarrow> register ts; ts \<leftarrow> expect K_COMMA ts; (a, ts) \<leftarrow> register ts;
         Some (Mov_insn d a, ts) }
       else if k = K_RET then Some (Ret_insn, ts)
       else None))))"

definition parse_instruction :: "token list \<Rightarrow> (instruction \<times> token list) option" where
  "parse_instruction ts = (case ts of Key k # r \<Rightarrow> parse_instruction_after k r | _ \<Rightarrow> None)"

text \<open>The tokens an instruction can start with.\<close>

definition insn_start :: "keyword \<Rightarrow> bool" where
  "insn_start k \<longleftrightarrow> opcode k \<noteq> None \<or> opcode_immediate k \<noteq> None \<or> opcode_load_store k \<noteq> None \<or>
     opcode_branch k \<noteq> None \<or> k \<in> {K_LA, K_JUMP, K_MOV, K_RET}"

definition starts_instruction :: "token list \<Rightarrow> bool" where
  "starts_instruction ts = (case ts of Key k # r \<Rightarrow> insn_start k | _ \<Rightarrow> False)"

text \<open>Every parser consumes tokens from the front.\<close>

lemma taker_shape:
  "expect k ts = Some r \<longleftrightarrow> ts = Key k # r"
  "register ts = Some (v, r) \<longleftrightarrow> ts = T_REG v # r"
  "imm_token ts = Some (v, r) \<longleftrightarrow> ts = T_IMM v # r"
  "symbol_token ts = Some (l, r) \<longleftrightarrow> ts = T_SYMBOL l # r"
  "string_token ts = Some (l, r) \<longleftrightarrow> ts = T_STRING l # r"
  by (auto simp: takers split: list.splits token.splits if_splits)

lemma immediate_kind_sound: "immediate_kind ts = Some (i, r) \<Longrightarrow> \<exists>us. ts = us @ r \<and> g_immediate us i"
  by (auto simp: immediate_kind_def modifier_def taker_shape bind_eq_Some_conv
      split: list.splits token.splits intro!: g_immediate.intros)

text \<open>The opcode nonterminals share no token with each other or with the rest.\<close>

lemma opcode_disjoint:
  "opcode_immediate k = Some c \<Longrightarrow> opcode k = None"
  "opcode_load_store k = Some c \<Longrightarrow> opcode k = None \<and> opcode_immediate k = None"
  "opcode_branch k = Some c \<Longrightarrow> opcode k = None \<and> opcode_immediate k = None \<and> opcode_load_store k = None"
  by (auto simp: opcode_tables split: if_splits)

lemma opcode_keywords [simp]:
  "k \<in> {K_LA, K_JUMP, K_MOV, K_RET} \<Longrightarrow>
     opcode k = None \<and> opcode_immediate k = None \<and> opcode_load_store k = None \<and> opcode_branch k = None"
  by (auto simp: opcode_tables)

lemma instruction_sound: "parse_instruction ts = Some (i, r) \<Longrightarrow> \<exists>us. ts = us @ r \<and> g_instruction us i"
proof -
  assume i: "parse_instruction ts = Some (i, r)"
  then obtain k q where ts: "ts = Key k # q" and ia: "parse_instruction_after k q = Some (i, r)"
    by (auto simp: parse_instruction_def split: list.splits token.splits)
  have "\<exists>us. Key k # q = us @ r \<and> g_instruction us i"
  proof (cases "opcode_immediate k")
    case None
    then show ?thesis
      using ia unfolding parse_instruction_after_def
      by (auto simp: taker_shape bind_eq_Some_conv split: option.splits if_splits intro!: g_instruction.intros)
  next
    case (Some c)
    then obtain d a j p where q: "q = [T_REG d, Key K_COMMA, T_REG a, Key K_COMMA] @ p"
        and j: "immediate_kind p = Some (j, r)" and ij: "i = Imm_insn c d a j"
      using ia opcode_disjoint(1) [OF Some]
      by (auto simp: parse_instruction_after_def taker_shape bind_eq_Some_conv)
    obtain us where us: "p = us @ r" "g_immediate us j" using immediate_kind_sound [OF j] by blast
    then have "g_instruction ([Key k, T_REG d, Key K_COMMA, T_REG a, Key K_COMMA] @ us) i"
      unfolding ij by (intro g_instruction.intros Some)
    then show ?thesis
      using q us(1) by (intro exI [of _ "[Key k, T_REG d, Key K_COMMA, T_REG a, Key K_COMMA] @ us"]) simp
  qed
  then show ?thesis using ts by simp
qed

text \<open>Conversely, what the grammar derives is taken, unless a register follows a bare opcode.\<close>

definition no_register :: "token list \<Rightarrow> bool" where
  "no_register ts \<longleftrightarrow> register ts = None"

lemma immediate_kind_complete: "g_immediate us i \<Longrightarrow> immediate_kind (us @ r) = Some (i, r)"
  by (induction rule: g_immediate.induct) (simp_all add: immediate_kind_def modifier_def takers)

lemma instruction_complete:
  "g_instruction us i \<Longrightarrow> no_register r \<Longrightarrow> parse_instruction (us @ r) = Some (i, r)"
proof (induction rule: g_instruction.induct)
  case (2 k c ts j d a)
  then show ?case
    using immediate_kind_complete [of ts j r]
    by (simp add: parse_instruction_def parse_instruction_after_def opcode_disjoint takers)
qed (auto simp: parse_instruction_def parse_instruction_after_def opcode_disjoint takers no_register_def)

lemma instruction_starts:
  "g_instruction us i \<Longrightarrow> starts_instruction (us @ r) \<and> no_register (us @ r) \<and> us \<noteq> []"
  by (induction rule: g_instruction.induct)
    (auto simp: starts_instruction_def insn_start_def no_register_def register_def)

lemma instruction_None: "\<not> starts_instruction ts \<Longrightarrow> parse_instruction ts = None"
  by (auto simp: parse_instruction_def starts_instruction_def insn_start_def parse_instruction_after_def
      split: list.splits token.splits)

section \<open>Instructions, directives and statements\<close>

lemma instruction_shorter: "parse_instruction ts = Some (i, r) \<Longrightarrow> length r < length ts"
  using instruction_sound instruction_starts by fastforce

text \<open>
  A nonempty run of instructions: those that were reduced, and the rest of the input, or
  \<open>None\<close> when a token was refused inside an instruction.
\<close>

function parse_instructions :: "token list \<Rightarrow> instruction list \<times> token list option" where
  "parse_instructions ts = (case parse_instruction ts of
     None \<Rightarrow> ([], None)
   | Some (i, r) \<Rightarrow>
       if starts_instruction r then (case parse_instructions r of (is, q) \<Rightarrow> (i # is, q))
       else ([i], Some r))"
  by auto
termination by (relation "measure length") (auto dest: instruction_shorter)

declare parse_instructions.simps [simp del]

definition parse_directive :: "token list \<Rightarrow> (directive \<times> token list) option" where
  "parse_directive ts =
    (case ts of Key k # r \<Rightarrow>
       if k = K_SECTION then
         (case expect K_D_DATA r of Some q \<Rightarrow> Some (Section_data, q)
          | None \<Rightarrow> (case expect K_D_TEXT r of Some q \<Rightarrow> Some (Section_text, q) | None \<Rightarrow> None))
       else if k = K_D_TEXT then Some (Text_dir, r)
       else if k = K_D_DATA then Some (Data_dir, r)
       else if k = K_D_GLOBAL then do { (l, r) \<leftarrow> symbol_token r; Some (Global_dir l, r) }
       else if k = K_D_ASCII then do { (s, r) \<leftarrow> string_token r; Some (Ascii_dir s, r) }
       else None
     | _ \<Rightarrow> None)"

text \<open>
  A statement and the rest of the input; on a refused token, the instructions of the statement
  that had been reduced before it.
\<close>

definition parse_statement :: "token list \<Rightarrow> instruction list + statement \<times> token list" where
  "parse_statement ts =
    (case symbol_token ts of
       Some (l, r) \<Rightarrow>
         (case expect K_COLON r of
            None \<Rightarrow> Inl []
          | Some r \<Rightarrow>
              if starts_instruction r then
                (case parse_instructions r of (is, None) \<Rightarrow> Inl is | (is, Some q) \<Rightarrow> Inr (Label_insns l is, q))
              else (case parse_directive r of None \<Rightarrow> Inl [] | Some (d, q) \<Rightarrow> Inr (Label_directive l d, q)))
     | None \<Rightarrow> (case parse_directive ts of None \<Rightarrow> Inl [] | Some (d, q) \<Rightarrow> Inr (Directive d, q)))"

text \<open>The tokens a statement can start with.\<close>

definition starts_statement :: "token list \<Rightarrow> bool" where
  "starts_statement ts = (case ts of
     T_SYMBOL l # r \<Rightarrow> True
   | Key k # r \<Rightarrow> k \<in> {K_SECTION, K_D_TEXT, K_D_DATA, K_D_GLOBAL, K_D_ASCII}
   | _ \<Rightarrow> False)"

text \<open>
  How parsing ends: the whole input is a program; or a token that cannot follow a complete list
  of statements reduces them to \<open>program\<close> and is refused then; or a token is refused inside a
  statement, or at the start of the input.
\<close>

datatype outcome = Accepted | Refused_after_program | Refused

text \<open>The statements reduced, the instructions of an unfinished last statement, the outcome.\<close>

type_synonym reductions = "statement list \<times> instruction list \<times> outcome"

lemma directive_sound: "parse_directive ts = Some (d, r) \<Longrightarrow> \<exists>us. ts = us @ r \<and> us \<noteq> [] \<and> g_directive us d"
  by (auto simp: parse_directive_def taker_shape bind_eq_Some_conv split: list.splits token.splits if_splits option.splits
      intro!: g_directive.intros)

lemma instructions_suffix: "parse_instructions ts = (is, Some q) \<Longrightarrow> length q < length ts"
proof (induction ts arbitrary: "is" q rule: parse_instructions.induct)
  case (1 ts)
  show ?case
  proof (cases "parse_instruction ts")
    case None
    then show ?thesis using "1.prems" by (simp add: parse_instructions.simps [of ts])
  next
    case (Some p)
    then obtain i r where ir: "parse_instruction ts = Some (i, r)" by (cases p) auto
    have "length r < length ts" by (rule instruction_shorter [OF ir])
    then show ?thesis
      using "1.prems" "1.IH" [OF ir refl] ir
      by (cases "parse_instructions r") (auto simp: parse_instructions.simps [of ts] split: if_splits intro: less_trans)
  qed
qed

lemma statement_shorter: "parse_statement ts = Inr (s, r) \<Longrightarrow> length r < length ts"
  using instructions_suffix directive_sound
  by (fastforce simp: parse_statement_def taker_shape split: option.splits if_splits prod.splits)

function parse_statements :: "token list \<Rightarrow> reductions" where
  "parse_statements ts = (case parse_statement ts of
     Inl is \<Rightarrow> ([], is, Refused)
   | Inr (s, r) \<Rightarrow>
       if r = [] then ([s], [], Accepted)
       else if starts_statement r then (case parse_statements r of (ss, is, out) \<Rightarrow> (s # ss, is, out))
       else ([s], [], Refused_after_program))"
  by auto
termination by (relation "measure length") (auto dest: statement_shorter)

declare parse_statements.simps [simp del]

section \<open>The parser accepts the language of the grammar\<close>

lemma g_instructions_Cons:
  "g_instructions vs is \<Longrightarrow> g_instruction us i \<Longrightarrow> g_instructions (us @ vs) (i # is)"
proof (induction rule: g_instructions.induct)
  case (1 ts j)
  then show ?case using g_instructions.intros(2) [OF g_instructions.intros(1)] by fastforce
next
  case (2 ts "is" vs j)
  then show ?case using g_instructions.intros(2) [of "us @ ts" "i # is" vs j] by simp
qed

lemma instructions_sound:
  "parse_instructions ts = (is, Some r) \<Longrightarrow> \<exists>us. ts = us @ r \<and> g_instructions us is \<and> \<not> starts_instruction r"
proof (induction ts arbitrary: "is" r rule: parse_instructions.induct)
  case (1 ts)
  show ?case
  proof (cases "parse_instruction ts")
    case None
    then show ?thesis using "1.prems" by (simp add: parse_instructions.simps [of ts])
  next
    case (Some p)
    then obtain i q where iq: "parse_instruction ts = Some (i, q)" by (cases p) auto
    obtain us where us: "ts = us @ q" "g_instruction us i" using instruction_sound [OF iq] by blast
    show ?thesis
    proof (cases "starts_instruction q")
      case True
      then obtain js where js: "parse_instructions q = (js, Some r)" "is = i # js"
        using "1.prems" iq by (auto simp: parse_instructions.simps [of ts] split: prod.splits)
      obtain vs where "q = vs @ r" "g_instructions vs js" "\<not> starts_instruction r"
        using "1.IH" [OF iq refl True js(1)] by blast
      then show ?thesis
        using us js(2) g_instructions_Cons [of vs js us i] by (intro exI [of _ "us @ vs"]) simp
    next
      case False
      then have "is = [i]" "r = q"
        using "1.prems" iq by (simp_all add: parse_instructions.simps [of ts])
      then show ?thesis using us False g_instructions.intros(1) [OF us(2)] by blast
    qed
  qed
qed

lemma instructions_complete:
  "g_instructions us is \<Longrightarrow> no_register r \<Longrightarrow> parse_instructions (us @ r) =
     (if starts_instruction r then (case parse_instructions r of (js, q) \<Rightarrow> (is @ js, q)) else (is, Some r))"
proof (induction arbitrary: r rule: g_instructions.induct)
  case (1 ts i)
  then show ?case
    using instruction_complete [of ts i r] by (simp add: parse_instructions.simps [of "ts @ r"])
next
  case (2 ts "is" us i)
  have "parse_instructions (us @ r) =
      (if starts_instruction r then (case parse_instructions r of (js, q) \<Rightarrow> (i # js, q)) else ([i], Some r))"
    using instruction_complete [of us i r] 2 by (simp add: parse_instructions.simps [of "us @ r"])
  then show ?case
    using "2.IH" [of "us @ r"] instruction_starts [OF "2.hyps"(2), of r] by (simp split: prod.splits)
qed

lemma directive_complete: "g_directive us d \<Longrightarrow> parse_directive (us @ r) = Some (d, r)"
  by (induction rule: g_directive.induct) (simp_all add: parse_directive_def takers)

lemma g_instructions_start: "g_instructions us is \<Longrightarrow> starts_instruction (us @ r)"
proof (induction arbitrary: r rule: g_instructions.induct)
  case (2 ts "is" us i)
  then show ?case using "2.IH" [of "us @ r"] by simp
qed (simp add: instruction_starts)

lemma g_directive_start: "g_directive us d \<Longrightarrow>
    starts_statement (us @ r) \<and> \<not> starts_instruction (us @ r) \<and> symbol_token (us @ r) = None"
  by (induction rule: g_directive.induct)
    (auto simp: starts_statement_def starts_instruction_def insn_start_def opcode_tables symbol_token_def)

lemma g_statement_start: "g_statement us s \<Longrightarrow> starts_statement (us @ r) \<and> us \<noteq> []"
proof (induction rule: g_statement.induct)
  case (3 ts d)
  then show ?case using g_directive_start [of ts d r] by (auto elim: g_directive.cases)
qed (simp_all add: starts_statement_def)

text \<open>What may follow a complete statement is neither a register nor an instruction.\<close>

lemma follows_statement:
  "r = [] \<or> starts_statement r \<Longrightarrow> no_register r \<and> \<not> starts_instruction r"
  by (auto simp: starts_statement_def no_register_def register_def starts_instruction_def insn_start_def
      opcode_tables split: list.splits token.splits)

lemma statement_sound: "parse_statement ts = Inr (s, r) \<Longrightarrow> \<exists>us. ts = us @ r \<and> g_statement us s"
proof (cases "symbol_token ts")
  case None
  assume "parse_statement ts = Inr (s, r)"
  then obtain d where "parse_directive ts = Some (d, r)" "s = Directive d"
    using None by (auto simp: parse_statement_def split: option.splits)
  then show ?thesis using directive_sound g_statement.intros(3) by blast
next
  case (Some p)
  assume st: "parse_statement ts = Inr (s, r)"
  then obtain l q where ts: "ts = T_SYMBOL l # Key K_COLON # q"
    using Some by (cases p) (auto simp: parse_statement_def taker_shape split: option.splits)
  show ?thesis
  proof (cases "starts_instruction q")
    case True
    then obtain "is" where "parse_instructions q = (is, Some r)" "s = Label_insns l is"
      using st ts by (auto simp: parse_statement_def takers split: prod.splits option.splits)
    then obtain us where "q = us @ r" "g_statement (T_SYMBOL l # Key K_COLON # us) s"
      using instructions_sound [of q "is" r] g_statement.intros(1) by blast
    then show ?thesis using ts by (intro exI [of _ "T_SYMBOL l # Key K_COLON # us"]) simp
  next
    case False
    then obtain d where "parse_directive q = Some (d, r)" "s = Label_directive l d"
      using st ts by (auto simp: parse_statement_def takers split: option.splits)
    then obtain us where "q = us @ r" "g_statement (T_SYMBOL l # Key K_COLON # us) s"
      using directive_sound [of q d r] g_statement.intros(2) by blast
    then show ?thesis using ts by (intro exI [of _ "T_SYMBOL l # Key K_COLON # us"]) simp
  qed
qed

lemma statement_complete:
  "g_statement us s \<Longrightarrow> r = [] \<or> starts_statement r \<Longrightarrow> parse_statement (us @ r) = Inr (s, r)"
proof (induction rule: g_statement.induct)
  case (1 ts "is" l)
  then show ?case
    using instructions_complete [of ts "is" r] g_instructions_start [of ts "is" r] follows_statement [of r]
    by (simp add: parse_statement_def takers)
next
  case (2 ts d l)
  then show ?case
    using directive_complete [of ts d r] g_directive_start [of ts d r] by (simp add: parse_statement_def takers)
next
  case (3 ts d)
  then show ?case
    using directive_complete [of ts d r] g_directive_start [of ts d r] by (simp add: parse_statement_def)
qed

lemma g_statements_Cons:
  "g_statements vs ss \<Longrightarrow> g_statement us s \<Longrightarrow> g_statements (us @ vs) (s # ss)"
proof (induction rule: g_statements.induct)
  case (1 ts t)
  then show ?case using g_statements.intros(2) [OF g_statements.intros(1)] by fastforce
next
  case (2 ts ss vs t)
  then show ?case using g_statements.intros(2) [of "us @ ts" "s # ss" vs t] by simp
qed

text \<open>Whatever the parser reduces to \<open>program\<close> is derived by the grammar from the input so far.\<close>

lemma statements_sound:
  "parse_statements ts = (ss, is, out) \<Longrightarrow> out \<noteq> Refused \<Longrightarrow>
     is = [] \<and> (\<exists>us r. ts = us @ r \<and> g_statements us ss \<and> (out = Accepted \<longleftrightarrow> r = []))"
proof (induction ts arbitrary: ss "is" out rule: parse_statements.induct)
  case (1 ts)
  obtain s q where s: "parse_statement ts = Inr (s, q)"
    using "1.prems" by (auto simp: parse_statements.simps [of ts] split: sum.splits)
  obtain us where us: "ts = us @ q" "g_statement us s" using statement_sound [OF s] by blast
  consider (last) "q = []" | (more) "q \<noteq> []" "starts_statement q" | (stop) "q \<noteq> []" "\<not> starts_statement q"
    by blast
  then show ?case
  proof cases
    case last
    then have "ss = [s]" "is = []" "out = Accepted"
      using "1.prems"(1) s by (simp_all add: parse_statements.simps [of ts])
    then show ?thesis using last us g_statements.intros(1) [OF us(2)] by blast
  next
    case stop
    then have "ss = [s]" "is = []" "out = Refused_after_program"
      using "1.prems"(1) s by (simp_all add: parse_statements.simps [of ts])
    then show ?thesis using stop us g_statements.intros(1) [OF us(2)] by blast
  next
    case more
    then obtain rs where rs: "parse_statements q = (rs, is, out)" "ss = s # rs"
      using "1.prems"(1) s by (auto simp: parse_statements.simps [of ts] split: prod.splits)
    then obtain vs r where "q = vs @ r" "g_statements vs rs" "out = Accepted \<longleftrightarrow> r = []" "is = []"
      using "1.IH" [OF s refl more rs(1) "1.prems"(2)] by blast
    then show ?thesis
      using us rs(2) g_statements_Cons by (metis append.assoc)
  qed
qed

lemma statements_complete:
  "g_statements us ss \<Longrightarrow> r = [] \<or> starts_statement r \<Longrightarrow> parse_statements (us @ r) =
     (if r = [] then (ss, [], Accepted) else (case parse_statements r of (rs, is, out) \<Rightarrow> (ss @ rs, is, out)))"
proof (induction arbitrary: r rule: g_statements.induct)
  case (1 ts s)
  then show ?case
    using statement_complete [of ts s r] by (auto simp: parse_statements.simps [of "ts @ r"])
next
  case (2 ts ss us s)
  have us: "us @ r \<noteq> []" "starts_statement (us @ r)"
    using g_statement_start [OF "2.hyps"(2), of r] by simp_all
  have "parse_statements (us @ r) =
      (if r = [] then ([s], [], Accepted) else (case parse_statements r of (rs, is, out) \<Rightarrow> (s # rs, is, out)))"
    using statement_complete [OF "2.hyps"(2) "2.prems"] "2.prems" by (auto simp: parse_statements.simps [of "us @ r"])
  then show ?case
    using "2.IH" [of "us @ r"] us by (auto split: prod.splits)
qed

theorem statements_accepts: "parse_statements ts = (ss, [], Accepted) \<longleftrightarrow> g_statements ts ss"
  using statements_sound [of ts ss "[]" Accepted] statements_complete [of ts ss "[]"] by auto

end
