(* ===== verification/Std_Map.thy ===== *)
theory Std_Map
  imports Prelude "HOL-Library.Char_ord" "HOL-Library.List_Lexorder"
begin

text \<open>
  \<open>std::map\<close> as the code uses it: an association list kept in ascending key order, so that
  iteration order and \<open>std::distance\<close> are those of the container. \<open>std::string\<close> keys compare
  bytewise and lexicographically, which is the order of \<open>Char_ord\<close> and \<open>List_Lexorder\<close>.
\<close>

section \<open>Operations\<close>

type_synonym ('k, 'v) std_map = "('k \<times> 'v) list"

text \<open>\<open>find\<close>, and \<open>count(k) > 0\<close>, which is \<open>find(k) != end()\<close>.\<close>

definition map_find :: "('k, 'v) std_map \<Rightarrow> 'k \<Rightarrow> 'v option" where
  "map_find m k = map_of m k"

definition map_count :: "('k, 'v) std_map \<Rightarrow> 'k \<Rightarrow> nat" where
  "map_count m k = (case map_find m k of None \<Rightarrow> 0 | Some _ \<Rightarrow> 1)"

text \<open>\<open>m[k] = v\<close>: overwrite the entry, or insert it at its place in the order.\<close>

fun map_set :: "'k::linorder \<Rightarrow> 'v \<Rightarrow> ('k, 'v) std_map \<Rightarrow> ('k, 'v) std_map" where
  "map_set k v [] = [(k, v)]"
| "map_set k v ((k', v') # m) =
     (if k < k' then (k, v) # (k', v') # m
      else if k = k' then (k, v) # m
      else (k', v') # map_set k v m)"

text \<open>
  \<open>m[k]\<close> as an rvalue: a missing key is inserted with a value-initialised element, here the
  argument \<open>d\<close>. Both the value and the map after the read are returned.
\<close>

definition map_subscript :: "'v \<Rightarrow> 'k::linorder \<Rightarrow> ('k, 'v) std_map \<Rightarrow> 'v \<times> ('k, 'v) std_map" where
  "map_subscript d k m =
     (case map_find m k of Some v \<Rightarrow> (v, m) | None \<Rightarrow> (d, map_set k d m))"

definition map_erase :: "'k \<Rightarrow> ('k, 'v) std_map \<Rightarrow> ('k, 'v) std_map" where
  "map_erase k m = filter (\<lambda>e. fst e \<noteq> k) m"

text \<open>\<open>std::distance(m.begin(), it)\<close> for an iterator \<open>it\<close> found at key \<open>k\<close>.\<close>

definition map_distance :: "('k, 'v) std_map \<Rightarrow> 'k \<Rightarrow> nat" where
  "map_distance m k = length (takeWhile (\<lambda>e. fst e \<noteq> k) m)"

text \<open>The representation invariant: keys strictly ascending.\<close>

definition map_ok :: "('k::linorder, 'v) std_map \<Rightarrow> bool" where
  "map_ok m \<longleftrightarrow> sorted (map fst m) \<and> distinct (map fst m)"

section \<open>The contract of the container\<close>

text \<open>
  What the assembler relies on: lookups after an update or an erase, and the kept invariant.
  What every client derives from these laws is proved once here.
\<close>

locale container =
  fixes find :: "'m \<Rightarrow> 'k \<Rightarrow> 'v option"
    and set_entry :: "'k \<Rightarrow> 'v \<Rightarrow> 'm \<Rightarrow> 'm"
    and erase :: "'k \<Rightarrow> 'm \<Rightarrow> 'm"
    and ok :: "'m \<Rightarrow> bool"
    and nil :: 'm
  assumes find_nil [simp]: "find nil = Map.empty"
    and find_set: "ok m \<Longrightarrow> find (set_entry k v m) = (find m)(k \<mapsto> v)"
    and find_erase: "ok m \<Longrightarrow> find (erase k m) = (find m)(k := None)"
    and ok_nil [simp]: "ok nil"
    and ok_set [intro]: "ok m \<Longrightarrow> ok (set_entry k v m)"
    and ok_erase [intro]: "ok m \<Longrightarrow> ok (erase k m)"
begin

lemma find_set_same: "ok m \<Longrightarrow> find (set_entry k v m) k = Some v"
  by (simp add: find_set)

lemma find_set_other: "ok m \<Longrightarrow> k' \<noteq> k \<Longrightarrow> find (set_entry k v m) k' = find m k'"
  by (simp add: find_set)

lemma find_set_mono: "ok m \<Longrightarrow> find m k' = Some w \<Longrightarrow> \<exists>w'. find (set_entry k v m) k' = Some w'"
  by (auto simp: find_set)

lemma dom_set: "ok m \<Longrightarrow> dom (find (set_entry k v m)) = insert k (dom (find m))"
  by (simp add: find_set)

lemma dom_erase: "ok m \<Longrightarrow> dom (find (erase k m)) = dom (find m) - {k}"
  by (simp add: find_erase)

text \<open>Writing two entries with different keys commutes, up to lookups.\<close>

lemma find_set_commute:
  "ok m \<Longrightarrow> k \<noteq> k' \<Longrightarrow>
     find (set_entry k v (set_entry k' v' m)) = find (set_entry k' v' (set_entry k v m))"
  by (simp add: find_set ok_set fun_upd_twist)

end

lemma set_keys_map_set: "fst ` set (map_set k v m) = insert k (fst ` set m)"
  by (induction k v m rule: map_set.induct) auto

lemma map_ok_Nil: "map_ok []"
  by (simp add: map_ok_def)

lemma map_ok_Cons: "map_ok (e # m) \<longleftrightarrow> (\<forall>k \<in> fst ` set m. fst e < k) \<and> map_ok m"
  by (auto simp: map_ok_def order_less_le)

lemma map_ok_set: "map_ok m \<Longrightarrow> map_ok (map_set k v m)"
  by (induction k v m rule: map_set.induct)
    (auto simp: map_ok_Cons set_keys_map_set dest: order_less_trans)

lemma map_of_below:
  assumes "map_ok m" and "\<forall>k' \<in> fst ` set m. k < k'"
  shows "map_of m k = None"
  using assms(2) by (auto simp: map_of_eq_None_iff)

lemma map_of_map_set: "map_ok m \<Longrightarrow> map_of (map_set k v m) = (map_of m)(k \<mapsto> v)"
proof (induction k v m rule: map_set.induct)
  case (2 k v k' v' m)
  then show ?case by (auto simp: map_ok_Cons fun_eq_iff)
qed simp

interpretation smap: container map_find map_set map_erase map_ok "[]"
proof
  show "map_find [] = Map.empty" by (simp add: map_find_def fun_eq_iff)
  show "map_find (map_set k v m) = (map_find m)(k \<mapsto> v)" if "map_ok m"
    for k :: 'a and v :: 'b and m
    using map_of_map_set [OF that] by (simp add: map_find_def fun_eq_iff)
  show "map_find (map_erase k m) = (map_find m)(k := None)" for k :: 'a and m :: "('a, 'b) std_map"
    by (induction m) (auto simp: map_find_def map_erase_def fun_eq_iff)
  show "map_ok (map_set k v m)" if "map_ok m" for k :: 'a and v :: 'b and m
    using that by (rule map_ok_set)
  show "map_ok (map_erase k m)" if "map_ok m" for k :: 'a and m :: "('a, 'b) std_map"
    using that by (auto simp: map_ok_def map_erase_def sorted_filter distinct_map_filter)
qed (simp add: map_ok_Nil)

lemma map_count_pos: "0 < map_count m k \<longleftrightarrow> map_find m k \<noteq> None"
  by (auto simp: map_count_def split: option.splits)

lemma map_subscript_Some: "map_find m k = Some v \<Longrightarrow> map_subscript d k m = (v, m)"
  by (simp add: map_subscript_def)

lemma map_subscript_None: "map_find m k = None \<Longrightarrow> map_subscript d k m = (d, map_set k d m)"
  by (simp add: map_subscript_def)

lemma map_ok_subscript: "map_ok m \<Longrightarrow> map_ok (snd (map_subscript d k m))"
  by (auto simp: map_subscript_def split: option.splits)

lemma fst_map_subscript: "fst (map_subscript d k m) = (case map_find m k of None \<Rightarrow> d | Some v \<Rightarrow> v)"
  by (simp add: map_subscript_def split: option.splits)

lemma map_find_eq_map_of: "map_find m = map_of m"
  by (simp add: map_find_def fun_eq_iff)

lemma dom_map_find: "dom (map_find m) = fst ` set m"
  by (simp add: map_find_eq_map_of dom_map_of_conv_image_fst)

text \<open>The distance of a key is the number of smaller keys: an index into the key order.\<close>

lemma map_distance_card:
  assumes "map_ok m" and "map_find m k \<noteq> None"
  shows "map_distance m k = card {k' \<in> dom (map_find m). k' < k}"
  using assms
proof (induction m)
  case Nil
  then show ?case by (simp add: map_find_def)
next
  case (Cons e m)
  obtain k0 v0 where e: "e = (k0, v0)" by (cases e)
  have below: "\<forall>k' \<in> fst ` set m. k0 < k'" and ok: "map_ok m"
    using Cons.prems(1) e by (auto simp: map_ok_Cons)
  have dom_eq: "dom (map_find (e # m)) = insert k0 (fst ` set m)"
    by (simp add: e dom_map_find)
  show ?case
  proof (cases "k = k0")
    case True
    then have "{k' \<in> dom (map_find (e # m)). k' < k} = {}"
      using below by (auto simp: dom_eq)
    then have "card {k' \<in> dom (map_find (e # m)). k' < k} = 0" by (simp only: card.empty)
    then show ?thesis using True e by (simp add: map_distance_def)
  next
    case False
    then have "map_find m k \<noteq> None" using Cons.prems(2) e by (simp add: map_find_def)
    then have k_in: "k \<in> fst ` set m"
      by (auto simp: map_find_def map_of_eq_None_iff)
    have split_dom: "{k' \<in> dom (map_find (e # m)). k' < k} = insert k0 {k' \<in> dom (map_find m). k' < k}"
      unfolding dom_eq unfolding dom_map_find using below k_in by auto
    have "k0 \<notin> {k' \<in> dom (map_find m). k' < k}"
      using below by (auto simp: dom_map_find)
    moreover have "finite {k' \<in> dom (map_find m). k' < k}"
      by (simp add: dom_map_find)
    ultimately have "card {k' \<in> dom (map_find (e # m)). k' < k} = Suc (map_distance m k)"
      using Cons.IH [OF ok \<open>map_find m k \<noteq> None\<close>] by (simp only: split_dom card_insert_disjoint simp_thms)
    then show ?thesis using False e by (simp add: map_distance_def)
  qed
qed

lemma map_distance_less:
  "map_find m k \<noteq> None \<Longrightarrow> map_distance m k < length m \<and> fst (m ! map_distance m k) = k"
proof (induction m)
  case Nil
  then show ?case by (simp add: map_find_def)
next
  case (Cons e m)
  then show ?case by (cases e) (auto simp: map_find_def map_distance_def split: if_splits)
qed

end
