(* ===== verification/Rv32_Isa.thy ===== *)
theory Rv32_Isa
  imports Encoding Opcodes
begin

text \<open>
  The specification side of instruction encoding: how the RISC-V unprivileged manual (the
  document \<open>encoding.h\<close> says it implements) reads a 32-bit word of the base set RV32I. Nothing
  here models the assembler; the theorems of this theory compare what the emit functions
  produce with this reading.
\<close>

section \<open>Fields and immediates\<close>

definition bits :: "nat \<Rightarrow> nat \<Rightarrow> u32 \<Rightarrow> u32" where
  "bits hi lo w = take_bit (Suc hi - lo) (drop_bit lo w)"

definition isa_opcode :: "u32 \<Rightarrow> u32" where "isa_opcode w = bits 6 0 w"
definition isa_rd :: "u32 \<Rightarrow> u32" where "isa_rd w = bits 11 7 w"
definition isa_funct3 :: "u32 \<Rightarrow> u32" where "isa_funct3 w = bits 14 12 w"
definition isa_rs1 :: "u32 \<Rightarrow> u32" where "isa_rs1 w = bits 19 15 w"
definition isa_rs2 :: "u32 \<Rightarrow> u32" where "isa_rs2 w = bits 24 20 w"
definition isa_funct7 :: "u32 \<Rightarrow> u32" where "isa_funct7 w = bits 31 25 w"

text \<open>The five immediate formats, sign-extended to 32 bits.\<close>

definition imm_I :: "u32 \<Rightarrow> u32" where
  "imm_I w = signed_take_bit 11 (bits 31 20 w)"

definition imm_S :: "u32 \<Rightarrow> u32" where
  "imm_S w = signed_take_bit 11 (push_bit 5 (bits 31 25 w) OR bits 11 7 w)"

definition imm_B :: "u32 \<Rightarrow> u32" where
  "imm_B w = signed_take_bit 12 (push_bit 12 (bits 31 31 w) OR push_bit 11 (bits 7 7 w) OR
     push_bit 5 (bits 30 25 w) OR push_bit 1 (bits 11 8 w))"

definition imm_U :: "u32 \<Rightarrow> u32" where
  "imm_U w = push_bit 12 (bits 31 12 w)"

definition imm_J :: "u32 \<Rightarrow> u32" where
  "imm_J w = signed_take_bit 20 (push_bit 20 (bits 31 31 w) OR push_bit 12 (bits 19 12 w) OR
     push_bit 11 (bits 20 20 w) OR push_bit 1 (bits 30 21 w))"

lemmas isa_fields = isa_opcode_def isa_rd_def isa_funct3_def isa_rs1_def isa_rs2_def
  isa_funct7_def bits_def

lemmas isa_imms = imm_I_def imm_S_def imm_B_def imm_U_def imm_J_def bits_def

section \<open>Decoding\<close>

datatype alu = A_ADD | A_SUB | A_SLL | A_SLT | A_SLTU | A_XOR | A_SRL | A_SRA | A_OR | A_AND
datatype cond = C_EQ | C_NE | C_LT | C_GE | C_LTU | C_GEU
datatype width = W_B | W_H | W_W | W_BU | W_HU

datatype rv32i =
    Lui u32 u32
  | Auipc u32 u32
  | Jal u32 u32
  | Jalr u32 u32 u32
  | Branch cond u32 u32 u32
  | Load width u32 u32 u32
  | Store width u32 u32 u32
  | OpImm alu u32 u32 u32
  | Op alu u32 u32 u32
  | Fence
  | Ecall
  | Ebreak

definition decode_cond :: "u32 \<Rightarrow> cond option" where
  "decode_cond f3 =
     (if f3 = 0 then Some C_EQ else if f3 = 1 then Some C_NE else if f3 = 4 then Some C_LT
      else if f3 = 5 then Some C_GE else if f3 = 6 then Some C_LTU else if f3 = 7 then Some C_GEU
      else None)"

definition decode_load :: "u32 \<Rightarrow> width option" where
  "decode_load f3 =
     (if f3 = 0 then Some W_B else if f3 = 1 then Some W_H else if f3 = 2 then Some W_W
      else if f3 = 4 then Some W_BU else if f3 = 5 then Some W_HU else None)"

definition decode_store :: "u32 \<Rightarrow> width option" where
  "decode_store f3 =
     (if f3 = 0 then Some W_B else if f3 = 1 then Some W_H else if f3 = 2 then Some W_W else None)"

definition decode_op :: "u32 \<Rightarrow> u32 \<Rightarrow> alu option" where
  "decode_op f7 f3 =
     (if f7 = 0 then
        (if f3 = 0 then Some A_ADD else if f3 = 1 then Some A_SLL else if f3 = 2 then Some A_SLT
         else if f3 = 3 then Some A_SLTU else if f3 = 4 then Some A_XOR else if f3 = 5 then Some A_SRL
         else if f3 = 6 then Some A_OR else Some A_AND)
      else if f7 = 0x20 then
        (if f3 = 0 then Some A_SUB else if f3 = 5 then Some A_SRA else None)
      else None)"

definition decode_op_imm :: "u32 \<Rightarrow> (alu \<times> u32) option" where
  "decode_op_imm w = (let f3 = isa_funct3 w in
     if f3 = 0 then Some (A_ADD, imm_I w) else if f3 = 2 then Some (A_SLT, imm_I w)
     else if f3 = 3 then Some (A_SLTU, imm_I w) else if f3 = 4 then Some (A_XOR, imm_I w)
     else if f3 = 6 then Some (A_OR, imm_I w) else if f3 = 7 then Some (A_AND, imm_I w)
     else if f3 = 1 then (if isa_funct7 w = 0 then Some (A_SLL, isa_rs2 w) else None)
     else if isa_funct7 w = 0 then Some (A_SRL, isa_rs2 w)
     else if isa_funct7 w = 0x20 then Some (A_SRA, isa_rs2 w) else None)"

definition rv_decode :: "u32 \<Rightarrow> rv32i option" where
  "rv_decode w = (let opc = isa_opcode w; rd = isa_rd w; rs1 = isa_rs1 w; rs2 = isa_rs2 w;
                      f3 = isa_funct3 w in
     if opc = 0x37 then Some (Lui rd (imm_U w))
     else if opc = 0x17 then Some (Auipc rd (imm_U w))
     else if opc = 0x6f then Some (Jal rd (imm_J w))
     else if opc = 0x67 then (if f3 = 0 then Some (Jalr rd rs1 (imm_I w)) else None)
     else if opc = 0x63 then map_option (\<lambda>c. Branch c rs1 rs2 (imm_B w)) (decode_cond f3)
     else if opc = 0x03 then map_option (\<lambda>k. Load k rd rs1 (imm_I w)) (decode_load f3)
     else if opc = 0x23 then map_option (\<lambda>k. Store k rs2 rs1 (imm_S w)) (decode_store f3)
     else if opc = 0x13 then map_option (\<lambda>(a, i). OpImm a rd rs1 i) (decode_op_imm w)
     else if opc = 0x33 then map_option (\<lambda>a. Op a rd rs1 rs2) (decode_op (isa_funct7 w) f3)
     else if opc = 0x0f then Some Fence
     else if w = 0x73 then Some Ecall
     else if w = 0x100073 then Some Ebreak
     else None)"

section \<open>What the emit functions put into a word\<close>

text \<open>
  Every field of an emitted word is the argument cut to the field's width, and no argument
  reaches another field. The bundle is what the component proofs rewrite with.
\<close>

lemma emit_r_fields [field_simps_rv]:
  "isa_opcode (emit_r_type_instruction f7 rs1 rs2 f3 rd opc) = take_bit 7 opc"
  "isa_rd (emit_r_type_instruction f7 rs1 rs2 f3 rd opc) = take_bit 5 rd"
  "isa_funct3 (emit_r_type_instruction f7 rs1 rs2 f3 rd opc) = take_bit 3 f3"
  "isa_rs1 (emit_r_type_instruction f7 rs1 rs2 f3 rd opc) = take_bit 5 rs1"
  "isa_rs2 (emit_r_type_instruction f7 rs1 rs2 f3 rd opc) = take_bit 5 rs2"
  "isa_funct7 (emit_r_type_instruction f7 rs1 rs2 f3 rd opc) = take_bit 7 f7"
  by (rule word32_bitsI, simp add: emit_r_type_instruction_def rtype32_to_uint32_def isa_fields
      field_simps_rv)+

lemma emit_i_fields [field_simps_rv]:
  "isa_opcode (emit_i_type_instruction rd rs1 imm f3 opc) = take_bit 7 opc"
  "isa_rd (emit_i_type_instruction rd rs1 imm f3 opc) = take_bit 5 rd"
  "isa_funct3 (emit_i_type_instruction rd rs1 imm f3 opc) = take_bit 3 f3"
  "isa_rs1 (emit_i_type_instruction rd rs1 imm f3 opc) = take_bit 5 rs1"
  "imm_I (emit_i_type_instruction rd rs1 imm f3 opc) = signed_take_bit 11 imm"
  by (rule word32_bitsI, simp add: emit_i_type_instruction_def itype32_to_uint32_def isa_fields
      imm_I_def field_simps_rv)+

lemma emit_s_fields [field_simps_rv]:
  "isa_opcode (emit_s_type_instruction rs2 rs1 imm f3 opc) = take_bit 7 opc"
  "isa_funct3 (emit_s_type_instruction rs2 rs1 imm f3 opc) = take_bit 3 f3"
  "isa_rs1 (emit_s_type_instruction rs2 rs1 imm f3 opc) = take_bit 5 rs1"
  "isa_rs2 (emit_s_type_instruction rs2 rs1 imm f3 opc) = take_bit 5 rs2"
  "imm_S (emit_s_type_instruction rs2 rs1 imm f3 opc) = signed_take_bit 11 imm"
  by (rule word32_bitsI, simp add: emit_s_type_instruction_def stype32_to_uint32_def isa_fields
      imm_S_def field_simps_rv)+

lemma emit_b_fields [field_simps_rv]:
  "isa_opcode (emit_b_type_instruction imm rs2 rs1 f3 opc) = take_bit 7 opc"
  "isa_funct3 (emit_b_type_instruction imm rs2 rs1 f3 opc) = take_bit 3 f3"
  "isa_rs1 (emit_b_type_instruction imm rs2 rs1 f3 opc) = take_bit 5 rs1"
  "isa_rs2 (emit_b_type_instruction imm rs2 rs1 f3 opc) = take_bit 5 rs2"
  "imm_B (emit_b_type_instruction imm rs2 rs1 f3 opc) = signed_take_bit 12 (imm AND NOT 1)"
  by (rule word32_bitsI, simp add: emit_b_type_instruction_def btype32_to_uint32_def isa_fields
      imm_B_def field_simps_rv numeral_2_eq_2 [symmetric] del: push_bit_Suc take_bit_Suc_0)+

lemma emit_u_fields [field_simps_rv]:
  "isa_opcode (emit_u_type_instruction imm rd opc) = take_bit 7 opc"
  "isa_rd (emit_u_type_instruction imm rd opc) = take_bit 5 rd"
  "imm_U (emit_u_type_instruction imm rd opc) = push_bit 12 imm"
  by (rule word32_bitsI, simp add: emit_u_type_instruction_def isa_fields imm_U_def field_simps_rv)+

lemma emit_j_fields [field_simps_rv]:
  "isa_opcode (emit_j_type_instruction imm rd opc) = take_bit 7 opc"
  "isa_rd (emit_j_type_instruction imm rd opc) = take_bit 5 rd"
  "imm_J (emit_j_type_instruction imm rd opc) = signed_take_bit 20 (imm AND NOT 1)"
  by (rule word32_bitsI, simp add: emit_j_type_instruction_def jtype32_to_uint32_def isa_fields
      imm_J_def field_simps_rv numeral_2_eq_2 [symmetric] del: push_bit_Suc take_bit_Suc_0)+

text \<open>A value in the signed range of \<open>n + 1\<close> bits survives the cut to \<open>n + 1\<close> bits.\<close>

lemma signed_take_bit_word_self:
  fixes w :: u32
  assumes "- (2 ^ n) \<le> sint w" and "sint w < 2 ^ n" and "n < 32"
  shows "signed_take_bit n w = w"
proof (rule bit_word_eqI)
  fix m assume m: "m < LENGTH(32)"
  have s: "signed_take_bit n (sint w) = sint w"
    using assms(1,2) by (simp add: signed_take_bit_int_eq_self)
  have "bit w m = bit (sint w) m" using m by (simp add: bit_sint_iff)
  also have "\<dots> = bit (signed_take_bit n (sint w)) m" by (simp add: s)
  also have "\<dots> = bit (sint w) (min m n)" by (simp add: bit_signed_take_bit_iff min.commute)
  also have "\<dots> = bit w (min m n)" using m assms(3) by (simp add: bit_sint_iff min_def)
  finally show "bit (signed_take_bit n w) m = bit w m"
    using m by (simp add: bit_signed_take_bit_iff min.commute)
qed

lemma even_word_clear_lsb: "even (w :: u32) \<Longrightarrow> w AND NOT 1 = w"
  by (rule bit_word_eqI) (auto simp: bit_simps bit_1_iff even_iff_mod_2_eq_zero
      intro: ccontr simp flip: bit_0)

end
