(* ===== verification/Utils.thy ===== *)
theory Utils
  imports Stream_Io Rv32_Isa "HOL-Library.Char_ord"
begin

text \<open>
  The helpers of \<open>src/utils.h\<close> and \<open>src/utils.cc\<close> other than the \<open>write\<close> template: the two
  range checks, the name of the output file, and the second encoder of R-type instructions
  that the debug printer has.
\<close>

section \<open>Range checks\<close>

definition MAX_12_BIT_SIGNED :: int where "MAX_12_BIT_SIGNED = 2047"
definition MIN_12_BIT_SIGNED :: int where "MIN_12_BIT_SIGNED = -2048"
definition MAX_21_BIT_SIGNED :: int where "MAX_21_BIT_SIGNED = 1048575"
definition MIN_21_BIT_SIGNED :: int where "MIN_21_BIT_SIGNED = -1048576"

definition is_within_range_12b :: "i32 \<Rightarrow> bool" where
  "is_within_range_12b imm \<longleftrightarrow> MIN_12_BIT_SIGNED \<le> sint imm \<and> sint imm \<le> MAX_12_BIT_SIGNED"

definition is_within_range_21b :: "i32 \<Rightarrow> bool" where
  "is_within_range_21b imm \<longleftrightarrow> MIN_21_BIT_SIGNED \<le> sint imm \<and> sint imm \<le> MAX_21_BIT_SIGNED"

lemmas range_defs = is_within_range_12b_def is_within_range_21b_def
  MAX_12_BIT_SIGNED_def MIN_12_BIT_SIGNED_def MAX_21_BIT_SIGNED_def MIN_21_BIT_SIGNED_def

text \<open>
  The checks accept exactly the values that the immediate field of the format can hold: those
  that sign extension gives back after the cut to 12, or 21, bits.
\<close>

lemma signed_take_bit_fixed_iff:
  fixes w :: u32
  assumes "n < 31"
  shows "signed_take_bit n w = w \<longleftrightarrow> - (2 ^ n) \<le> sint w \<and> sint w < 2 ^ n"
proof
  assume eq: "signed_take_bit n w = w"
  have "sint w = signed_take_bit n (sint w)"
  proof (rule bit_eqI)
    fix m
    have "bit (sint w) m = bit w (min m 31)" by (auto simp: bit_sint_iff min_def bit_beyond)
    also have "\<dots> = bit (signed_take_bit n w) (min m 31)" by (simp add: eq)
    also have "\<dots> = bit w (min m n)"
      using assms by (auto simp: bit_signed_take_bit_iff min_def)
    finally show "bit (sint w) m = bit (signed_take_bit n (sint w)) m"
      using assms by (auto simp: bit_signed_take_bit_iff bit_sint_iff min_def)
  qed
  moreover have "- (2 ^ n) \<le> signed_take_bit n (sint w)" "signed_take_bit n (sint w) < 2 ^ n"
    by (rule signed_take_bit_int_greater_eq_minus_exp signed_take_bit_int_less_exp)+
  ultimately show "- (2 ^ n) \<le> sint w \<and> sint w < 2 ^ n" by simp
qed (use assms in \<open>simp add: signed_take_bit_word_self\<close>)

lemma is_within_range_12b_iff: "is_within_range_12b imm \<longleftrightarrow> signed_take_bit 11 imm = imm"
  using signed_take_bit_fixed_iff [of 11 imm] by (auto simp: range_defs)

lemma is_within_range_21b_iff: "is_within_range_21b imm \<longleftrightarrow> signed_take_bit 20 imm = imm"
  using signed_take_bit_fixed_iff [of 20 imm] by (auto simp: range_defs)

section \<open>The output file name\<close>

text \<open>\<open>std::string::find_last_of\<close> for one character; \<open>None\<close> is \<open>npos\<close>.\<close>

definition find_last_of :: "char \<Rightarrow> string \<Rightarrow> nat option" where
  "find_last_of c s = (let d = length (takeWhile (\<lambda>x. x \<noteq> c) (rev s)) in
     if d = length s then None else Some (length s - 1 - d))"

definition generate_dest_filename :: "string \<Rightarrow> string" where
  "generate_dest_filename source_filename =
     (let last_dot = find_last_of CHR ''.'' source_filename; ext = ''.o'' in
      case last_dot of
        None \<Rightarrow> source_filename @ ext
      | Some d \<Rightarrow> take d source_filename @ ext)"

lemma find_last_of_None: "c \<notin> set s \<Longrightarrow> find_last_of c s = None"
proof -
  assume "c \<notin> set s"
  then have "takeWhile (\<lambda>x. x \<noteq> c) (rev s) = rev s" by (auto simp: takeWhile_eq_all_conv)
  then show ?thesis by (simp add: find_last_of_def Let_def del: takeWhile_eq_all_conv)
qed

lemma find_last_of_Some: "c \<notin> set t \<Longrightarrow> find_last_of c (s @ c # t) = Some (length s)"
proof -
  assume "c \<notin> set t"
  then have "takeWhile (\<lambda>x. x \<noteq> c) (rev t @ c # rev s) = rev t"
    by (subst takeWhile_append2) auto
  then show ?thesis by (simp add: find_last_of_def)
qed

lemma generate_dest_filename_ext:
  "CHR ''.'' \<notin> set ext \<Longrightarrow> generate_dest_filename (stem @ CHR ''.'' # ext) = stem @ ''.o''"
  by (simp add: generate_dest_filename_def find_last_of_Some)

lemma generate_dest_filename_plain:
  "CHR ''.'' \<notin> set name \<Longrightarrow> generate_dest_filename name = name @ ''.o''"
  by (simp add: generate_dest_filename_def find_last_of_None)

section \<open>The debug printer's encoder\<close>

text \<open>The number that \<open>print_instruction_hex\<close> prints.\<close>

definition print_instruction_hex_encoded :: "rtype32_t \<Rightarrow> u32" where
  "print_instruction_hex_encoded instr =
    (let encoded = 0;
         encoded = encoded OR (ucast (r_opcode instr) AND 0x7F);
         encoded = encoded OR push_bit 7 (ucast (r_rd instr) AND 0x1F);
         encoded = encoded OR push_bit 12 (ucast (r_funct3 instr) AND 0x7);
         encoded = encoded OR push_bit 15 (ucast (r_rs1 instr) AND 0x1F);
         encoded = encoded OR push_bit 20 (ucast (r_rs2 instr) AND 0x1F);
         encoded = encoded OR push_bit 25 (ucast (r_funct7 instr) AND 0x7F)
     in encoded)"

lemma print_instruction_hex_agrees: "print_instruction_hex_encoded instr = rtype32_to_uint32 instr"
  by (rule word32_bitsI)
    (simp add: print_instruction_hex_encoded_def rtype32_to_uint32_def Let_def field_simps_rv)

text \<open>The lines that the two debug printers write; \<open>%08X\<close> pads with zeros and uses capitals.\<close>

definition upper_digit :: "char \<Rightarrow> char" where
  "upper_digit c = (if (97 :: nat) \<le> of_char c then char_of (of_char c - 32 :: nat) else c)"

definition hex08 :: "u32 \<Rightarrow> string" where
  "hex08 v = (let ds = map upper_digit (digits 16 (unat v)) in replicate (8 - length ds) CHR ''0'' @ ds)"

definition print_instruction_hex :: "rtype32_t \<Rightarrow> string" where
  "print_instruction_hex instr = ''Inst: 0x'' @ hex08 (print_instruction_hex_encoded instr) @ [CHR 0x0A]"

definition print_instruction :: "rtype32_t \<Rightarrow> string" where
  "print_instruction instr =
     ''Instruction Encoded: opcode = '' @ digits 10 (unat (r_opcode instr)) @
     '', rd = '' @ digits 10 (unat (r_rd instr)) @ '', funct3 = '' @ digits 10 (unat (r_funct3 instr)) @
     '', rs1 = '' @ digits 10 (unat (r_rs1 instr)) @ '', rs2 = '' @ digits 10 (unat (r_rs2 instr)) @
     '', funct7 = '' @ digits 10 (unat (r_funct7 instr)) @ [CHR 0x0A] @ print_instruction_hex instr"

end
