(* ===== verification/Elf_Object.thy ===== *)
theory Elf_Object
  imports String_Table Std_Map Encoding Utils
begin

text \<open>
  The object file under construction: class \<open>ELF32\<close> of \<open>src/elf.h\<close> and \<open>src/elf.cc\<close>, from the
  constructor to the operations the parser calls, in the order of the source. The section
  objects are fields of the record; the section headers are in the store \<open>hdr_store\<close>, because
  the header table and the sections share them.
\<close>

section \<open>Labels and symbols\<close>

text \<open>The FNV-1a hash of \<open>elf.h\<close>; multiplication wraps.\<close>

definition hasher :: "string \<Rightarrow> u32" where
  "hasher input = foldl (\<lambda>hash c. (hash XOR of_char c) * 16777619) 2166136261 input"

record UnresolvedInst32 =
  insn_number :: u32
  pc_insn_number :: u32
  insn_type :: RISCV32_INST_TYPE
  insn_hash :: u32

record Sym =
  sym_section_idx :: size_t
  sym_offset_idx :: u32
  sym_symtab_idx :: size_t
  sym_resolved :: bool
  sym_label :: bool

text \<open>The namespace-level constant, which the parser uses (the class has another of this name).\<close>

definition UNRESOLVED_IDX :: size_t where
  "UNRESOLVED_IDX = 0xFAF0"

definition SIZE_MAX :: size_t where
  "SIZE_MAX = - 1"

section \<open>The object\<close>

text \<open>The polymorphic pointers in \<open>sections\<close>.\<close>

datatype section_ref = Text_section | Data_section

record ELF32 =
  elf_header :: Elf32_Ehdr
  hdr_store :: heap
  section_headers :: "hptr list"
  header_shstrtab :: "hptr option"
  sections :: "section_ref list"
  sec_data :: Data
  sec_text :: Text
  strtab :: StringTable
  shstrtab :: StringTable
  symtab :: Symtab
  resolved_labels :: "(string, u32) std_map"
  unresolved_labels :: "(string, u32) std_map"
  section_to_idx :: "(string, u32) std_map"
  symbols :: "(string, Sym) std_map"
  label_to_addr :: "(u32, u32) std_map"
  unresolved_instructions :: "UnresolvedInst32 list"

text \<open>The members before the body of the constructor runs.\<close>

definition blank_ELF32 :: ELF32 where
  "blank_ELF32 = \<lparr>
     elf_header = zero_Ehdr, hdr_store = [], section_headers = [], header_shstrtab = None,
     sections = [],
     sec_data = \<lparr>header = None, data = []\<rparr>,
     sec_text = \<lparr>header = None, data = []\<rparr>,
     strtab = StringTable_new False,
     shstrtab = StringTable_new True,
     symtab = \<lparr>header = None, data = []\<rparr>,
     resolved_labels = [], unresolved_labels = [], section_to_idx = [], symbols = [],
     label_to_addr = [], unresolved_instructions = [] \<rparr>"

text \<open>Assignments through a header pointer, and \<open>section_headers.push_back\<close>.\<close>

definition set_hdr :: "hptr \<Rightarrow> (Elf32_Shdr \<Rightarrow> Elf32_Shdr) \<Rightarrow> ELF32 \<Rightarrow> ELF32 result" where
  "set_hdr p f e = andThen (hdr_update (Some p) f (hdr_store e)) (\<lambda>hp. Inr (e\<lparr>hdr_store := hp\<rparr>))"

definition register_section :: "string \<Rightarrow> hptr \<Rightarrow> ELF32 \<Rightarrow> ELF32" where
  "register_section name sh e =
     e\<lparr>section_to_idx := map_set name (of_nat (length (section_headers e))) (section_to_idx e),
       section_headers := section_headers e @ [sh]\<rparr>"

section \<open>Strings\<close>

definition store_section_name :: "string \<Rightarrow> ELF32 \<Rightarrow> (nat \<times> ELF32) result" where
  "store_section_name name e =
     andThen (add_string (Some name) (shstrtab e) (hdr_store e))
       (\<lambda>(offset, t, hp). Inr (offset, e\<lparr>shstrtab := t, hdr_store := hp\<rparr>))"

definition store_regular_string :: "string \<Rightarrow> ELF32 \<Rightarrow> (nat \<times> ELF32) result" where
  "store_regular_string str e =
     andThen (add_string (Some str) (strtab e) (hdr_store e))
       (\<lambda>(offset, t, hp).
          andThen (hdr_update (header t) (\<lambda>h. h\<lparr>sh_size := of_nat (StringTable_size_in_bytes t)\<rparr>) hp)
            (\<lambda>hp. Inr (offset, e\<lparr>strtab := t, hdr_store := hp\<rparr>)))"

section \<open>The constructor\<close>

definition init_elf_header :: "ELF32 \<Rightarrow> ELF32" where
  "init_elf_header e = e\<lparr>elf_header := zero_Ehdr\<lparr>
     e_ident := (e_ident zero_Ehdr)[0 := 0x7f, 1 := of_char CHR ''E'', 2 := of_char CHR ''L'',
       3 := of_char CHR ''F'', 4 := 1, 5 := 1, 6 := 1],
     e_type := ET_REL, e_machine := 0xF3, e_version := 1,
     e_entry := 0, e_phoff := 0, e_shoff := 0, e_flags := 0,
     e_ehsize := of_nat sizeof_Ehdr, e_phentsize := 0, e_shentsize := of_nat sizeof_Shdr,
     e_phnum := 0, e_shnum := 0, e_shstrndx := 0 \<rparr>\<rparr>"

definition init_section_headers :: "ELF32 \<Rightarrow> ELF32" where
  "init_section_headers e = (let (first_entry, hp) = new_Shdr (hdr_store e) in
     e\<lparr>hdr_store := hp, section_headers := section_headers e @ [first_entry]\<rparr>)"

definition init_strtables :: "ELF32 \<Rightarrow> ELF32 result" where
  "init_strtables e =
    (let (sh_strtab, hp) = new_Shdr (hdr_store e);
         (sh_shstrtab, hp) = new_Shdr hp;
         e = e\<lparr>hdr_store := hp, header_shstrtab := Some sh_shstrtab,
               strtab := (StringTable_new False)\<lparr>header := Some sh_strtab\<rparr>,
               shstrtab := (StringTable_new True)\<lparr>header := Some sh_shstrtab\<rparr>\<rparr>
     in
     andThen (set_hdr sh_strtab (\<lambda>h. zero_Shdr) e) (\<lambda>e.
     andThen (set_hdr sh_shstrtab (\<lambda>h. zero_Shdr) e) (\<lambda>e.
     andThen (set_hdr sh_strtab (\<lambda>h. h\<lparr>sh_type := SHT_STRTAB\<rparr>) e) (\<lambda>e.
     andThen (set_hdr sh_shstrtab (\<lambda>h. h\<lparr>sh_type := SHT_STRTAB\<rparr>) e) (\<lambda>e.
     andThen (set_hdr sh_strtab
       (\<lambda>h. h\<lparr>sh_size := of_nat (StringTable_size_in_bytes (strtab e))\<rparr>) e) (\<lambda>e.
     andThen (set_hdr sh_shstrtab
       (\<lambda>h. h\<lparr>sh_size := of_nat (StringTable_size_in_bytes (shstrtab e))\<rparr>) e) (\<lambda>e.
     andThen (store_section_name ''.shstrtab'' e) (\<lambda>(off, e).
     andThen (set_hdr sh_shstrtab (\<lambda>h. h\<lparr>sh_name := of_nat off\<rparr>) e) (\<lambda>e.
     andThen (store_section_name ''.strtab'' e) (\<lambda>(off, e).
     andThen (set_hdr sh_strtab (\<lambda>h. h\<lparr>sh_name := of_nat off\<rparr>) e) (\<lambda>e.
     Inr (register_section ''.strtab'' sh_shstrtab
           (register_section ''.shstrtab'' sh_strtab e)))))))))))))"

definition init_symtab :: "ELF32 \<Rightarrow> ELF32 result" where
  "init_symtab e =
    (let (sh, hp) = new_Shdr (hdr_store e);
         e = e\<lparr>hdr_store := hp\<rparr>;
         section_name = ''.symtab''
     in
     andThen (set_hdr sh (\<lambda>h. h\<lparr>sh_size := 0, sh_type := SHT_SYMTAB, sh_flags := 0,
       sh_entsize := of_nat sizeof_Sym\<rparr>) e) (\<lambda>e.
     andThen (store_section_name section_name e) (\<lambda>(off, e).
     andThen (set_hdr sh (\<lambda>h. h\<lparr>sh_name := of_nat off, sh_link := 1, sh_info := 1\<rparr>) e) (\<lambda>e.
     andThen (Symtab_push (zero_Sym\<lparr>st_shndx := SHN_UNDEF\<rparr>) \<lparr>header = Some sh, data = []\<rparr>
       (hdr_store e)) (\<lambda>(s, hp).
     Inr (register_section section_name sh (e\<lparr>symtab := s, hdr_store := hp\<rparr>)))))))"

definition init_text_section :: "ELF32 \<Rightarrow> ELF32 result" where
  "init_text_section e =
    (let section_name = ''.text'';
         (sh, hp) = new_Shdr (hdr_store e);
         e = e\<lparr>hdr_store := hp\<rparr>
     in
     andThen (set_hdr sh (\<lambda>h. h\<lparr>sh_type := SHT_PROGBITS, sh_flags := SHF_ALLOC OR SHF_EXECINSTR\<rparr>) e) (\<lambda>e.
     let e = e\<lparr>sec_text := \<lparr>header = Some sh, data = []\<rparr>, sections := sections e @ [Text_section]\<rparr> in
     andThen (store_section_name section_name e) (\<lambda>(off, e).
     andThen (set_hdr sh (\<lambda>h. h\<lparr>sh_name := of_nat off\<rparr>) e) (\<lambda>e.
     Inr (register_section section_name sh e)))))"

definition init_data_section :: "ELF32 \<Rightarrow> ELF32 result" where
  "init_data_section e =
    (let section_name = ''.data'';
         (sh, hp) = new_Shdr (hdr_store e);
         e = e\<lparr>hdr_store := hp\<rparr>
     in
     andThen (set_hdr sh (\<lambda>h. h\<lparr>sh_type := SHT_PROGBITS, sh_flags := SHF_ALLOC OR SHF_WRITE\<rparr>) e) (\<lambda>e.
     let e = e\<lparr>sec_data := \<lparr>header = Some sh, data = []\<rparr>, sections := sections e @ [Data_section]\<rparr> in
     andThen (store_section_name section_name e) (\<lambda>(off, e).
     andThen (set_hdr sh (\<lambda>h. h\<lparr>sh_name := of_nat off\<rparr>) e) (\<lambda>e.
     Inr (register_section section_name sh e)))))"

definition ELF32_new :: "ELF32 result" where
  "ELF32_new =
     (let e = init_section_headers (init_elf_header blank_ELF32) in
      andThen (init_strtables e) (\<lambda>e.
      andThen (init_symtab e) (\<lambda>e.
      andThen (init_text_section e) (\<lambda>e.
      init_data_section e))))"

section \<open>Sections, labels and symbols\<close>

text \<open>
  \<open>get_section_idx\<close> returns the position of the name in the key order of \<open>section_to_idx\<close>, not
  the header index stored under it.
\<close>

definition get_section_idx :: "string \<Rightarrow> ELF32 \<Rightarrow> size_t" where
  "get_section_idx section_name e =
     (case map_find (section_to_idx e) section_name of
        Some _ \<Rightarrow> of_nat (map_distance (section_to_idx e) section_name)
      | None \<Rightarrow> SIZE_MAX)"

definition label_exists :: "string \<Rightarrow> ELF32 \<Rightarrow> bool" where
  "label_exists label e \<longleftrightarrow> map_count (resolved_labels e) label > 0"

definition init_label :: "string \<Rightarrow> bool \<Rightarrow> string \<Rightarrow> ELF32 \<Rightarrow> ELF32 result" where
  "init_label the_label is_global section_name e =
    (if label_exists the_label e then Inr e
     else andThen (store_regular_string the_label e) (\<lambda>(idx_strtab, e).
       let sm = zero_Sym\<lparr>st_name := of_nat idx_strtab,
                 st_info := of_int (ELF32_ST_BIND (if is_global then STB_GLOBAL else STB_LOCAL))\<rparr>;
           (sm, e) =
             (if map_count (section_to_idx e) section_name > 0 then
                let (v, m) = map_subscript 0 section_name (section_to_idx e)
                in (sm\<lparr>st_shndx := ucast v\<rparr>, e\<lparr>section_to_idx := m\<rparr>)
              else (sm, e));
           e = (if map_count (unresolved_labels e) the_label > 0
                then e\<lparr>unresolved_labels := map_erase the_label (unresolved_labels e)\<rparr> else e);
           e = e\<lparr>resolved_labels :=
                   map_set the_label (of_nat (last_index (sec_text e))) (resolved_labels e)\<rparr>;
           e = e\<lparr>label_to_addr :=
                   map_set (hasher the_label) (of_nat (last_index (sec_text e))) (label_to_addr e)\<rparr>
       in andThen (hdr_update (header (symtab e)) (\<lambda>h. h\<lparr>sh_size := sh_size h + of_nat sizeof_Sym\<rparr>)
                     (hdr_store e)) (\<lambda>hp.
          andThen (Symtab_push sm (symtab e) hp) (\<lambda>(s, hp).
          Inr (e\<lparr>symtab := s, hdr_store := hp\<rparr>)))))"

text \<open>For an existing label the source prints that the change is not yet implemented.\<close>

definition update_label_visibility :: "string \<Rightarrow> bool \<Rightarrow> ELF32 \<Rightarrow> ELF32 result" where
  "update_label_visibility label is_global e =
     (if label_exists label e then Inr e else init_label label is_global ''.text'' e)"

definition add_symbol ::
    "string \<Rightarrow> size_t \<Rightarrow> u32 \<Rightarrow> size_t \<Rightarrow> bool \<Rightarrow> bool \<Rightarrow> ELF32 \<Rightarrow> ELF32" where
  "add_symbol sym_text section_idx offset_idx symtab_idx is_resolved is_label e =
     e\<lparr>symbols := map_set sym_text
        \<lparr>sym_section_idx = section_idx, sym_offset_idx = offset_idx, sym_symtab_idx = symtab_idx,
         sym_resolved = is_resolved, sym_label = is_label\<rparr> (symbols e)\<rparr>"

definition symbol_exists :: "string \<Rightarrow> ELF32 \<Rightarrow> bool" where
  "symbol_exists sym_text e \<longleftrightarrow> map_find (symbols e) sym_text \<noteq> None"

definition zero_symbol :: Sym where
  "zero_symbol = \<lparr>sym_section_idx = 0, sym_offset_idx = 0, sym_symtab_idx = 0,
     sym_resolved = False, sym_label = False\<rparr>"

definition symbol_resolved :: "string \<Rightarrow> ELF32 \<Rightarrow> bool \<times> ELF32" where
  "symbol_resolved symbol e =
     (if \<not> symbol_exists symbol e then (False, e)
      else let (s, m) = map_subscript zero_symbol symbol (symbols e)
           in (sym_resolved s, e\<lparr>symbols := m\<rparr>))"

text \<open>The result, the value of the reference parameter \<open>_sym\<close>, and the object.\<close>

definition resolve_symbol :: "string \<Rightarrow> ELF32 \<Rightarrow> bool \<times> Sym \<times> ELF32" where
  "resolve_symbol symbol e =
     (if \<not> symbol_exists symbol e then (False, zero_symbol, e)
      else let (s, m) = map_subscript zero_symbol symbol (symbols e)
           in (True, s, e\<lparr>symbols := m\<rparr>))"

text \<open>The status, the value of the reference parameter \<open>offset\<close>, and the object.\<close>

definition resolve_label :: "string \<Rightarrow> ELF32 \<Rightarrow> int \<times> u32 \<times> ELF32" where
  "resolve_label label e =
     (if map_count (resolved_labels e) label > 0 then
        let (v, m) = map_subscript 0 label (resolved_labels e)
        in (0, v, e\<lparr>resolved_labels := m\<rparr>)
      else
        let e = e\<lparr>unresolved_labels := map_set label (hasher label) (unresolved_labels e)\<rparr>;
            (v, m) = map_subscript 0 label (unresolved_labels e)
        in (- 1, v, e\<lparr>unresolved_labels := m\<rparr>))"

section \<open>Text, data and pending instructions\<close>

text \<open>The first parameter is an \<open>int32_t\<close> stored into a \<open>uint32_t\<close> member.\<close>

definition add_to_unresolved_insns ::
    "i32 \<Rightarrow> RISCV32_INST_TYPE \<Rightarrow> u32 \<Rightarrow> u32 \<Rightarrow> ELF32 \<Rightarrow> ELF32" where
  "add_to_unresolved_insns insn_no ty hash pc_insn_no e =
     e\<lparr>unresolved_instructions := unresolved_instructions e @
        [\<lparr>insn_number = insn_no, pc_insn_number = pc_insn_no, insn_type = ty, insn_hash = hash\<rparr>]\<rparr>"

definition get_next_insn_number :: "string \<Rightarrow> ELF32 \<Rightarrow> size_t" where
  "get_next_insn_number section_name e =
     (if section_name = ''.text'' then of_nat (next_index (sec_text e)) else 0)"

definition add_to_text :: "u32 \<Rightarrow> ELF32 \<Rightarrow> ELF32 result" where
  "add_to_text instr e =
     andThen (Text_push instr (sec_text e) (hdr_store e))
       (\<lambda>(t, hp). Inr (e\<lparr>sec_text := t, hdr_store := hp\<rparr>))"

definition add_program_data :: "string \<Rightarrow> string \<Rightarrow> string \<Rightarrow> ELF32 \<Rightarrow> ELF32 result" where
  "add_program_data var_name value section_name e =
     andThen (store_regular_string var_name e) (\<lambda>(off, e).
     let sm = zero_Sym\<lparr>st_name := of_nat off, st_info := of_int (ELF32_ST_BIND STB_LOCAL)\<rparr>;
         (v, m) = map_subscript 0 section_name (section_to_idx e);
         sm = sm\<lparr>st_shndx := ucast v\<rparr>;
         e = e\<lparr>section_to_idx := m\<rparr>
     in andThen (Data_push_string value (sec_data e) (hdr_store e)) (\<lambda>(off, d, hp).
        let sm = sm\<lparr>st_value := of_nat off\<rparr>; e = e\<lparr>sec_data := d, hdr_store := hp\<rparr>
        in andThen (Symtab_push sm (symtab e) (hdr_store e)) (\<lambda>(s, hp).
           Inr (e\<lparr>symtab := s, hdr_store := hp\<rparr>))))"

section \<open>Resolving the pending instructions\<close>

text \<open>
  The distance in the source is computed in 64 bits (\<open>INSTRUCTION_WIDTH\<close> is a \<open>sizeof\<close>) from a
  32-bit difference, and stored into an \<open>int32_t\<close>.
\<close>

definition effective_offset :: "u32 \<Rightarrow> u32 \<Rightarrow> u32" where
  "effective_offset resolved_insn_number pc_insn_no =
     ucast ((ucast (resolved_insn_number - pc_insn_no) :: u64) * INSTRUCTION_WIDTH div 2)"

text \<open>
  One iteration of the loop. When the entry names no instruction, \<open>get_entry\<close> leaves the local
  variable \<open>insn\<close> uninitialised: its value is the argument \<open>junk\<close>, and the update that follows
  has no effect.
\<close>

definition resolve_entry :: "u32 \<Rightarrow> UnresolvedInst32 \<Rightarrow> ELF32 \<Rightarrow> ELF32" where
  "resolve_entry junk entry e =
    (let insn = (case get_entry (unat (insn_number entry)) (sec_text e) of
                   Some v \<Rightarrow> v | None \<Rightarrow> junk)
     in case insn_type entry of
       B_TYPE \<Rightarrow>
         (let b = btype32_deserialize insn;
              (resolved_insn_number, m) = map_subscript 0 (insn_hash entry) (label_to_addr e);
              off = effective_offset resolved_insn_number (pc_insn_number entry);
              insn = emit_b_type_instruction off (ucast (b_rs1 b)) (ucast (b_rs2 b))
                       (ucast (b_funct3 b)) (ucast (b_opcode b))
          in e\<lparr>label_to_addr := m,
               sec_text := snd (update_entry (unat (insn_number entry)) insn (sec_text e))\<rparr>)
     | U_TYPE \<Rightarrow>
         (let u = utype32_deserialize insn;
              (resolved_insn_number, m) = map_subscript 0 (insn_hash entry) (label_to_addr e);
              off = effective_offset resolved_insn_number (pc_insn_number entry);
              insn = emit_u_type_instruction off (ucast (u_rd u)) (ucast (u_opcode u))
          in e\<lparr>label_to_addr := m,
               sec_text := snd (update_entry (unat (insn_number entry)) insn (sec_text e))\<rparr>)
     | J_TYPE \<Rightarrow>
         (let j = jtype32_deserialize insn;
              (resolved_insn_number, m) = map_subscript 0 (insn_hash entry) (label_to_addr e);
              off = effective_offset resolved_insn_number (pc_insn_number entry);
              insn = emit_j_type_instruction off (ucast (j_rd j)) (ucast (j_opcode j))
          in e\<lparr>label_to_addr := m,
               sec_text := snd (update_entry (unat (insn_number entry)) insn (sec_text e))\<rparr>)
     | _ \<Rightarrow> e)"

fun resolve_entries :: "(nat \<Rightarrow> u32) \<Rightarrow> UnresolvedInst32 list \<Rightarrow> ELF32 \<Rightarrow> ELF32" where
  "resolve_entries junk [] e = e"
| "resolve_entries junk (entry # es) e =
     resolve_entries (\<lambda>i. junk (Suc i)) es (resolve_entry (junk 0) entry e)"

definition resolve_unresolved_instructions :: "(nat \<Rightarrow> u32) \<Rightarrow> ELF32 \<Rightarrow> ELF32" where
  "resolve_unresolved_instructions junk e = resolve_entries junk (unresolved_instructions e) e"

end
