(* ===== verification/Elf_Spec.thy ===== *)
theory Elf_Spec
  imports Elf_Object
begin

text \<open>
  What an object file under construction is, without its representation: the specification
  that \<open>ELF32\<close> implements. The representation relation \<open>elf_rep\<close> is at the same time the
  invariant of the class; \<open>Elf_Refine\<close> shows that every operation preserves it.
\<close>

section \<open>The abstract object\<close>

record obj =
  o_text :: "u32 list"
  o_data :: "byte list"
  o_syms :: "(string \<times> u32 \<times> u16) list"
  o_labels :: "string \<rightharpoonup> u32"
  o_wanted :: "string \<rightharpoonup> u32"
  o_addr :: "u32 \<rightharpoonup> u32"
  o_index :: "string \<rightharpoonup> u32"
  o_symbols :: "string \<rightharpoonup> Sym"
  o_pending :: "UnresolvedInst32 list"

definition spec_index :: "string \<rightharpoonup> u32" where
  "spec_index = [''.data'' \<mapsto> 5, ''.shstrtab'' \<mapsto> 1, ''.strtab'' \<mapsto> 2, ''.symtab'' \<mapsto> 3, ''.text'' \<mapsto> 4]"

definition spec_new :: obj where
  "spec_new = \<lparr>o_text = [], o_data = [], o_syms = [], o_labels = Map.empty,
     o_wanted = Map.empty, o_addr = Map.empty, o_index = spec_index, o_symbols = Map.empty,
     o_pending = []\<rparr>"

text \<open>The index of the instruction emitted last, and 0 before the first one.\<close>

definition spec_last :: "obj \<Rightarrow> u32" where
  "spec_last a = of_nat (length (o_text a) - 1)"

text \<open>
  A label is recorded once, with the index of the instruction emitted last; its symbol carries
  the name and the section, and nothing else.
\<close>

definition spec_init_label :: "string \<Rightarrow> string \<Rightarrow> obj \<Rightarrow> obj" where
  "spec_init_label l sec a =
     (if o_labels a l \<noteq> None then a
      else a\<lparr>o_syms := o_syms a @ [(c_str l, 0, ucast (case o_index a sec of None \<Rightarrow> 0 | Some i \<Rightarrow> i))],
             o_labels := (o_labels a)(l \<mapsto> spec_last a),
             o_wanted := (o_wanted a)(l := None),
             o_addr := (o_addr a)(hasher l \<mapsto> spec_last a)\<rparr>)"

definition spec_add_text :: "u32 \<Rightarrow> obj \<Rightarrow> obj" where
  "spec_add_text w a = a\<lparr>o_text := o_text a @ [w]\<rparr>"

definition spec_add_data :: "string \<Rightarrow> string \<Rightarrow> string \<Rightarrow> obj \<Rightarrow> obj" where
  "spec_add_data name v sec a =
     (let i = (case o_index a sec of None \<Rightarrow> 0 | Some i \<Rightarrow> i) in
      a\<lparr>o_syms := o_syms a @ [(c_str name, of_nat (length (o_data a)), ucast i)],
        o_index := (o_index a)(sec \<mapsto> i),
        o_data := o_data a @ map of_char v\<rparr>)"

text \<open>A reference to a label: its index if known, else the label is noted as wanted.\<close>

definition spec_resolve_label :: "string \<Rightarrow> obj \<Rightarrow> int \<times> u32 \<times> obj" where
  "spec_resolve_label l a = (case o_labels a l of
     Some v \<Rightarrow> (0, v, a)
   | None \<Rightarrow> (- 1, hasher l, a\<lparr>o_wanted := (o_wanted a)(l \<mapsto> hasher l)\<rparr>))"

definition spec_add_symbol :: "string \<Rightarrow> Sym \<Rightarrow> obj \<Rightarrow> obj" where
  "spec_add_symbol l s a = a\<lparr>o_symbols := (o_symbols a)(l \<mapsto> s)\<rparr>"

definition spec_add_pending :: "UnresolvedInst32 \<Rightarrow> obj \<Rightarrow> obj" where
  "spec_add_pending p a = a\<lparr>o_pending := o_pending a @ [p]\<rparr>"

text \<open>
  Putting an offset into an instruction word: the other fields are kept, except that a branch
  has its two source registers exchanged.
\<close>

definition patch :: "RISCV32_INST_TYPE \<Rightarrow> u32 \<Rightarrow> u32 \<Rightarrow> u32" where
  "patch ty off w = (case ty of
     B_TYPE \<Rightarrow> emit_b_type_instruction off (isa_rs1 w) (isa_rs2 w) (isa_funct3 w) (isa_opcode w)
   | U_TYPE \<Rightarrow> emit_u_type_instruction off (isa_rd w) (isa_opcode w)
   | J_TYPE \<Rightarrow> emit_j_type_instruction off (isa_rd w) (isa_opcode w)
   | _ \<Rightarrow> w)"

definition patchable :: "RISCV32_INST_TYPE \<Rightarrow> bool" where
  "patchable ty \<longleftrightarrow> ty = B_TYPE \<or> ty = U_TYPE \<or> ty = J_TYPE"

text \<open>The index a pending instruction refers to; an unknown label counts as index 0.\<close>

definition spec_target :: "obj \<Rightarrow> UnresolvedInst32 \<Rightarrow> u32" where
  "spec_target a p = (case o_addr a (insn_hash p) of None \<Rightarrow> 0 | Some v \<Rightarrow> v)"

definition spec_resolve_entry :: "UnresolvedInst32 \<Rightarrow> obj \<Rightarrow> obj" where
  "spec_resolve_entry p a =
     (if patchable (insn_type p) then
        let n = unat (insn_number p); off = 2 * (spec_target a p - pc_insn_number p) in
        a\<lparr>o_addr := (o_addr a)(insn_hash p \<mapsto> spec_target a p),
          o_text := (if n < length (o_text a)
                     then (o_text a)[n := patch (insn_type p) off (o_text a ! n)] else o_text a)\<rparr>
      else a)"

definition spec_resolve :: "obj \<Rightarrow> obj" where
  "spec_resolve a = fold spec_resolve_entry (o_pending a) a"

section \<open>Section headers\<close>

text \<open>The headers as constructed, with the two members cleared that change later.\<close>

definition strip :: "Elf32_Shdr \<Rightarrow> Elf32_Shdr" where
  "strip h = h\<lparr>sh_offset := 0, sh_size := 0\<rparr>"

definition hdr_templates :: "Elf32_Shdr list" where
  "hdr_templates =
    [zero_Shdr,
     zero_Shdr\<lparr>sh_name := 11, sh_type := SHT_STRTAB\<rparr>,
     zero_Shdr\<lparr>sh_name := 1, sh_type := SHT_STRTAB\<rparr>,
     zero_Shdr\<lparr>sh_name := 19, sh_type := SHT_SYMTAB, sh_link := 1, sh_info := 1,
               sh_entsize := of_nat sizeof_Sym\<rparr>,
     zero_Shdr\<lparr>sh_name := 27, sh_type := SHT_PROGBITS, sh_flags := SHF_ALLOC OR SHF_EXECINSTR\<rparr>,
     zero_Shdr\<lparr>sh_name := 33, sh_type := SHT_PROGBITS, sh_flags := SHF_ALLOC OR SHF_WRITE\<rparr>]"

definition section_names :: "string list" where
  "section_names = [''.shstrtab'', ''.strtab'', ''.symtab'', ''.text'', ''.data'']"

text \<open>The sizes the five headers must record, in the order of the header table.\<close>

definition hdr_sizes :: "ELF32 \<Rightarrow> nat list" where
  "hdr_sizes e = [0, StringTable_size_in_bytes (strtab e), StringTable_size_in_bytes (shstrtab e),
     Symtab_size_in_bytes (symtab e), Text_size_in_bytes (sec_text e), Data_size_in_bytes (sec_data e)]"

definition hdrs_ok :: "ELF32 \<Rightarrow> bool" where
  "hdrs_ok e \<longleftrightarrow> map strip (hdr_store e) = hdr_templates \<and> map sh_offset (hdr_store e) ! 0 = 0 \<and>
     map sh_size (hdr_store e) = map of_nat (hdr_sizes e) \<and>
     section_headers e = [0, 1, 2, 3, 4, 5] \<and> header_shstrtab e = Some 2 \<and>
     sections e = [Text_section, Data_section] \<and>
     header (strtab e) = Some 1 \<and> header (shstrtab e) = Some 2 \<and> header (symtab e) = Some 3 \<and>
     header (sec_text e) = Some 4 \<and> header (sec_data e) = Some 5"

text \<open>The ELF header as constructed, with the three members cleared that \<open>serialize\<close> sets.\<close>

definition strip_ehdr :: "Elf32_Ehdr \<Rightarrow> Elf32_Ehdr" where
  "strip_ehdr h = h\<lparr>e_shoff := 0, e_shnum := 0, e_shstrndx := 0\<rparr>"

definition ehdr_template :: Elf32_Ehdr where
  "ehdr_template = \<lparr>
     e_ident = [0x7f, 0x45, 0x4c, 0x46, 1, 1, 1, 0, 0, 0, 0, 0, 0, 0, 0, 0],
     e_type = ET_REL, e_machine = 0xF3, e_version = 1, e_entry = 0, e_phoff = 0, e_shoff = 0,
     e_flags = 0, e_ehsize = of_nat sizeof_Ehdr, e_phentsize = 0, e_phnum = 0,
     e_shentsize = of_nat sizeof_Shdr, e_shnum = 0, e_shstrndx = 0\<rparr>"

definition ehdr_rep :: "Elf32_Ehdr \<Rightarrow> bool" where
  "ehdr_rep h \<longleftrightarrow> strip_ehdr h = ehdr_template"

section \<open>The representation relation\<close>

text \<open>
  The symbol table that stands for a list of names with value and section. That \<open>st_info\<close> stays 0 is what
  \<open>ELF32_ST_BIND\<close> makes of both bindings in \<open>init_label\<close> and \<open>add_program_data\<close>.
\<close>

fun sym_entries :: "string list \<Rightarrow> (string \<times> u32 \<times> u16) list \<Rightarrow> Elf32_Sym list" where
  "sym_entries ns [] = []"
| "sym_entries ns ((n, v, x) # r) =
     zero_Sym\<lparr>st_name := of_nat (strtab_offset ns), st_value := v, st_shndx := x\<rparr> #
     sym_entries (ns @ [n]) r"

definition maps_ok :: "ELF32 \<Rightarrow> bool" where
  "maps_ok e \<longleftrightarrow> map_ok (resolved_labels e) \<and> map_ok (unresolved_labels e) \<and>
     map_ok (section_to_idx e) \<and> map_ok (symbols e) \<and> map_ok (label_to_addr e)"

definition elf_rep :: "ELF32 \<Rightarrow> obj \<Rightarrow> bool" where
  "elf_rep e a \<longleftrightarrow> hdrs_ok e \<and> maps_ok e \<and>
     ehdr_rep (elf_header e) \<and>
     strtab_rep (strtab e) (map fst (o_syms a)) \<and>
     strtab_rep (shstrtab e) section_names \<and>
     data (symtab e) = zero_Sym # sym_entries [] (o_syms a) \<and>
     data (sec_text e) = o_text a \<and> data (sec_data e) = o_data a \<and>
     map_find (resolved_labels e) = o_labels a \<and>
     map_find (unresolved_labels e) = o_wanted a \<and>
     map_find (label_to_addr e) = o_addr a \<and>
     map_find (section_to_idx e) = o_index a \<and>
     map_find (symbols e) = o_symbols a \<and>
     unresolved_instructions e = o_pending a"

text \<open>
  What holds of the abstract object in every reachable state: the section index is complete, no
  label is both known and wanted, every known label has an address under its hash, every
  address is that of a label with that hash (or the 0 of an unknown one), label addresses do not
  lie beyond the code, and a pending instruction refers to a label that was mentioned.
\<close>

definition obj_ok :: "obj \<Rightarrow> bool" where
  "obj_ok a \<longleftrightarrow> spec_index \<subseteq>\<^sub>m o_index a \<and>
     dom (o_labels a) \<inter> dom (o_wanted a) = {} \<and>
     (\<forall>l \<in> dom (o_labels a). hasher l \<in> dom (o_addr a)) \<and>
     (\<forall>h v. o_addr a h = Some v \<longrightarrow> v = 0 \<or> (\<exists>l. hasher l = h \<and> o_labels a l = Some v)) \<and>
     (\<forall>l v. o_labels a l = Some v \<longrightarrow> unat v \<le> length (o_text a) - 1) \<and>
     (\<forall>l h. o_wanted a l = Some h \<longrightarrow> h = hasher l) \<and>
     (\<forall>p \<in> set (o_pending a). \<exists>l \<in> dom (o_labels a) \<union> dom (o_wanted a). insn_hash p = hasher l)"

end
