(* ===== verification/Elf_Refine.thy ===== *)
theory Elf_Refine
  imports Elf_Spec
begin

text \<open>
  The operations of \<open>ELF32\<close> refine the abstract ones: from any represented state they neither
  throw nor read through an unset pointer, and end in a state that represents the abstract
  result.
\<close>

section \<open>The constructor\<close>

text \<open>The state the constructor ends in, written out.\<close>

definition ELF32_initial :: ELF32 where
  "ELF32_initial = \<lparr>
     elf_header = elf_header (init_elf_header blank_ELF32),
     hdr_store = [hdr_templates ! 0, (hdr_templates ! 1)\<lparr>sh_size := 1\<rparr>, (hdr_templates ! 2)\<lparr>sh_size := 40\<rparr>,
       (hdr_templates ! 3)\<lparr>sh_size := 16\<rparr>, hdr_templates ! 4, hdr_templates ! 5],
     section_headers = [0, 1, 2, 3, 4, 5], header_shstrtab = Some 2,
     sections = [Text_section, Data_section],
     sec_data = \<lparr>header = Some 5, data = []\<rparr>,
     sec_text = \<lparr>header = Some 4, data = []\<rparr>,
     strtab = (StringTable_new False)\<lparr>header := Some 1\<rparr>,
     shstrtab = \<lparr>header = Some 2, data = strtab_bytes section_names,
       is_section_header_string_table = True\<rparr>,
     symtab = \<lparr>header = Some 3, data = [zero_Sym]\<rparr>,
     resolved_labels = [], unresolved_labels = [],
     section_to_idx = [(''.data'', 5), (''.shstrtab'', 1), (''.strtab'', 2), (''.symtab'', 3), (''.text'', 4)],
     symbols = [], label_to_addr = [], unresolved_instructions = [] \<rparr>"

lemmas constructor_defs = ELF32_new_def init_elf_header_def init_section_headers_def
  init_strtables_def init_symtab_def init_text_section_def init_data_section_def blank_ELF32_def
  new_Shdr_def set_hdr_def register_section_def store_section_name_def add_string_def
  StringTable_new_def StringTable_init_table_def strlen_def insert_before_last_def
  StringTable_size_in_bytes_def Symtab_push_def Symtab_size_in_bytes_def zero_Shdr_def zero_Sym_def
  hdr_update_def sizeof_defs

lemma ELF32_new_initial: "ELF32_new = Inr ELF32_initial"
  by (simp add: constructor_defs ELF32_initial_def hdr_templates_def strtab_bytes_def
      section_names_def Let_def SHT_STRTAB_def SHT_SYMTAB_def SHT_PROGBITS_def SHF_ALLOC_def
      SHF_WRITE_def SHF_EXECINSTR_def SHN_UNDEF_def zero_Ehdr_def ET_REL_def)

lemma elf_rep_initial: "elf_rep ELF32_initial spec_new"
  unfolding elf_rep_def
proof (intro conjI)
  show "hdrs_ok ELF32_initial"
    by (simp add: hdrs_ok_def ELF32_initial_def hdr_templates_def hdr_sizes_def strip_def
        zero_Shdr_def StringTable_size_in_bytes_def Symtab_size_in_bytes_def Text_size_in_bytes_def
        Data_size_in_bytes_def sizeof_defs StringTable_new_def StringTable_init_table_def
        strtab_bytes_def section_names_def)
  show "maps_ok ELF32_initial"
    by (simp add: maps_ok_def ELF32_initial_def map_ok_def)
  show "ehdr_rep (elf_header ELF32_initial)"
    by (simp add: ehdr_rep_def strip_ehdr_def ehdr_template_def ELF32_initial_def init_elf_header_def
        zero_Ehdr_def EI_NIDENT_def numeral_eq_Suc)
  show "map_find (section_to_idx ELF32_initial) = o_index spec_new"
    by (auto simp: ELF32_initial_def spec_new_def spec_index_def map_find_def fun_eq_iff)
qed (simp_all add: ELF32_initial_def spec_new_def strtab_rep_def StringTable_new_def
      StringTable_init_table_def strtab_bytes_def section_names_def nul_free_def)

theorem ELF32_new_refines: "\<exists>e. ELF32_new = Inr e \<and> elf_rep e spec_new"
  using ELF32_new_initial elf_rep_initial by blast

section \<open>Header bookkeeping\<close>

lemma strip_size [simp]: "strip (h\<lparr>sh_size := n\<rparr>) = strip h"
  by (simp add: strip_def)

lemma map_strip_update [simp]: "map strip (hp[p := (hp ! p)\<lparr>sh_size := n\<rparr>]) = map strip hp"
  by (cases "p < length hp")
    (simp_all add: map_update list_update_same_conv list_update_beyond)

lemma map_offset_update [simp]: "map sh_offset (hp[p := (hp ! p)\<lparr>sh_size := n\<rparr>]) = map sh_offset hp"
  by (cases "p < length hp")
    (simp_all add: map_update list_update_same_conv list_update_beyond)

lemma map_size_update [simp]: "map sh_size (hp[p := (hp ! p)\<lparr>sh_size := n\<rparr>]) = (map sh_size hp)[p := n]"
  by (simp add: map_update)

lemma hdrs_ok_length: "hdrs_ok e \<Longrightarrow> length (hdr_store e) = 6"
  by (drule hdrs_ok_def [THEN iffD1], drule conjunct1, drule arg_cong [where f = length])
    (simp add: hdr_templates_def)

text \<open>The section pointers of a represented state are those of the constructor and are valid.\<close>

lemma elf_rep_headers:
  assumes "elf_rep e a"
  shows "header (strtab e) = Some 1" "header (shstrtab e) = Some 2" "header (symtab e) = Some 3"
    "header (sec_text e) = Some 4" "header (sec_data e) = Some 5" "length (hdr_store e) = 6"
proof -
  have ok: "hdrs_ok e" using assms by (simp add: elf_rep_def)
  then show "length (hdr_store e) = 6" by (rule hdrs_ok_length)
qed (use assms in \<open>simp_all add: elf_rep_def hdrs_ok_def\<close>)

lemma elf_rep_maps:
  assumes "elf_rep e a"
  shows "map_ok (resolved_labels e)" "map_ok (unresolved_labels e)" "map_ok (section_to_idx e)"
    "map_ok (symbols e)" "map_ok (label_to_addr e)"
  using assms by (auto simp: elf_rep_def maps_ok_def)

section \<open>Text and strings\<close>

lemma add_to_text_refines:
  assumes "elf_rep e a"
  shows "\<exists>e'. add_to_text w e = Inr e' \<and> elf_rep e' (spec_add_text w a)"
proof -
  have "hdrs_ok e" using assms by (simp add: elf_rep_def)
  then show ?thesis
    using assms elf_rep_headers [OF assms]
    by (simp add: add_to_text_def Text_push_def Let_def elf_rep_def spec_add_text_def maps_ok_def
        hdrs_ok_def hdr_sizes_def Text_size_in_bytes_def eval_nat_numeral)
qed

text \<open>A stored name goes to the end of the list of names; nothing else changes.\<close>

lemma store_regular_string_hdrs:
  assumes ok: "hdrs_ok e" and rep: "strtab_rep (strtab e) ns"
  obtains t hp where
    "store_regular_string str e = Inr (strtab_offset ns, e\<lparr>strtab := t, hdr_store := hp\<rparr>)"
    and "strtab_rep t (ns @ [c_str str])" and "header t = Some 1"
    and "hdrs_ok (e\<lparr>strtab := t, hdr_store := hp\<rparr>)" and "length hp = 6"
proof -
  have h: "header (strtab e) = Some 1" and len: "length (hdr_store e) = 6"
    using ok hdrs_ok_length [OF ok] by (simp_all add: hdrs_ok_def)
  obtain t where t: "add_string (Some str) (strtab e) (hdr_store e) =
      Inr (strtab_offset ns, t, (hdr_store e)[1 := (hdr_store e ! 1)\<lparr>sh_size := of_nat (StringTable_size_in_bytes t)\<rparr>])"
    and r: "strtab_rep t (ns @ [c_str str])" and ht: "header t = Some 1"
    using add_string_refines [OF rep h, where hp = "hdr_store e" and str = str] len by auto
  let ?hp = "(hdr_store e)[1 := (hdr_store e ! 1)\<lparr>sh_size := of_nat (StringTable_size_in_bytes t)\<rparr>]"
  have "store_regular_string str e = Inr (strtab_offset ns, e\<lparr>strtab := t, hdr_store := ?hp\<rparr>)"
    using len by (simp add: store_regular_string_def t ht)
  moreover have "hdrs_ok (e\<lparr>strtab := t, hdr_store := ?hp\<rparr>)"
    using ok ht by (simp add: hdrs_ok_def hdr_sizes_def)
  ultimately show ?thesis
    using that [OF _ r ht] len by simp
qed

lemma store_regular_string_rep:
  assumes "elf_rep e a"
  obtains t hp where
    "store_regular_string str e =
       Inr (strtab_offset (map fst (o_syms a)), e\<lparr>strtab := t, hdr_store := hp\<rparr>)"
    and "strtab_rep t (map fst (o_syms a) @ [c_str str])" and "header t = Some 1"
    and "hdrs_ok (e\<lparr>strtab := t, hdr_store := hp\<rparr>)" and "length hp = 6"
proof -
  have "hdrs_ok e" "strtab_rep (strtab e) (map fst (o_syms a))" using assms by (auto simp: elf_rep_def)
  then show ?thesis by (rule store_regular_string_hdrs) (rule that)
qed

section \<open>Symbols\<close>

lemma sym_entries_snoc:
  "sym_entries ns (xs @ [(n, v, x)]) = sym_entries ns xs @
     [zero_Sym\<lparr>st_name := of_nat (strtab_offset (ns @ map fst xs)), st_value := v, st_shndx := x\<rparr>]"
  by (induction ns xs rule: sym_entries.induct) auto

lemma length_sym_entries [simp]: "length (sym_entries ns xs) = length xs"
  by (induction ns xs rule: sym_entries.induct) auto

text \<open>Binding bits: the macro that extracts a binding is applied to the binding itself.\<close>

lemma st_bind_zero [simp]: "ELF32_ST_BIND STB_LOCAL = 0" "ELF32_ST_BIND STB_GLOBAL = 0"
  by (simp_all add: ELF32_ST_BIND_def STB_LOCAL_def STB_GLOBAL_def)

lemma zero_Sym_id: "zero_Sym\<lparr>st_info := 0\<rparr> = zero_Sym" "zero_Sym\<lparr>st_value := 0\<rparr> = zero_Sym"
  "zero_Sym\<lparr>st_shndx := 0\<rparr> = zero_Sym"
  "zero_Sym\<lparr>st_name := n, st_value := 0, st_shndx := x\<rparr> = zero_Sym\<lparr>st_name := n, st_shndx := x\<rparr>"
  "zero_Sym\<lparr>st_name := n, st_info := 0, st_shndx := x, st_value := v\<rparr> =
     zero_Sym\<lparr>st_name := n, st_value := v, st_shndx := x\<rparr>"
  by (simp_all add: zero_Sym_def)

text \<open>Pushing a symbol: the entry is added and header 3 follows.\<close>

lemma Symtab_push_hdrs:
  assumes ok: "hdrs_ok e" and hp: "hp = (hdr_store e)[3 := (hdr_store e ! 3)\<lparr>sh_size := x\<rparr>]"
  obtains s hp' where "Symtab_push sm (symtab e) hp = Inr (s, hp')"
    and "data s = data (symtab e) @ [sm]" and "hdrs_ok (e\<lparr>symtab := s, hdr_store := hp'\<rparr>)"
proof -
  have h: "header (symtab e) = Some 3" and len: "length (hdr_store e) = 6"
    using ok hdrs_ok_length [OF ok] by (simp_all add: hdrs_ok_def)
  define s where "s = (symtab e)\<lparr>data := data (symtab e) @ [sm]\<rparr>"
  define hp' where "hp' = (hdr_store e)[3 := (hdr_store e ! 3)\<lparr>sh_size := of_nat (Symtab_size_in_bytes s)\<rparr>]"
  have "Symtab_push sm (symtab e) hp = Inr (s, hp')"
    using h len by (simp add: Symtab_push_def hp s_def hp'_def Let_def)
  moreover have "hdrs_ok (e\<lparr>symtab := s, hdr_store := hp'\<rparr>)"
    using ok h by (simp add: hdrs_ok_def hdr_sizes_def s_def hp'_def list_update_code numeral_3_eq_3)
  ultimately show ?thesis using that by (simp add: s_def)
qed

text \<open>The other members play no part in the state of the headers.\<close>

lemma hdrs_ok_frame [simp]:
  "hdrs_ok (e\<lparr>resolved_labels := m\<rparr>) = hdrs_ok e"
  "hdrs_ok (e\<lparr>unresolved_labels := m\<rparr>) = hdrs_ok e"
  "hdrs_ok (e\<lparr>section_to_idx := m\<rparr>) = hdrs_ok e"
  "hdrs_ok (e\<lparr>symbols := m'\<rparr>) = hdrs_ok e"
  "hdrs_ok (e\<lparr>label_to_addr := m''\<rparr>) = hdrs_ok e"
  "hdrs_ok (e\<lparr>unresolved_instructions := u\<rparr>) = hdrs_ok e"
  by (simp_all add: hdrs_ok_def hdr_sizes_def)

lemma elf_rep_spec_index:
  "elf_rep e a \<Longrightarrow> map_find (section_to_idx e) sec = o_index a sec"
  by (simp add: elf_rep_def)

section \<open>Labels\<close>

lemma label_exists_iff: "elf_rep e a \<Longrightarrow> label_exists l e \<longleftrightarrow> o_labels a l \<noteq> None"
  by (simp add: label_exists_def map_count_pos elf_rep_def)

text \<open>Removing a label only when it is there is removing it.\<close>

definition erase_present :: "'k \<Rightarrow> ('k, 'v) std_map \<Rightarrow> ('k, 'v) std_map" where
  "erase_present k m = (if 0 < map_count m k then map_erase k m else m)"

lemma erase_if_present:
  assumes "map_ok m"
  shows "map_find (erase_present k m) = (map_find m)(k := None)"
    and "map_ok (erase_present k m)"
  using assms by (auto simp: erase_present_def map_count_pos smap.find_erase smap.ok_erase fun_eq_iff)

text \<open>
  The part of \<open>init_label\<close> that chooses the section index: a read of \<open>section_to_idx\<close> that is
  guarded by \<open>count\<close>, so that nothing is inserted.
\<close>

definition pick_section :: "string \<Rightarrow> ELF32 \<Rightarrow> u16" where
  "pick_section sec e = ucast (case map_find (section_to_idx e) sec of None \<Rightarrow> (0 :: u32) | Some i \<Rightarrow> i)"

lemma init_label_new:
  assumes "\<not> label_exists l e"
    and "store_regular_string l e = Inr (off, e1)"
  shows "init_label l g sec e =
    (let sm = zero_Sym\<lparr>st_name := of_nat off, st_shndx := pick_section sec e1\<rparr>;
         e2 = e1\<lparr>unresolved_labels := erase_present l (unresolved_labels e1),
                 resolved_labels := map_set l (of_nat (last_index (sec_text e1))) (resolved_labels e1),
                 label_to_addr := map_set (hasher l) (of_nat (last_index (sec_text e1))) (label_to_addr e1)\<rparr>
     in andThen (hdr_update (header (symtab e1)) (\<lambda>h. h\<lparr>sh_size := sh_size h + of_nat sizeof_Sym\<rparr>)
                   (hdr_store e1)) (\<lambda>hp.
        andThen (Symtab_push sm (symtab e1) hp) (\<lambda>(s, hp).
        Inr (e2\<lparr>symtab := s, hdr_store := hp\<rparr>))))"
  using assms
  by (cases "map_find (section_to_idx e1) sec")
    (simp_all add: init_label_def Let_def map_count_def map_subscript_Some pick_section_def
      erase_present_def zero_Sym_def split: option.splits)

theorem init_label_refines:
  assumes rep: "elf_rep e a"
  shows "\<exists>e'. init_label l g sec e = Inr e' \<and> elf_rep e' (spec_init_label l sec a)"
proof (cases "o_labels a l = None")
  case False
  then show ?thesis
    using rep by (auto simp: init_label_def label_exists_iff [OF rep] spec_init_label_def)
next
  case True
  obtain t hp where st: "store_regular_string l e =
      Inr (strtab_offset (map fst (o_syms a)), e\<lparr>strtab := t, hdr_store := hp\<rparr>)"
    and t: "strtab_rep t (map fst (o_syms a) @ [c_str l])" "header t = Some 1"
    and ok: "hdrs_ok (e\<lparr>strtab := t, hdr_store := hp\<rparr>)" and len: "length hp = 6"
    using store_regular_string_rep [OF rep, of l] by blast
  let ?e1 = "e\<lparr>strtab := t, hdr_store := hp\<rparr>"
  have ne: "\<not> label_exists l e" using True label_exists_iff [OF rep] by simp
  have last: "of_nat (last_index (sec_text e)) = spec_last a"
    using rep by (simp add: last_index_def spec_last_def elf_rep_def)
  note m = elf_rep_maps [OF rep]
  have pick: "pick_section sec ?e1 = ucast (case o_index a sec of None \<Rightarrow> 0 | Some i \<Rightarrow> i)"
    using rep by (simp add: pick_section_def elf_rep_def)
  let ?sm = "zero_Sym\<lparr>st_name := of_nat (strtab_offset (map fst (o_syms a))), st_shndx := pick_section sec ?e1\<rparr>"
  have h3: "header (symtab e) = Some 3" using elf_rep_headers [OF rep] by simp
  obtain s hp' where push: "Symtab_push ?sm (symtab ?e1)
      (hp[3 := (hp ! 3)\<lparr>sh_size := sh_size (hp ! 3) + of_nat sizeof_Sym\<rparr>]) = Inr (s, hp')"
    and s: "data s = data (symtab ?e1) @ [?sm]" and ok': "hdrs_ok (?e1\<lparr>symtab := s, hdr_store := hp'\<rparr>)"
    using Symtab_push_hdrs [OF ok, where x = "sh_size (hp ! 3) + of_nat sizeof_Sym" and sm = ?sm] by auto
  show ?thesis
    using rep True ok' last pick erase_if_present [OF m(2), of l] m s t(1) push h3 len
    by (simp add: init_label_new [OF ne st] Let_def spec_init_label_def elf_rep_def
        maps_ok_def hdrs_ok_def hdr_sizes_def sym_entries_snoc smap.find_set smap.ok_set zero_Sym_id)
qed

theorem update_label_visibility_refines:
  assumes "elf_rep e a"
  shows "\<exists>e'. update_label_visibility l g e = Inr e' \<and> elf_rep e' (spec_init_label l ''.text'' a)"
proof (cases "label_exists l e")
  case True
  then have "spec_init_label l ''.text'' a = a"
    using label_exists_iff [OF assms] by (simp add: spec_init_label_def)
  then show ?thesis using assms True by (simp add: update_label_visibility_def)
next
  case False
  then show ?thesis
    using init_label_refines [OF assms] by (simp add: update_label_visibility_def)
qed

theorem resolve_label_refines:
  assumes "elf_rep e a"
  shows "case resolve_label l e of (st, off, e') \<Rightarrow>
    case spec_resolve_label l a of (st', off', a') \<Rightarrow> st = st' \<and> off = off' \<and> elf_rep e' a'"
proof (cases "o_labels a l")
  case None
  then show ?thesis
    using assms elf_rep_maps [OF assms]
    by (simp add: resolve_label_def spec_resolve_label_def map_count_pos elf_rep_def Let_def
        map_subscript_def smap.find_set smap.ok_set maps_ok_def)
next
  case (Some v)
  then show ?thesis
    using assms
    by (simp add: resolve_label_def spec_resolve_label_def map_count_pos elf_rep_def
        map_subscript_Some [of "resolved_labels e" l v])
qed

section \<open>Symbols and pending instructions\<close>

theorem add_symbol_refines:
  assumes "elf_rep e a"
  shows "elf_rep (add_symbol l i off t r b e)
     (spec_add_symbol l \<lparr>sym_section_idx = i, sym_offset_idx = off, sym_symtab_idx = t,
        sym_resolved = r, sym_label = b\<rparr> a)"
  using assms elf_rep_maps [OF assms]
  by (simp add: add_symbol_def spec_add_symbol_def elf_rep_def maps_ok_def smap.find_set smap.ok_set)

lemma symbol_exists_iff: "elf_rep e a \<Longrightarrow> symbol_exists l e \<longleftrightarrow> o_symbols a l \<noteq> None"
  by (simp add: symbol_exists_def elf_rep_def)

theorem resolve_symbol_refines:
  assumes "elf_rep e a"
  shows "resolve_symbol l e = (o_symbols a l \<noteq> None,
      (case o_symbols a l of None \<Rightarrow> zero_symbol | Some s \<Rightarrow> s), e)"
  using assms
  by (cases "o_symbols a l")
    (auto simp: resolve_symbol_def symbol_exists_def elf_rep_def map_subscript_Some)

theorem symbol_resolved_refines:
  assumes "elf_rep e a"
  shows "symbol_resolved l e = ((case o_symbols a l of None \<Rightarrow> False | Some s \<Rightarrow> sym_resolved s), e)"
  using assms
  by (cases "o_symbols a l")
    (auto simp: symbol_resolved_def symbol_exists_def elf_rep_def map_subscript_Some)

theorem add_to_unresolved_insns_refines:
  assumes "elf_rep e a"
  shows "elf_rep (add_to_unresolved_insns n ty h pc e)
     (spec_add_pending \<lparr>insn_number = n, pc_insn_number = pc, insn_type = ty, insn_hash = h\<rparr> a)"
  using assms by (simp add: add_to_unresolved_insns_def spec_add_pending_def elf_rep_def maps_ok_def)

section \<open>Program data\<close>

lemma Data_push_hdrs:
  assumes ok: "hdrs_ok e"
  obtains d hp where "Data_push_string v (sec_data e) (hdr_store e) = Inr (length (data (sec_data e)), d, hp)"
    and "data d = data (sec_data e) @ map of_char v"
    and "hdrs_ok (e\<lparr>sec_data := d, hdr_store := hp\<rparr>)"
proof -
  have h: "header (sec_data e) = Some 5" and len: "length (hdr_store e) = 6"
    using ok hdrs_ok_length [OF ok] by (simp_all add: hdrs_ok_def)
  define d where "d = (sec_data e)\<lparr>data := data (sec_data e) @ map of_char v\<rparr>"
  define hp where "hp = (hdr_store e)[5 := (hdr_store e ! 5)\<lparr>sh_size := of_nat (Data_size_in_bytes d)\<rparr>]"
  have "Data_push_string v (sec_data e) (hdr_store e) = Inr (length (data (sec_data e)), d, hp)"
    using h len by (simp add: Data_push_string_def d_def hp_def Let_def)
  moreover have "hdrs_ok (e\<lparr>sec_data := d, hdr_store := hp\<rparr>)"
    using ok h by (simp add: hdrs_ok_def hdr_sizes_def d_def hp_def eval_nat_numeral)
  ultimately show ?thesis using that by (simp add: d_def)
qed

lemma map_subscript_index:
  assumes "map_ok m"
  shows "map_find (snd (map_subscript d k m)) = (map_find m)(k \<mapsto> fst (map_subscript d k m))"
  using assms by (auto simp: map_subscript_def smap.find_set fun_eq_iff split: option.splits)

theorem add_program_data_refines:
  assumes rep: "elf_rep e a"
  shows "\<exists>e'. add_program_data n v sec e = Inr e' \<and> elf_rep e' (spec_add_data n v sec a)"
proof -
  obtain t hp where st: "store_regular_string n e =
      Inr (strtab_offset (map fst (o_syms a)), e\<lparr>strtab := t, hdr_store := hp\<rparr>)"
    and t: "strtab_rep t (map fst (o_syms a) @ [c_str n])"
    and ok: "hdrs_ok (e\<lparr>strtab := t, hdr_store := hp\<rparr>)"
    using store_regular_string_rep [OF rep, of n] by blast
  note m = elf_rep_maps [OF rep]
  let ?i = "case o_index a sec of None \<Rightarrow> 0 | Some i \<Rightarrow> i"
  define m' where "m' = snd (map_subscript 0 sec (section_to_idx e))"
  have idx: "map_find (section_to_idx e) = o_index a" using rep by (simp add: elf_rep_def)
  have sub: "map_subscript 0 sec (section_to_idx e) = (?i, m')"
    by (rule prod_eqI) (simp_all add: fst_map_subscript idx m'_def)
  have m': "map_find m' = (o_index a)(sec \<mapsto> ?i)" "map_ok m'"
    using map_subscript_index [OF m(3), of 0 sec] map_ok_subscript [OF m(3), of 0 sec]
    by (simp_all add: m'_def fst_map_subscript idx)
  let ?e1 = "e\<lparr>strtab := t, hdr_store := hp, section_to_idx := m'\<rparr>"
  obtain d hp' where d: "Data_push_string v (sec_data ?e1) (hdr_store ?e1) = Inr (length (data (sec_data ?e1)), d, hp')"
    "data d = data (sec_data ?e1) @ map of_char v" and okd: "hdrs_ok (?e1\<lparr>sec_data := d, hdr_store := hp'\<rparr>)"
    using Data_push_hdrs [of ?e1 v] ok by (auto simp: hdrs_ok_def hdr_sizes_def)
  let ?e2 = "?e1\<lparr>sec_data := d, hdr_store := hp'\<rparr>"
  let ?sm = "zero_Sym\<lparr>st_name := of_nat (strtab_offset (map fst (o_syms a))),
      st_value := of_nat (length (o_data a)), st_shndx := ucast ?i\<rparr>"
  obtain s hp'' where push: "Symtab_push ?sm (symtab ?e2) (hdr_store ?e2) = Inr (s, hp'')"
    and s: "data s = data (symtab ?e2) @ [?sm]" and ok': "hdrs_ok (?e2\<lparr>symtab := s, hdr_store := hp''\<rparr>)"
    using Symtab_push_hdrs [OF okd, where x = "sh_size (hdr_store ?e2 ! 3)" and sm = ?sm and hp = "hdr_store ?e2"]
    by auto
  have dlen: "data (sec_data e) = o_data a" using rep by (simp add: elf_rep_def)
  show ?thesis
    using rep ok' d push s t m m' dlen
    by (simp add: add_program_data_def st Let_def sub spec_add_data_def elf_rep_def maps_ok_def
        hdrs_ok_def hdr_sizes_def sym_entries_snoc zero_Sym_id)
qed

section \<open>Resolving pending instructions\<close>

text \<open>
  The distance is doubled, not multiplied by four: the code halves the byte distance although
  the emit functions drop the low bit themselves.
\<close>

lemma ucast_double_64: "(ucast ((ucast (x :: u32) :: u64) * 4 div 2) :: u32) = 2 * x"
proof -
  have lt: "uint x < 2 ^ 32" using uint_lt2p [of x] by simp
  have b: "uint (ucast x :: u64) = uint x"
    using lt by (simp add: unsigned_ucast_eq take_bit_int_eq_self)
  have "uint ((ucast x :: u64) * 4) = uint x * 4"
    using lt by (simp add: uint_word_ariths b)
  then have "uint ((ucast x :: u64) * 4 div 2) = uint x * 2"
    by (simp add: uint_div)
  then have "(ucast ((ucast x :: u64) * 4 div 2) :: u32) = word_of_int (uint x * 2)"
    by (metis word_of_int_uint ucast_eq)
  also have "\<dots> = 2 * x" by (simp add: mult.commute)
  finally show ?thesis .
qed

lemma effective_offset_eq: "effective_offset r pc = 2 * (r - pc)"
  unfolding effective_offset_def INSTRUCTION_WIDTH_def by (rule ucast_double_64)

text \<open>Taking a word apart with \<open>deserialize\<close> reads the fields of the ISA.\<close>

lemma deserialize_b_fields:
  "ucast (b_rs1 (btype32_deserialize w)) = isa_rs1 w" "ucast (b_rs2 (btype32_deserialize w)) = isa_rs2 w"
  "ucast (b_funct3 (btype32_deserialize w)) = isa_funct3 w" "ucast (b_opcode (btype32_deserialize w)) = isa_opcode w"
  by (rule word32_bitsI, simp add: btype32_deserialize_def isa_fields field_simps_rv)+

lemma deserialize_u_fields:
  "ucast (u_rd (utype32_deserialize w)) = isa_rd w" "ucast (u_opcode (utype32_deserialize w)) = isa_opcode w"
  by (rule word32_bitsI, simp add: utype32_deserialize_def isa_fields field_simps_rv)+

lemma deserialize_j_fields:
  "ucast (j_rd (jtype32_deserialize w)) = isa_rd w" "ucast (j_opcode (jtype32_deserialize w)) = isa_opcode w"
  by (rule word32_bitsI, simp add: jtype32_deserialize_def isa_fields field_simps_rv)+

lemmas deserialize_fields = deserialize_b_fields deserialize_u_fields deserialize_j_fields

text \<open>One iteration in closed form.\<close>

lemma resolve_entry_eq:
  "resolve_entry junk p e =
     (if patchable (insn_type p) then
        let (t, m) = map_subscript 0 (insn_hash p) (label_to_addr e);
            w = (case get_entry (unat (insn_number p)) (sec_text e) of Some v \<Rightarrow> v | None \<Rightarrow> junk)
        in e\<lparr>label_to_addr := m,
             sec_text := snd (update_entry (unat (insn_number p))
               (patch (insn_type p) (2 * (t - pc_insn_number p)) w) (sec_text e))\<rparr>
      else e)"
  by (cases "insn_type p")
    (simp_all add: resolve_entry_def patchable_def patch_def Let_def effective_offset_eq
      deserialize_fields split: prod.splits)

text \<open>The uninitialised variable of the code does not influence the result.\<close>

lemma resolve_entry_junk: "resolve_entry junk p e = resolve_entry junk' p e"
  by (simp add: resolve_entry_eq Let_def get_entry_def update_entry_def)

lemma resolve_entries_junk: "resolve_entries junk ps e = resolve_entries junk' ps e"
proof (induction ps arbitrary: junk junk' e)
  case (Cons p ps)
  have "resolve_entry (junk 0) p e = resolve_entry (junk' 0) p e" by (rule resolve_entry_junk)
  then show ?case using Cons.IH by simp
qed simp

theorem resolve_entry_refines:
  assumes rep: "elf_rep e a"
  shows "elf_rep (resolve_entry junk p e) (spec_resolve_entry p a)"
proof (cases "patchable (insn_type p)")
  case False
  then show ?thesis using rep by (simp add: resolve_entry_eq spec_resolve_entry_def)
next
  case True
  note m = elf_rep_maps [OF rep]
  define m' where "m' = snd (map_subscript 0 (insn_hash p) (label_to_addr e))"
  have adr: "map_find (label_to_addr e) = o_addr a" using rep by (simp add: elf_rep_def)
  have sub: "map_subscript 0 (insn_hash p) (label_to_addr e) = (spec_target a p, m')"
    by (rule prod_eqI) (simp_all add: fst_map_subscript adr m'_def spec_target_def)
  have m': "map_find m' = (o_addr a)(insn_hash p \<mapsto> spec_target a p)" "map_ok m'"
    using map_subscript_index [OF m(5), of 0 "insn_hash p"] map_ok_subscript [OF m(5), of 0 "insn_hash p"]
    by (simp_all add: m'_def fst_map_subscript adr spec_target_def)
  have "length (data (snd (update_entry i w (sec_text e)))) = length (data (sec_text e))" for i w
    by simp
  then have sz: "Text_size_in_bytes (snd (update_entry i w (sec_text e))) = Text_size_in_bytes (sec_text e)" for i w
    by (simp add: Text_size_in_bytes_def)
  have tx: "data (sec_text e) = o_text a" using rep by (simp add: elf_rep_def)
  show ?thesis
    using rep True m m' sz tx
    by (simp add: resolve_entry_eq sub Let_def spec_resolve_entry_def elf_rep_def maps_ok_def
        hdrs_ok_def hdr_sizes_def get_entry_def data_update_entry list_update_beyond)
qed

lemma resolve_entries_refines:
  "elf_rep e a \<Longrightarrow> elf_rep (resolve_entries junk ps e) (fold spec_resolve_entry ps a)"
proof (induction ps arbitrary: junk e a)
  case (Cons p ps)
  then show ?case by (simp add: resolve_entry_refines)
qed simp

theorem resolve_refines:
  assumes "elf_rep e a"
  shows "elf_rep (resolve_unresolved_instructions junk e) (spec_resolve a)"
proof -
  have "unresolved_instructions e = o_pending a" using assms by (simp add: elf_rep_def)
  then show ?thesis
    using resolve_entries_refines [OF assms]
    by (simp add: resolve_unresolved_instructions_def spec_resolve_def)
qed

end
