(* ===== verification/Elf_Invariant.thy ===== *)
theory Elf_Invariant
  imports Elf_Refine
begin

text \<open>
  The states that an \<open>ELF32\<close> object can reach through the calls that the parser makes, the invariant that
  holds in all of them, and what resolving the pending instructions does to the code. All public
  members, whoever calls them, are the subject of \<open>Elf_Public\<close>.
\<close>

section \<open>Reachable objects\<close>

text \<open>
  One rule for each call in the actions of the parser. \<open>pending\<close> is the pair of calls the parser makes for a label
  that \<open>resolve_label\<close> does not know.
\<close>

inductive elf_step :: "ELF32 \<Rightarrow> ELF32 \<Rightarrow> bool" where
  label: "init_label l g sec e = Inr e' \<Longrightarrow> elf_step e e'"
| visibility: "update_label_visibility l g e = Inr e' \<Longrightarrow> elf_step e e'"
| code: "add_to_text w e = Inr e' \<Longrightarrow> elf_step e e'"
| program_data: "add_program_data n v sec e = Inr e' \<Longrightarrow> elf_step e e'"
| reference: "resolve_label l e = (st, off, e') \<Longrightarrow> elf_step e e'"
| pending: "resolve_label l e = (- 1, h, e') \<Longrightarrow> elf_step e (add_to_unresolved_insns n ty h pc e')"
| symbol: "elf_step e (add_symbol l i off t r b e)"
| lookup: "resolve_symbol l e = (found, s, e') \<Longrightarrow> elf_step e e'"
| query: "symbol_resolved l e = (res, e') \<Longrightarrow> elf_step e e'"
| resolve: "elf_step e (resolve_unresolved_instructions junk e)"

inductive elf_reachable :: "ELF32 \<Rightarrow> bool" where
  start: "ELF32_new = Inr e \<Longrightarrow> elf_reachable e"
| step: "elf_reachable e \<Longrightarrow> elf_step e e' \<Longrightarrow> elf_reachable e'"

section \<open>The invariant of the abstract object\<close>

lemma obj_ok_new: "obj_ok spec_new"
  by (simp add: obj_ok_def spec_new_def)

lemma unat_of_nat_le: "unat (of_nat n :: u32) \<le> n"
  by (simp add: unat_of_nat take_bit_eq_mod)

text \<open>The clauses of the invariant one by one.\<close>

lemma obj_okI:
  assumes "spec_index \<subseteq>\<^sub>m o_index a"
    and "\<And>l. o_labels a l \<noteq> None \<Longrightarrow> o_wanted a l = None"
    and "\<And>l. o_labels a l \<noteq> None \<Longrightarrow> o_addr a (hasher l) \<noteq> None"
    and "\<And>h v. o_addr a h = Some v \<Longrightarrow> v = 0 \<or> (\<exists>l. hasher l = h \<and> o_labels a l = Some v)"
    and "\<And>l v. o_labels a l = Some v \<Longrightarrow> unat v \<le> length (o_text a) - 1"
    and "\<And>l h. o_wanted a l = Some h \<Longrightarrow> h = hasher l"
    and "\<And>p. p \<in> set (o_pending a) \<Longrightarrow>
      \<exists>l. (o_labels a l \<noteq> None \<or> o_wanted a l \<noteq> None) \<and> insn_hash p = hasher l"
  shows "obj_ok a"
  unfolding obj_ok_def
proof (intro conjI)
  show "dom (o_labels a) \<inter> dom (o_wanted a) = {}" using assms(2) by fastforce
  show "\<forall>l \<in> dom (o_labels a). hasher l \<in> dom (o_addr a)" using assms(3) by blast
  show "\<forall>p \<in> set (o_pending a). \<exists>l \<in> dom (o_labels a) \<union> dom (o_wanted a). insn_hash p = hasher l"
    using assms(7) by blast
qed (use assms(1,4,5,6) in blast)+

lemma obj_okD:
  assumes "obj_ok a"
  shows "spec_index \<subseteq>\<^sub>m o_index a"
    and "o_labels a l \<noteq> None \<Longrightarrow> o_wanted a l = None"
    and "o_labels a l \<noteq> None \<Longrightarrow> o_addr a (hasher l) \<noteq> None"
    and "o_addr a h = Some v \<Longrightarrow> v = 0 \<or> (\<exists>l. hasher l = h \<and> o_labels a l = Some v)"
    and "o_labels a l = Some v \<Longrightarrow> unat v \<le> length (o_text a) - 1"
    and "o_wanted a l = Some h \<Longrightarrow> h = hasher l"
    and "p \<in> set (o_pending a) \<Longrightarrow>
      \<exists>l. (o_labels a l \<noteq> None \<or> o_wanted a l \<noteq> None) \<and> insn_hash p = hasher l"
proof -
  note ok = assms [unfolded obj_ok_def]
  show "spec_index \<subseteq>\<^sub>m o_index a" using ok by blast
  show "o_labels a l \<noteq> None \<Longrightarrow> o_wanted a l = None" using ok by blast
  show "o_labels a l \<noteq> None \<Longrightarrow> o_addr a (hasher l) \<noteq> None" using ok by blast
  show "o_addr a h = Some v \<Longrightarrow> v = 0 \<or> (\<exists>l. hasher l = h \<and> o_labels a l = Some v)" using ok by blast
  show "o_labels a l = Some v \<Longrightarrow> unat v \<le> length (o_text a) - 1" using ok by blast
  show "o_wanted a l = Some h \<Longrightarrow> h = hasher l" using ok by blast
  show "p \<in> set (o_pending a) \<Longrightarrow>
      \<exists>l. (o_labels a l \<noteq> None \<or> o_wanted a l \<noteq> None) \<and> insn_hash p = hasher l"
    using ok by blast
qed

lemma obj_ok_init_label:
  assumes "obj_ok a"
  shows "obj_ok (spec_init_label l sec a)"
proof (cases "o_labels a l")
  case None
  let ?v = "spec_last a" and ?a = "spec_init_label l sec a"
  have bound: "unat ?v \<le> length (o_text a) - 1"
    unfolding spec_last_def by (rule unat_of_nat_le)
  have a': "o_labels ?a = (o_labels a)(l \<mapsto> ?v)" "o_wanted ?a = (o_wanted a)(l := None)"
    "o_addr ?a = (o_addr a)(hasher l \<mapsto> ?v)" "o_index ?a = o_index a" "o_text ?a = o_text a"
    "o_pending ?a = o_pending a"
    using None by (simp_all add: spec_init_label_def)
  show ?thesis
  proof (rule obj_okI, unfold a')
    fix h v
    assume h: "((o_addr a)(hasher l \<mapsto> ?v)) h = Some v"
    show "v = 0 \<or> (\<exists>k. hasher k = h \<and> ((o_labels a)(l \<mapsto> ?v)) k = Some v)"
    proof (cases "h = hasher l")
      case False
      then have "v = 0 \<or> (\<exists>k. hasher k = h \<and> o_labels a k = Some v)"
        using obj_okD(4) [OF assms] h by simp
      then show ?thesis using False by (metis fun_upd_other)
    qed (use h in auto)
  next
    fix p
    assume "p \<in> set (o_pending a)"
    then obtain k where "o_labels a k \<noteq> None \<or> o_wanted a k \<noteq> None" "insn_hash p = hasher k"
      using obj_okD(7) [OF assms] by blast
    then show "\<exists>k. (((o_labels a)(l \<mapsto> ?v)) k \<noteq> None \<or> ((o_wanted a)(l := None)) k \<noteq> None) \<and>
      insn_hash p = hasher k"
      by (intro exI [of _ k]) auto
  qed (use obj_okD [OF assms] bound in \<open>auto split: if_splits\<close>)
qed (use assms in \<open>simp add: spec_init_label_def\<close>)

lemma obj_ok_add_text: "obj_ok a \<Longrightarrow> obj_ok (spec_add_text w a)"
  by (rule obj_okI) (use obj_okD [of a] in \<open>fastforce simp: spec_add_text_def\<close>)+

lemma map_le_upd_lookup:
  assumes "m \<subseteq>\<^sub>m f" and "m k = None \<or> f k \<noteq> None"
  shows "m \<subseteq>\<^sub>m f(k \<mapsto> (case f k of None \<Rightarrow> v | Some w \<Rightarrow> w))"
  using assms by (auto simp: map_le_def dom_def split: option.splits)

lemma obj_ok_add_data:
  assumes "obj_ok a"
  shows "obj_ok (spec_add_data n v sec a)"
proof -
  have le: "spec_index \<subseteq>\<^sub>m o_index a" by (rule obj_okD(1) [OF assms])
  have "spec_index sec = None \<or> o_index a sec \<noteq> None"
    using le by (metis domI map_le_def option.exhaust)
  then show ?thesis
    using assms map_le_upd_lookup [OF le, of sec 0] by (simp add: obj_ok_def spec_add_data_def Let_def)
qed

lemma obj_ok_resolve_label:
  assumes "obj_ok a" and "spec_resolve_label l a = (st, off, a')"
  shows "obj_ok a'"
proof (cases "o_labels a l")
  case None
  then have a': "a' = a\<lparr>o_wanted := (o_wanted a)(l \<mapsto> hasher l)\<rparr>"
    using assms(2) by (auto simp: spec_resolve_label_def)
  show ?thesis
  proof (rule obj_okI)
    fix p
    assume "p \<in> set (o_pending a')"
    then obtain k where "o_labels a k \<noteq> None \<or> o_wanted a k \<noteq> None" "insn_hash p = hasher k"
      using obj_okD(7) [OF assms(1), of p] by (simp add: a') blast
    then show "\<exists>k. (o_labels a' k \<noteq> None \<or> o_wanted a' k \<noteq> None) \<and> insn_hash p = hasher k"
      by (intro exI [of _ k]) (auto simp: a')
  next
    fix h v
    assume "o_addr a' h = Some v"
    then show "v = 0 \<or> (\<exists>l. hasher l = h \<and> o_labels a' l = Some v)"
      using obj_okD(4) [OF assms(1)] by (simp add: a')
  qed (use obj_okD(1,2,3,5,6) [OF assms(1)] None in \<open>auto simp: a' split: if_splits\<close>)
qed (use assms in \<open>simp add: spec_resolve_label_def\<close>)

lemma obj_ok_pending:
  assumes "obj_ok a" and "spec_resolve_label l a = (- 1, h, a')"
  shows "obj_ok (spec_add_pending \<lparr>insn_number = n, pc_insn_number = pc, insn_type = ty, insn_hash = h\<rparr> a')"
proof -
  have "h = hasher l" "o_wanted a' l = Some (hasher l)"
    using assms(2) by (auto simp: spec_resolve_label_def split: option.splits)
  then have "\<exists>l \<in> dom (o_labels a') \<union> dom (o_wanted a'). h = hasher l" by blast
  then show ?thesis
    using obj_ok_resolve_label [OF assms] by (simp add: obj_ok_def spec_add_pending_def)
qed

lemma obj_ok_add_symbol: "obj_ok a \<Longrightarrow> obj_ok (spec_add_symbol l s a)"
  by (simp add: obj_ok_def spec_add_symbol_def)

lemma pending_resolve_entry [simp]: "o_pending (spec_resolve_entry p a) = o_pending a"
  and labels_resolve_entry [simp]: "o_labels (spec_resolve_entry p a) = o_labels a"
  and wanted_resolve_entry [simp]: "o_wanted (spec_resolve_entry p a) = o_wanted a"
  by (simp_all add: spec_resolve_entry_def Let_def)

lemma obj_ok_resolve_entry:
  assumes "obj_ok a"
  shows "obj_ok (spec_resolve_entry p a)"
proof (rule obj_okI)
  fix h v
  assume h: "o_addr (spec_resolve_entry p a) h = Some v"
  have "o_addr a h = Some v \<or> v = 0"
    using h by (auto simp: spec_resolve_entry_def Let_def spec_target_def split: if_splits option.splits)
  then show "v = 0 \<or> (\<exists>l. hasher l = h \<and> o_labels (spec_resolve_entry p a) l = Some v)"
    using obj_okD(4) [OF assms, of h v] by (auto simp: spec_resolve_entry_def Let_def)
next
  fix q
  assume "q \<in> set (o_pending (spec_resolve_entry p a))"
  then show "\<exists>l. (o_labels (spec_resolve_entry p a) l \<noteq> None \<or> o_wanted (spec_resolve_entry p a) l \<noteq> None) \<and>
    insn_hash q = hasher l"
    using obj_okD(7) [OF assms, of q] by simp
next
  fix l
  assume "o_labels (spec_resolve_entry p a) l \<noteq> None"
  then show "o_addr (spec_resolve_entry p a) (hasher l) \<noteq> None"
    using obj_okD(3) [OF assms, of l]
    by (cases "patchable (insn_type p)") (auto simp: spec_resolve_entry_def Let_def)
qed (use obj_okD(1,2,5,6) [OF assms] in \<open>auto simp: spec_resolve_entry_def Let_def split: if_splits\<close>)

lemma obj_ok_resolve: "obj_ok a \<Longrightarrow> obj_ok (spec_resolve a)"
proof -
  have "obj_ok a \<Longrightarrow> obj_ok (fold spec_resolve_entry ps a)" for ps
    by (induction ps arbitrary: a) (simp_all add: obj_ok_resolve_entry)
  then show "obj_ok a \<Longrightarrow> obj_ok (spec_resolve a)" by (simp add: spec_resolve_def)
qed

lemmas obj_ok_steps = obj_ok_init_label obj_ok_add_text obj_ok_add_data obj_ok_resolve_label
  obj_ok_pending obj_ok_add_symbol obj_ok_resolve

text \<open>Every step of the object is a step of the abstract object that keeps the invariant.\<close>

lemma elf_step_rep:
  assumes "elf_step e e'" and "elf_rep e a" and "obj_ok a"
  shows "\<exists>a'. elf_rep e' a' \<and> obj_ok a'"
  using assms
proof (induction rule: elf_step.induct)
  case (label l g sec e e')
  then show ?case using init_label_refines [of e a l g sec] obj_ok_init_label [of a l sec] by auto
next
  case (visibility l g e e')
  then show ?case
    using update_label_visibility_refines [of e a l g] obj_ok_init_label [of a l "''.text''"] by auto
next
  case (code w e e')
  then show ?case using add_to_text_refines [of e a w] obj_ok_add_text [of a w] by auto
next
  case (program_data n v sec e e')
  then show ?case using add_program_data_refines [of e a n v sec] obj_ok_add_data [of a n v sec] by auto
next
  case (reference l e st off e')
  then show ?case
    using resolve_label_refines [of e a l] obj_ok_resolve_label [of a l]
    by (cases "spec_resolve_label l a") auto
next
  case (pending l e h e' n ty pc)
  then obtain a1 where a1: "spec_resolve_label l a = (- 1, h, a1)" "elf_rep e' a1"
    using resolve_label_refines [of e a l] by (cases "spec_resolve_label l a") auto
  then show ?case
    using add_to_unresolved_insns_refines [OF a1(2)] obj_ok_pending [OF pending.prems(2) a1(1)] by blast
next
  case (symbol e l i off t r b)
  then show ?case using add_symbol_refines obj_ok_add_symbol by blast
next
  case (lookup l e found s e')
  then show ?case using resolve_symbol_refines [of e a l] by auto
next
  case (query l e res e')
  then show ?case using symbol_resolved_refines [of e a l] by auto
next
  case (resolve e junk)
  then show ?case using resolve_refines obj_ok_resolve by blast
qed

theorem elf_reachable_rep: "elf_reachable e \<Longrightarrow> \<exists>a. elf_rep e a \<and> obj_ok a"
proof (induction rule: elf_reachable.induct)
  case (start e)
  then show ?case using ELF32_new_refines obj_ok_new by (metis Inr_inject)
next
  case (step e e')
  then show ?case using elf_step_rep by blast
qed

text \<open>No operation throws, or uses an unset pointer, in a reachable state.\<close>

lemma elf_reachable_operations:
  assumes "elf_reachable e"
  shows "\<exists>e'. init_label l g sec e = Inr e'" "\<exists>e'. update_label_visibility l g e = Inr e'"
    "\<exists>e'. add_to_text w e = Inr e'" "\<exists>e'. add_program_data n v sec e = Inr e'"
  using elf_reachable_rep [OF assms] init_label_refines update_label_visibility_refines
    add_to_text_refines add_program_data_refines by blast+

section \<open>What resolution does to the code\<close>

lemma spec_target_resolve_entry [simp]: "spec_target (spec_resolve_entry q a) p = spec_target a p"
  by (auto simp: spec_target_def spec_resolve_entry_def Let_def split: option.splits)

lemma length_resolve_entry [simp]: "length (o_text (spec_resolve_entry p a)) = length (o_text a)"
  by (simp add: spec_resolve_entry_def Let_def)

lemma resolve_entry_other:
  "i \<noteq> unat (insn_number p) \<Longrightarrow> o_text (spec_resolve_entry p a) ! i = o_text a ! i"
  by (simp add: spec_resolve_entry_def Let_def)

lemma length_resolve [simp]: "length (o_text (fold spec_resolve_entry ps a)) = length (o_text a)"
  by (induction ps arbitrary: a) simp_all

text \<open>Instructions that are not pending stay as they are.\<close>

lemma resolve_frame:
  "i \<notin> (\<lambda>p. unat (insn_number p)) ` set ps \<Longrightarrow> o_text (fold spec_resolve_entry ps a) ! i = o_text a ! i"
proof (induction ps arbitrary: a)
  case (Cons p ps)
  then show ?case by (simp add: resolve_entry_other)
qed simp

text \<open>A pending instruction whose index no other entry has is patched exactly once.\<close>

lemma resolve_patched:
  assumes "distinct (map insn_number ps)" and "p \<in> set ps" and "patchable (insn_type p)"
    and "unat (insn_number p) < length (o_text a)"
  shows "o_text (fold spec_resolve_entry ps a) ! unat (insn_number p) =
    patch (insn_type p) (2 * (spec_target a p - pc_insn_number p)) (o_text a ! unat (insn_number p))"
  using assms
proof (induction ps arbitrary: a)
  case Nil
  then show ?case by simp
next
  case (Cons q ps)
  show ?case
  proof (cases "p = q")
    case True
    then have "unat (insn_number p) \<notin> (\<lambda>p. unat (insn_number p)) ` set ps"
      using Cons.prems(1) by (auto simp: word_unat_eq_iff [symmetric])
    then show ?thesis
      using True Cons.prems(3,4)
      by (simp add: resolve_frame) (simp add: spec_resolve_entry_def Let_def)
  next
    case False
    then have p: "p \<in> set ps" and "insn_number p \<noteq> insn_number q"
      using Cons.prems(1,2) by (auto, metis image_eqI)
    then have "unat (insn_number p) \<noteq> unat (insn_number q)" by (simp add: word_unat_eq_iff)
    then have "o_text (spec_resolve_entry q a) ! unat (insn_number p) = o_text a ! unat (insn_number p)"
      by (rule resolve_entry_other)
    then show ?thesis
      using Cons.IH [of "spec_resolve_entry q a"] Cons.prems p by simp
  qed
qed

text \<open>What a patched word holds: the offset in the immediate, the other fields kept.\<close>

lemma isa_take_bits [simp]:
  "take_bit 5 (isa_rs1 w) = isa_rs1 w" "take_bit 5 (isa_rs2 w) = isa_rs2 w" "take_bit 5 (isa_rd w) = isa_rd w"
  "take_bit 3 (isa_funct3 w) = isa_funct3 w" "take_bit 7 (isa_opcode w) = isa_opcode w"
  by (simp_all add: isa_fields)

lemma even_offset: "2 * (x :: u32) AND - 2 = 2 * x"
  using even_word_clear_lsb [of "2 * x"] by simp

lemma patch_branch_fields:
  "isa_opcode (patch B_TYPE off w) = isa_opcode w" "isa_funct3 (patch B_TYPE off w) = isa_funct3 w"
  "isa_rs1 (patch B_TYPE off w) = isa_rs2 w" "isa_rs2 (patch B_TYPE off w) = isa_rs1 w"
  "imm_B (patch B_TYPE (2 * x) w) = signed_take_bit 12 (2 * x)"
  by (simp_all add: patch_def emit_b_fields even_offset)

lemma patch_jump_fields:
  "isa_opcode (patch J_TYPE off w) = isa_opcode w" "isa_rd (patch J_TYPE off w) = isa_rd w"
  "imm_J (patch J_TYPE (2 * x) w) = signed_take_bit 20 (2 * x)"
  by (simp_all add: patch_def emit_j_fields even_offset)

lemma patch_upper_fields:
  "isa_opcode (patch U_TYPE off w) = isa_opcode w" "isa_rd (patch U_TYPE off w) = isa_rd w"
  "imm_U (patch U_TYPE off w) = push_bit 12 off"
  by (simp_all add: patch_def emit_u_fields)
end
