(* ===== verification/Elf_File.thy ===== *)
theory Elf_File
  imports Elf_Invariant
begin

text \<open>
  Writing the object file: \<open>ELF32::serialize\<close> and \<open>write_elf\<close> of \<open>src/elf.cc\<close>. The bytes are
  determined as a function of the abstract object, and every header is shown to locate the
  bytes of its section.
\<close>

section \<open>The members of \<open>sections\<close>\<close>

text \<open>The two virtual members that \<open>serialize\<close> uses, by the class of the object pointed to.\<close>

definition section_serialize :: "section_ref \<Rightarrow> byte_order \<Rightarrow> ELF32 \<Rightarrow> ostream \<Rightarrow> ostream" where
  "section_serialize s bo e os = (case s of
     Text_section \<Rightarrow> Text_serialize bo (sec_text e) os
   | Data_section \<Rightarrow> Data_serialize bo (sec_data e) os)"

definition section_header :: "section_ref \<Rightarrow> ELF32 \<Rightarrow> hptr option" where
  "section_header s e = (case s of
     Text_section \<Rightarrow> header (sec_text e) | Data_section \<Rightarrow> header (sec_data e))"

section \<open>Serialisation\<close>

fun serialize_sections :: "section_ref list \<Rightarrow> ELF32 \<Rightarrow> ostream \<Rightarrow> (ELF32 \<times> ostream) result" where
  "serialize_sections [] e os = Inr (e, os)"
| "serialize_sections (it # its) e os =
    (let pos = tellp os;
         os = section_serialize it LE e os
     in andThen (hdr_update (section_header it e) (\<lambda>h. h\<lparr>sh_offset := of_nat pos\<rparr>) (hdr_store e))
          (\<lambda>hp. serialize_sections its (e\<lparr>hdr_store := hp\<rparr>) os))"

text \<open>The loop over the header table; \<open>i\<close> is \<open>std::distance(section_headers.begin(), it)\<close>.\<close>

fun serialize_headers ::
    "nat \<Rightarrow> hptr list \<Rightarrow> byte_order \<Rightarrow> ELF32 \<Rightarrow> ostream \<Rightarrow> (ELF32 \<times> ostream) result" where
  "serialize_headers i [] bo e os = Inr (e, os)"
| "serialize_headers i (it # its) bo e os =
     andThen (hdr_get (Some it) (hdr_store e)) (\<lambda>h.
       let e = (if sh_type h = SHT_STRTAB \<and> Some it = header_shstrtab e
                then e\<lparr>elf_header := (elf_header e)\<lparr>e_shstrndx := of_nat i\<rparr>\<rparr> else e)
       in serialize_headers (Suc i) its bo e (Elf32_Shdr_serialize h bo os))"

definition ELF32_serialize :: "ELF32 \<Rightarrow> ostream \<Rightarrow> (ELF32 \<times> ostream) result" where
  "ELF32_serialize e os =
    (let bo = LE; os = Elf32_Ehdr_serialize (elf_header e) os in
     andThen (serialize_sections (sections e) e os) (\<lambda>(e, os).
     andThen (StringTable_serialize (strtab e) (hdr_store e) os) (\<lambda>(hp, os).
     let e = e\<lparr>hdr_store := hp\<rparr> in
     andThen (StringTable_serialize (shstrtab e) (hdr_store e) os) (\<lambda>(hp, os).
     let e = e\<lparr>hdr_store := hp\<rparr> in
     andThen (Symtab_serialize bo (symtab e) (hdr_store e) os) (\<lambda>(hp, os).
     let e = e\<lparr>hdr_store := hp, elf_header := (elf_header e)\<lparr>e_shoff := of_nat (tellp os)\<rparr>\<rparr>;
         e = e\<lparr>elf_header := (elf_header e)\<lparr>e_shnum := of_nat (length (section_headers e))\<rparr>\<rparr>
     in
     andThen (serialize_headers 0 (section_headers e) bo e os) (\<lambda>(e, os).
     let os = seekp_beg os;
         os = Elf32_Ehdr_serialize (elf_header e) os
     in Inr (e, os)))))))"

text \<open>
  \<open>write_elf\<close> on a file system: a map from names to contents, and a predicate for the names
  that can be opened for writing. The write itself is taken to succeed once the file is open.
\<close>

type_synonym files = "string \<rightharpoonup> byte list"

definition write_elf :: "(string \<Rightarrow> bool) \<Rightarrow> string \<Rightarrow> ELF32 \<Rightarrow> files \<Rightarrow> (ELF32 \<times> files) result" where
  "write_elf writable filename e fs =
     andThen (ELF32_serialize e os_empty) (\<lambda>(e, elf_stream).
       if \<not> writable filename then Inr (e, fs)
       else Inr (e, fs(filename \<mapsto> os_buf elf_stream)))"

section \<open>The file as a function of the abstract object\<close>

definition text_bytes :: "obj \<Rightarrow> byte list" where
  "text_bytes a = concat (map (\<lambda>w. write_bytes w LE) (o_text a))"

definition strtab_of :: "obj \<Rightarrow> byte list" where
  "strtab_of a = map of_char (strtab_bytes (map fst (o_syms a)))"

definition shstrtab_of :: "byte list" where
  "shstrtab_of = map of_char (strtab_bytes section_names)"

definition symtab_of :: "obj \<Rightarrow> byte list" where
  "symtab_of a = concat (map (Sym_image LE) (zero_Sym # sym_entries [] (o_syms a)))"

text \<open>The five pieces in file order, each with the index of its header.\<close>

definition pieces :: "obj \<Rightarrow> (nat \<times> byte list) list" where
  "pieces a = [(4, text_bytes a), (5, o_data a), (1, strtab_of a), (2, shstrtab_of), (3, symtab_of a)]"

definition shdrs_of :: "obj \<Rightarrow> Elf32_Shdr list" where
  "shdrs_of a =
    (let t = sizeof_Ehdr; d = t + length (text_bytes a); s = d + length (o_data a);
         n = s + length (strtab_of a); y = n + length shstrtab_of
     in [hdr_templates ! 0,
         (hdr_templates ! 1)\<lparr>sh_offset := of_nat s, sh_size := of_nat (length (strtab_of a))\<rparr>,
         (hdr_templates ! 2)\<lparr>sh_offset := of_nat n, sh_size := of_nat (length shstrtab_of)\<rparr>,
         (hdr_templates ! 3)\<lparr>sh_offset := of_nat y, sh_size := of_nat (length (symtab_of a))\<rparr>,
         (hdr_templates ! 4)\<lparr>sh_offset := of_nat t, sh_size := of_nat (length (text_bytes a))\<rparr>,
         (hdr_templates ! 5)\<lparr>sh_offset := of_nat d, sh_size := of_nat (length (o_data a))\<rparr>])"

definition body_of :: "obj \<Rightarrow> byte list" where
  "body_of a = concat (map snd (pieces a))"

definition ehdr_of :: "obj \<Rightarrow> Elf32_Ehdr" where
  "ehdr_of a = ehdr_template\<lparr>e_shoff := of_nat (sizeof_Ehdr + length (body_of a)), e_shnum := 6,
     e_shstrndx := 2\<rparr>"

definition file_of :: "obj \<Rightarrow> byte list" where
  "file_of a = Ehdr_image (ehdr_of a) @ body_of a @ concat (map (Shdr_image LE) (shdrs_of a))"

section \<open>Serialisation produces that file\<close>

lemma StringTable_serialize_eq:
  assumes "header t = Some p" and "p < length hp" and "at_end os"
  shows "StringTable_serialize t hp os =
    Inr (hp[p := (hp ! p)\<lparr>sh_offset := of_nat (tellp os),
                           sh_size := of_nat (StringTable_size_in_bytes t)\<rparr>], StringTable_output t os)"
  using assms by (simp add: StringTable_serialize_def StringTable_output_def hdr_update_def Let_def
      seekp_end_at_end)

lemma Symtab_serialize_eq:
  assumes "header s = Some p" and "p < length hp" and "data s \<noteq> []"
  shows "Symtab_serialize bo s hp os =
    Inr (hp[p := (hp ! p)\<lparr>sh_offset := of_nat (tellp os),
                           sh_size := of_nat (Symtab_size_in_bytes s)\<rparr>], Symtab_output bo s os)"
  using assms by (simp add: Symtab_serialize_def hdr_update_def)

lemma list6E:
  assumes "length xs = 6"
  obtains a b c d e f where "xs = [a, b, c, d, e, f]"
  using assms by (auto simp: numeral_eq_Suc length_Suc_conv)

text \<open>A header is its template with offset and size put in.\<close>

lemma strip_eqD: "strip h = t \<Longrightarrow> h\<lparr>sh_offset := x, sh_size := y\<rparr> = t\<lparr>sh_offset := x, sh_size := y\<rparr>"
  by (cases h, cases t) (simp add: strip_def)

lemma strip_eq_sizeD: "strip h = t \<Longrightarrow> sh_size h = y \<Longrightarrow> h\<lparr>sh_offset := x\<rparr> = t\<lparr>sh_offset := x, sh_size := y\<rparr>"
  by (cases h, cases t) (simp add: strip_def)

lemma strip_ehdr_eqD:
  "strip_ehdr h = t \<Longrightarrow> h\<lparr>e_shoff := x, e_shnum := y, e_shstrndx := z\<rparr> =
     t\<lparr>e_shoff := x, e_shnum := y, e_shstrndx := z\<rparr>"
  by (cases h, cases t) (simp add: strip_ehdr_def)

text \<open>The part between the two header tables.\<close>

lemma serialize_sections_eq:
  assumes ok: "hdrs_ok e" and os: "at_end os"
  shows "serialize_sections (sections e) e os =
    Inr (e\<lparr>hdr_store := (hdr_store e)
         [4 := (hdr_store e ! 4)\<lparr>sh_offset := of_nat (tellp os)\<rparr>,
          5 := (hdr_store e ! 5)\<lparr>sh_offset := of_nat (tellp os + Text_size_in_bytes (sec_text e))\<rparr>]\<rparr>,
       os_write (Text_image LE (sec_text e) @ data (sec_data e)) os)"
proof -
  have "at_end (Text_serialize LE (sec_text e) os)" by (rule text_le.at_end_ser [OF os])
  then show ?thesis
    using ok os hdrs_ok_length [OF ok] text_le.tellp_ser [OF os, of "sec_text e"]
    by (simp add: hdrs_ok_def section_serialize_def section_header_def Let_def text_le.ser_img
        data_le.ser_img os_write_write at_end_def)
qed

lemma tellp_write: "tellp (os_write bs os) = tellp os + length bs"
  by (simp add: tellp_def os_write_def)

lemma tellp_empty: "tellp os_empty = 0"
  by (simp add: tellp_def os_empty_def)

text \<open>The loop over the header table, whose only effect on the object is \<open>e_shstrndx\<close>.\<close>

lemma serialize_headers_all:
  assumes hp: "hdr_store e = [h0, h1, h2, h3, h4, h5]" and sh: "header_shstrtab e = Some 2"
    and ty: "sh_type h2 = SHT_STRTAB" and os: "at_end os"
  shows "serialize_headers 0 [0, 1, 2, 3, 4, 5] LE e os =
    Inr (e\<lparr>elf_header := (elf_header e)\<lparr>e_shstrndx := 2\<rparr>\<rparr>,
         os_write (concat (map (Shdr_image LE) [h0, h1, h2, h3, h4, h5])) os)"
proof -
  have "os_pos os \<le> length (os_buf os)" using os by (simp add: at_end_def)
  then show ?thesis
    using assms by (simp add: Let_def Shdr_serialize_image os_write_write os_pos_write_le)
qed

lemma pieces_of_rep:
  assumes rep: "elf_rep e a"
  shows "Text_image LE (sec_text e) = text_bytes a" "data (sec_data e) = o_data a"
    "map of_char (data (strtab e)) = strtab_of a" "map of_char (data (shstrtab e)) = shstrtab_of"
    "Symtab_image (symtab e) = symtab_of a" "data (symtab e) \<noteq> []"
  using rep by (simp_all add: elf_rep_def strtab_rep_def Text_image_def text_bytes_def strtab_of_def
      shstrtab_of_def Symtab_image_def symtab_of_def)

lemma sizes_of_rep:
  assumes rep: "elf_rep e a"
  shows "Text_size_in_bytes (sec_text e) = length (text_bytes a)"
    "Data_size_in_bytes (sec_data e) = length (o_data a)"
    "StringTable_size_in_bytes (strtab e) = length (strtab_of a)"
    "StringTable_size_in_bytes (shstrtab e) = length shstrtab_of"
    "Symtab_size_in_bytes (symtab e) = length (symtab_of a)"
  using pieces_of_rep [OF rep]
  by (simp_all add: text_le.size_img data_le.size_img strtab.size_img symtab_le.size_img
      flip: pieces_of_rep(3) [OF rep])

lemma ehdr_rep_ok: "ehdr_rep h \<Longrightarrow> Ehdr_ok h"
  by (cases h) (simp add: ehdr_rep_def strip_ehdr_def ehdr_template_def Ehdr_ok_def EI_NIDENT_def)

text \<open>The header store after serialisation is the table of the abstract object.\<close>

lemma shdrs_of_eq:
  assumes rep: "elf_rep e a" and hp: "hdr_store e = [h0, h1, h2, h3, h4, h5]"
  shows "shdrs_of a =
    (let t = sizeof_Ehdr; d = t + length (text_bytes a); s = d + length (o_data a);
         n = s + length (strtab_of a); y = n + length shstrtab_of
     in [h0, h1\<lparr>sh_offset := of_nat s, sh_size := of_nat (length (strtab_of a))\<rparr>,
         h2\<lparr>sh_offset := of_nat n, sh_size := of_nat (length shstrtab_of)\<rparr>,
         h3\<lparr>sh_offset := of_nat y, sh_size := of_nat (length (symtab_of a))\<rparr>,
         h4\<lparr>sh_offset := of_nat t\<rparr>, h5\<lparr>sh_offset := of_nat d\<rparr>])"
proof -
  have ok: "hdrs_ok e" using rep by (simp add: elf_rep_def)
  have t: "hdr_templates = [strip h0, strip h1, strip h2, strip h3, strip h4, strip h5]"
    using ok hp by (simp add: hdrs_ok_def)
  have "strip h0 = h0" using ok hp by (cases h0) (simp add: hdrs_ok_def hdr_sizes_def strip_def)
  moreover have "sh_size h4 = of_nat (length (text_bytes a))" "sh_size h5 = of_nat (length (o_data a))"
    using ok hp sizes_of_rep [OF rep] by (simp_all add: hdrs_ok_def hdr_sizes_def)
  ultimately show ?thesis
    by (simp add: shdrs_of_def t Let_def strip_def)
qed

theorem serialize_eq:
  assumes rep: "elf_rep e a"
  shows "ELF32_serialize e os_empty = Inr (e\<lparr>hdr_store := shdrs_of a, elf_header := ehdr_of a\<rparr>,
    os_write (Ehdr_image (ehdr_of a)) (seekp_beg (os_write
      (Ehdr_image (elf_header e) @ body_of a @ concat (map (Shdr_image LE) (shdrs_of a))) os_empty)))"
proof -
  have ok: "hdrs_ok e" using rep by (simp add: elf_rep_def)
  obtain h0 h1 h2 h3 h4 h5 where hp: "hdr_store e = [h0, h1, h2, h3, h4, h5]"
    using list6E hdrs_ok_length [OF ok] by blast
  note sz = sizes_of_rep [OF rep] and pc = pieces_of_rep [OF rep]
  have hdrs: "section_headers e = [0, 1, 2, 3, 4, 5]" "header_shstrtab e = Some 2"
    "header (strtab e) = Some 1" "header (shstrtab e) = Some 2" "header (symtab e) = Some 3"
    using ok by (simp_all add: hdrs_ok_def)
  have "ehdr_rep (elf_header e)" using rep by (simp add: elf_rep_def)
  then have E: "length (Ehdr_image (elf_header e)) = sizeof_Ehdr"
    by (intro ehdr.length_enc ehdr_rep_ok)
  have "sh_type (strip h2) = SHT_STRTAB"
    using ok hp by (simp add: hdrs_ok_def hdr_templates_def)
  then have ty: "sh_type h2 = SHT_STRTAB" by (simp add: strip_def)
  define os1 where "os1 = os_write (Ehdr_image (elf_header e)) os_empty"
  define os2 where "os2 = os_write (text_bytes a @ o_data a) os1"
  define os3 where "os3 = os_write (strtab_of a) os2"
  define os4 where "os4 = os_write shstrtab_of os3"
  define os5 where "os5 = os_write (symtab_of a) os4"
  have os: "at_end os1" "at_end os2" "at_end os3" "at_end os4" "at_end os5"
    by (simp_all add: os1_def os2_def os3_def os4_def os5_def)
  have pos: "tellp os1 = sizeof_Ehdr" "tellp os2 = sizeof_Ehdr + length (text_bytes a) + length (o_data a)"
    "tellp os3 = tellp os2 + length (strtab_of a)" "tellp os4 = tellp os3 + length shstrtab_of"
    "tellp os5 = tellp os4 + length (symtab_of a)"
    by (simp_all add: os1_def os2_def os3_def os4_def os5_def tellp_write E tellp_empty)
  define hpA where "hpA = [h0, h1, h2, h3, h4\<lparr>sh_offset := of_nat (tellp os1)\<rparr>,
    h5\<lparr>sh_offset := of_nat (tellp os1 + length (text_bytes a))\<rparr>]"
  define hpB where "hpB = hpA[1 := h1\<lparr>sh_offset := of_nat (tellp os2), sh_size := of_nat (length (strtab_of a))\<rparr>]"
  define hpC where "hpC = hpB[2 := h2\<lparr>sh_offset := of_nat (tellp os3), sh_size := of_nat (length shstrtab_of)\<rparr>]"
  define hpD where "hpD = hpC[3 := h3\<lparr>sh_offset := of_nat (tellp os4), sh_size := of_nat (length (symtab_of a))\<rparr>]"
  note hps = hpA_def hpB_def hpC_def hpD_def
  have S0: "Elf32_Ehdr_serialize (elf_header e) os_empty = os1"
    by (simp add: os1_def Ehdr_serialize_image os_empty_def)
  have S1: "serialize_sections (sections e) e os1 = Inr (e\<lparr>hdr_store := hpA\<rparr>, os2)"
    using serialize_sections_eq [OF ok os(1)] hp by (simp add: hpA_def os2_def pc sz)
  have S2: "StringTable_serialize (strtab e) hpA os2 = Inr (hpB, os3)"
    using StringTable_serialize_eq [OF hdrs(3), of hpA os2] os(2)
    by (simp add: hps os3_def strtab.ser_img pc sz)
  have S3: "StringTable_serialize (shstrtab e) hpB os3 = Inr (hpC, os4)"
    using StringTable_serialize_eq [OF hdrs(4), of hpB os3] os(3)
    by (simp add: hps os4_def strtab.ser_img pc sz)
  have S4: "Symtab_serialize LE (symtab e) hpC os4 = Inr (hpD, os5)"
    using Symtab_serialize_eq [OF hdrs(5), of hpC LE os4] os(4)
    by (simp add: hps os5_def symtab_le.ser_img pc sz numeral_3_eq_3)
  have hpD: "hpD = shdrs_of a"
    by (simp add: hps shdrs_of_eq [OF rep hp] pos Let_def eval_nat_numeral add.assoc)
  define e5 where "e5 = e\<lparr>hdr_store := hpD, elf_header := (elf_header e)
    \<lparr>e_shoff := of_nat (tellp os5), e_shnum := 6\<rparr>\<rparr>"
  define os6 where "os6 = os_write (concat (map (Shdr_image LE) (shdrs_of a))) os5"
  have S5: "serialize_headers 0 (section_headers e) LE e5 os5 =
      Inr (e5\<lparr>elf_header := (elf_header e5)\<lparr>e_shstrndx := 2\<rparr>\<rparr>, os6)"
  proof -
    let ?h1 = "h1\<lparr>sh_offset := of_nat (tellp os2), sh_size := of_nat (length (strtab_of a))\<rparr>"
    let ?h2 = "h2\<lparr>sh_offset := of_nat (tellp os3), sh_size := of_nat (length shstrtab_of)\<rparr>"
    let ?h3 = "h3\<lparr>sh_offset := of_nat (tellp os4), sh_size := of_nat (length (symtab_of a))\<rparr>"
    let ?h4 = "h4\<lparr>sh_offset := of_nat (tellp os1)\<rparr>"
    let ?h5 = "h5\<lparr>sh_offset := of_nat (tellp os1 + length (text_bytes a))\<rparr>"
    have D: "hpD = [h0, ?h1, ?h2, ?h3, ?h4, ?h5]" by (simp add: hps eval_nat_numeral)
    have "hdr_store e5 = [h0, ?h1, ?h2, ?h3, ?h4, ?h5]" by (simp add: e5_def D)
    from serialize_headers_all [OF this _ _ os(5)] show ?thesis
      unfolding hdrs(1) os6_def hpD [symmetric] D using ty hdrs(2) by (simp add: e5_def)
  qed
  have "ehdr_of a = (elf_header e)\<lparr>e_shoff := of_nat (tellp os5), e_shnum := 6, e_shstrndx := 2\<rparr>"
  proof -
    have "strip_ehdr (elf_header e) = ehdr_template"
      using \<open>ehdr_rep (elf_header e)\<close> by (simp add: ehdr_rep_def)
    from strip_ehdr_eqD [OF this, where x = "of_nat (tellp os5)" and y = 6 and z = 2] show ?thesis
      by (simp only: ehdr_of_def body_of_def pieces_def pos) (simp add: add.assoc)
  qed
  then have e6: "e5\<lparr>elf_header := (elf_header e5)\<lparr>e_shstrndx := 2\<rparr>\<rparr> =
      e\<lparr>hdr_store := shdrs_of a, elf_header := ehdr_of a\<rparr>"
    by (simp add: e5_def hpD)
  have os6: "os6 = os_write (Ehdr_image (elf_header e) @ body_of a @ concat (map (Shdr_image LE) (shdrs_of a))) os_empty"
    by (simp add: os6_def os5_def os4_def os3_def os2_def os1_def os_write_write os_pos_write_le
        body_of_def pieces_def os_empty_def)
  have e5: "e\<lparr>hdr_store := hpD, elf_header := (elf_header e)
      \<lparr>e_shoff := of_nat (tellp os5), e_shnum := of_nat (length (section_headers e))\<rparr>\<rparr> = e5"
    by (simp add: e5_def hdrs)
  have last: "Elf32_Ehdr_serialize (ehdr_of a) (seekp_beg os6) = os_write (Ehdr_image (ehdr_of a)) (seekp_beg os6)"
    by (simp add: Ehdr_serialize_image seekp_beg_def)
  show ?thesis
    using S5 e5 last by (simp add: ELF32_serialize_def S0 S1 S2 S3 S4 Let_def e6 os6 [symmetric])
qed

lemma length_Ehdr_image_of [layout]: "length (Ehdr_image (ehdr_of a)) = sizeof_Ehdr"
  by (rule ehdr.length_enc) (simp add: Ehdr_ok_def ehdr_of_def ehdr_template_def EI_NIDENT_def)

text \<open>Serialisation keeps the representation, so an object can be written more than once.\<close>

lemma elf_rep_serialized:
  assumes rep: "elf_rep e a"
  shows "elf_rep (e\<lparr>hdr_store := shdrs_of a, elf_header := ehdr_of a\<rparr>) a"
proof -
  have "ehdr_rep (ehdr_of a)"
    by (simp add: ehdr_rep_def ehdr_of_def strip_ehdr_def ehdr_template_def)
  moreover have "map strip (shdrs_of a) = hdr_templates"
    by (simp add: shdrs_of_def Let_def hdr_templates_def strip_def zero_Shdr_def)
  moreover have "map sh_size (shdrs_of a) = map of_nat (hdr_sizes e)" "map sh_offset (shdrs_of a) ! 0 = 0"
    using sizes_of_rep [OF rep]
    by (simp_all add: shdrs_of_def Let_def hdr_templates_def hdr_sizes_def zero_Shdr_def)
  ultimately show ?thesis
    using rep by (simp add: elf_rep_def hdrs_ok_def hdr_sizes_def maps_ok_def)
qed

theorem serialize_refines:
  assumes rep: "elf_rep e a"
  shows "\<exists>e' os. ELF32_serialize e os_empty = Inr (e', os) \<and> os_buf os = file_of a \<and> elf_rep e' a"
proof -
  have "Ehdr_ok (elf_header e)"
    using rep ehdr_rep_ok by (simp add: elf_rep_def)
  then have "length (Ehdr_image (elf_header e)) = sizeof_Ehdr" by (rule ehdr.length_enc)
  then have "os_buf (os_write (Ehdr_image (ehdr_of a)) (seekp_beg (os_write
      (Ehdr_image (elf_header e) @ body_of a @ concat (map (Shdr_image LE) (shdrs_of a))) os_empty))) = file_of a"
    by (simp add: os_write_front os_buf_write_at_end layout file_of_def) (simp add: os_empty_def)
  then show ?thesis
    using serialize_eq [OF rep] elf_rep_serialized [OF rep] by auto
qed

theorem write_elf_refines:
  assumes "elf_rep e a"
  shows "\<exists>e'. write_elf writable f e fs = Inr (e', if writable f then fs(f \<mapsto> file_of a) else fs)
    \<and> elf_rep e' a"
  using serialize_refines [OF assms] by (auto simp: write_elf_def)

section \<open>Where everything is\<close>

text \<open>The header table: at \<open>e_shoff\<close> the six headers stand one after the other.\<close>

lemma length_shdrs_of [simp]: "length (shdrs_of a) = 6"
  by (simp add: shdrs_of_def Let_def)

lemma length_file_of: "length (file_of a) = sizeof_Ehdr + length (body_of a) + 6 * sizeof_Shdr"
  using shdr.length_table [of "shdrs_of a"] by (simp add: file_of_def layout)

lemma file_ehdr: "Ehdr_read (slice 0 sizeof_Ehdr (file_of a)) = ehdr_of a"
  using ehdr.dec_slice_middle [of "ehdr_of a" 0 "[]"]
  by (simp add: file_of_def Ehdr_ok_def ehdr_of_def ehdr_template_def EI_NIDENT_def)

lemma unat_small: "n < 2 ^ 32 \<Longrightarrow> unat (of_nat n :: u32) = n"
  by (simp add: unat_of_nat take_bit_nat_eq_self)

lemma e_shoff_of:
  "length (file_of a) < 2 ^ 32 \<Longrightarrow> unat (e_shoff (ehdr_of a)) = sizeof_Ehdr + length (body_of a)"
  by (simp add: ehdr_of_def length_file_of unat_small flip: of_nat_add)

lemma file_shdrs:
  "map (\<lambda>i. Shdr_read (slice (sizeof_Ehdr + length (body_of a) + i * sizeof_Shdr) sizeof_Shdr (file_of a))) [0..<6]
     = shdrs_of a"
  using shdr.dec_whole_table [of "shdrs_of a" "sizeof_Ehdr + length (body_of a)"
      "Ehdr_image (ehdr_of a) @ body_of a" "[]"]
  by (simp add: file_of_def layout)

text \<open>Every piece is what its header says it is.\<close>

lemma file_pieces:
  assumes small: "length (file_of a) < 2 ^ 32" and "(i, bs) \<in> set (pieces a)"
  shows "slice (unat (sh_offset (shdrs_of a ! i))) (unat (sh_size (shdrs_of a ! i))) (file_of a) = bs"
proof -
  have len: "length (file_of a) = sizeof_Ehdr + length (text_bytes a) + length (o_data a) +
      length (strtab_of a) + length shstrtab_of + length (symtab_of a) + 6 * sizeof_Shdr"
    by (simp add: length_file_of body_of_def pieces_def)
  note small' = small [unfolded len]
  show ?thesis
    using assms(2) small'
    unfolding pieces_def file_of_def body_of_def
    by (auto simp: shdrs_of_def Let_def unat_small slice_append_right slice_append_left slice_all layout
        simp flip: of_nat_add)
qed

end
