(* ===== verification/Assembler.thy ===== *)
theory Assembler
  imports Parser Elf_File
begin

text \<open>
  The actions of \<open>riscvass.y\<close>, production by production, and \<open>main\<close>. The actions are run in the
  order in which the parser reduces. What they print is left out (the error message is in
  \<open>Diagnostics\<close>), and so are the globals that only carry a value from one line of an action to the next.
\<close>

section \<open>The globals of the parser\<close>

record pstate =
  elf :: ELF32
  temp_value :: string
  currentSection :: string
  currentLabel :: string

text \<open>The message that is printed first is the subject of \<open>Diagnostics\<close>.\<close>

definition exit_with_message :: "'a result" where
  "exit_with_message = Inl (Exit 1)"

definition push_insn :: "u32 \<Rightarrow> pstate \<Rightarrow> pstate result" where
  "push_insn temp_inst p = andThen (add_to_text temp_inst (elf p)) (\<lambda>e. Inr (p\<lparr>elf := e\<rparr>))"

text \<open>The call for a label without a known address, which two actions make.\<close>

definition add_pending :: "RISCV32_INST_TYPE \<Rightarrow> u32 \<Rightarrow> pstate \<Rightarrow> pstate" where
  "add_pending ty offset p =
     p\<lparr>elf := add_to_unresolved_insns (ucast (get_next_insn_number (currentSection p) (elf p))) ty offset
        (ucast (get_next_insn_number (currentSection p) (elf p) - 1)) (elf p)\<rparr>"

section \<open>Instructions\<close>

definition exec_immediate :: "opcode_t \<Rightarrow> u32 \<Rightarrow> u32 \<Rightarrow> immediate \<Rightarrow> pstate \<Rightarrow> pstate result" where
  "exec_immediate c d a i p = (case i of
     IMM_INT v \<Rightarrow>
       (let p = p\<lparr>currentLabel := []\<rparr>;
            temp_int_literal = (scast v :: 64 word)
        in if \<not> is_within_range_12b (ucast temp_int_literal) then exit_with_message
           else let offset = ucast (temp_int_literal AND 0xFFF)
                in push_insn (emit_i_type_instruction d a offset (funct3 c) (opc c)) p)
   | IMM_SYMBOL l \<Rightarrow>
       (let p = p\<lparr>currentLabel := l\<rparr> in
        if \<not> symbol_exists (currentLabel p) (elf p) then
          let section_idx = get_section_idx (currentSection p) (elf p) in
          Inr (p\<lparr>elf := add_symbol (currentLabel p) section_idx (ucast UNRESOLVED_IDX) UNRESOLVED_IDX
                          False False (elf p)\<rparr>)
        else
          let (_, sym, e) = resolve_symbol (currentLabel p) (elf p);
              p = p\<lparr>elf := e\<rparr>;
              offset = ucast ((ucast (sym_offset_idx sym) :: u64) * 4)
          in push_insn (emit_i_type_instruction d a offset (funct3 c) (opc c)) p)
   | MODIFIER_ABS_HI l \<Rightarrow> Inr (p\<lparr>currentLabel := l\<rparr>))"

definition exec_branch :: "opcode_t \<Rightarrow> u32 \<Rightarrow> u32 \<Rightarrow> string \<Rightarrow> pstate \<Rightarrow> pstate result" where
  "exec_branch c a b l p =
    (let (op_status, offset, e) = resolve_label l (elf p);
         p = p\<lparr>elf := e\<rparr>;
         p = (if op_status = - 1 then add_pending B_TYPE offset p else p)
     in push_insn (emit_b_type_instruction offset a b (funct3 c) (opc c)) p)"

definition exec_jump :: "string \<Rightarrow> pstate \<Rightarrow> pstate result" where
  "exec_jump l p =
    (let (op_status, offset, e) = resolve_label l (elf p);
         p = p\<lparr>elf := e\<rparr>
     in if op_status = - 1 then Inr (add_pending J_TYPE offset p)
        else let offset = push_bit 1 offset; offset = offset AND 0x1FFFFF
             in if \<not> is_within_range_21b offset then exit_with_message
                else push_insn (emit_j_type_instruction offset 0 JAL_32) p)"

definition exec_instruction :: "instruction \<Rightarrow> pstate \<Rightarrow> pstate result" where
  "exec_instruction i p = (case i of
     Reg_insn c d a b \<Rightarrow> push_insn (emit_r_type_instruction 0 a b (funct3 c) d (opc c)) p
   | Imm_insn c d a i \<Rightarrow> exec_immediate c d a i p
   | Mem_insn c d i a \<Rightarrow>
       (let temp_opcode = opc c in
        if is_load temp_opcode then push_insn (emit_i_type_instruction d a i (funct3 c) temp_opcode) p
        else push_insn (emit_s_type_instruction d a i (funct3 c) temp_opcode) p)
   | Branch_insn c a b l \<Rightarrow> exec_branch c a b l p
   | Bare_insn c \<Rightarrow> push_insn (emit_i_type_instruction 0 0 (imm12 c) (funct3 c) (opc c)) p
   | La_insn d l \<Rightarrow> Inr p
   | Jump_insn l \<Rightarrow> exec_jump l p
   | Mov_insn d a \<Rightarrow> push_insn (emit_i_type_instruction d a 0 0 0x13) p
   | Ret_insn \<Rightarrow> push_insn (emit_i_type_instruction 0 0 1 0 JALR_32) p)"

fun exec_instructions :: "instruction list \<Rightarrow> pstate \<Rightarrow> pstate result" where
  "exec_instructions [] p = Inr p"
| "exec_instructions (i # is) p = andThen (exec_instruction i p) (exec_instructions is)"

section \<open>Directives and statements\<close>

definition exec_directive :: "directive \<Rightarrow> pstate \<Rightarrow> pstate result" where
  "exec_directive d p = (case d of
     Section_data \<Rightarrow> Inr (p\<lparr>currentSection := ''.data'', currentLabel := ''.data''\<rparr>)
   | Section_text \<Rightarrow> Inr (p\<lparr>currentSection := ''.text'', currentLabel := ''.text''\<rparr>)
   | Text_dir \<Rightarrow> Inr (p\<lparr>currentLabel := ''.text''\<rparr>)
   | Data_dir \<Rightarrow> Inr (p\<lparr>currentSection := ''.data'', currentLabel := ''.data''\<rparr>)
   | Global_dir l \<Rightarrow> andThen (update_label_visibility l True (elf p)) (\<lambda>e. Inr (p\<lparr>elf := e\<rparr>))
   | Ascii_dir s \<Rightarrow> Inr (p\<lparr>currentSection := ''.data'', temp_value := s\<rparr>))"

definition exec_statement :: "statement \<Rightarrow> pstate \<Rightarrow> pstate result" where
  "exec_statement s p = (case s of
     Label_insns l is \<Rightarrow>
       andThen (exec_instructions is p) (\<lambda>p.
       andThen (init_label l False (currentSection p) (elf p)) (\<lambda>e. Inr (p\<lparr>elf := e\<rparr>)))
   | Label_directive l d \<Rightarrow>
       andThen (exec_directive d p) (\<lambda>p.
       let p = p\<lparr>currentLabel := l\<rparr> in
       if length (temp_value p) > 0 then
         andThen (add_program_data l (temp_value p) (currentSection p) (elf p))
           (\<lambda>e. Inr (p\<lparr>elf := e, temp_value := []\<rparr>))
       else Inr p)
   | Directive d \<Rightarrow> exec_directive d p)"

fun exec_statements :: "statement list \<Rightarrow> pstate \<Rightarrow> pstate result" where
  "exec_statements [] p = Inr p"
| "exec_statements (s # ss) p = andThen (exec_statement s p) (exec_statements ss)"

section \<open>The whole program\<close>

text \<open>
  \<open>yyparse\<close>: the actions of the statements reduced, those of an unfinished last statement, and,
  when \<open>program\<close> is reduced, its action. The status is 1 after a syntax error. \<open>junk\<close> stands for
  the uninitialised variable of the resolution loop.
\<close>

definition yyparse ::
    "(nat \<Rightarrow> u32) \<Rightarrow> (string \<Rightarrow> bool) \<Rightarrow> string \<Rightarrow> token list \<Rightarrow> pstate \<Rightarrow> files \<Rightarrow> (int \<times> files) result" where
  "yyparse junk writable out_filename ts p fs =
    (case parse_statements ts of (ss, is, outcome) \<Rightarrow>
       andThen (exec_statements ss p) (\<lambda>p.
       andThen (exec_instructions is p) (\<lambda>p.
       if outcome = Refused then Inr (1, fs)
       else andThen (write_elf writable out_filename (resolve_unresolved_instructions junk (elf p)) fs)
              (\<lambda>(e, fs). Inr (if outcome = Accepted then 0 else 1, fs)))))"

text \<open>
  \<open>main\<close>, with the program's name as the first argument: the exit status and the files
  afterwards. The parser's status is ignored.
\<close>

definition initial_pstate :: "ELF32 \<Rightarrow> pstate" where
  "initial_pstate e = \<lparr>elf = e, temp_value = [], currentSection = [], currentLabel = []\<rparr>"

definition chars_of :: "byte list \<Rightarrow> string" where
  "chars_of bs = map (\<lambda>b. char_of (unat b)) bs"

definition riscvass_main ::
    "(nat \<Rightarrow> u32) \<Rightarrow> (string \<Rightarrow> bool) \<Rightarrow> string list \<Rightarrow> files \<Rightarrow> (int \<times> files) result" where
  "riscvass_main junk writable argv fs =
    andThen ELF32_new (\<lambda>e.
    if length argv < 2 then Inr (1, fs)
    else case fs (argv ! 1) of
      None \<Rightarrow> Inr (- 1, fs)
    | Some src \<Rightarrow>
        (let out_filename = (if length argv = 4 then argv ! 3 else generate_dest_filename (argv ! 1))
         in andThen (yyparse junk writable out_filename (yylex_all (chars_of src)) (initial_pstate e) fs)
              (\<lambda>(status, fs). Inr (0, fs))))"

end
