(* ===== verification/Assembler_Refine.thy ===== *)
theory Assembler_Refine
  imports Assembler Elf_Invariant
begin

text \<open>
  The actions on the abstract object: the same program state with \<open>obj\<close> in place of \<open>ELF32\<close>,
  and \<open>None\<close> for the one way an action can stop, the exit after a range check. The actions of
  \<open>Assembler\<close> are shown to refine them.
\<close>

section \<open>The abstract actions\<close>

record sstate =
  s_obj :: obj
  s_value :: string
  s_section :: string
  s_label :: string

definition s_emit :: "u32 \<Rightarrow> sstate \<Rightarrow> sstate" where
  "s_emit w s = s\<lparr>s_obj := spec_add_text w (s_obj s)\<rparr>"

text \<open>
  What \<open>get_next_insn_number\<close> gives: the number of the next instruction in the text section and 0 in any other
  (\<open>elf.cc\<close>, lines 379 to 386); and the entry of an instruction that waits for a label.
\<close>

definition s_next :: "sstate \<Rightarrow> u32" where
  "s_next s = (if s_section s = ''.text'' then of_nat (length (o_text (s_obj s))) else 0)"

definition s_wait :: "RISCV32_INST_TYPE \<Rightarrow> string \<Rightarrow> sstate \<Rightarrow> sstate" where
  "s_wait ty l s = s\<lparr>s_obj := spec_add_pending
     \<lparr>insn_number = s_next s, pc_insn_number = s_next s - 1, insn_type = ty, insn_hash = hasher l\<rparr> (s_obj s)\<rparr>"

text \<open>The symbol recorded at the first use of a name as an immediate.\<close>

definition s_section_idx :: "string \<Rightarrow> obj \<Rightarrow> size_t" where
  "s_section_idx sec a = (case o_index a sec of None \<Rightarrow> SIZE_MAX
     | Some _ \<Rightarrow> of_nat (card {k \<in> dom (o_index a). k < sec}))"

definition s_new_symbol :: "string \<Rightarrow> obj \<Rightarrow> Sym" where
  "s_new_symbol sec a = \<lparr>sym_section_idx = s_section_idx sec a, sym_offset_idx = 0xFAF0,
     sym_symtab_idx = 0xFAF0, sym_resolved = False, sym_label = False\<rparr>"

definition s_immediate :: "opcode_t \<Rightarrow> u32 \<Rightarrow> u32 \<Rightarrow> immediate \<Rightarrow> sstate \<Rightarrow> sstate option" where
  "s_immediate c d a i s = (case i of
     IMM_INT v \<Rightarrow>
       if is_within_range_12b v
       then Some (s_emit (emit_i_type_instruction d a v (funct3 c) (opc c)) (s\<lparr>s_label := []\<rparr>))
       else None
   | IMM_SYMBOL l \<Rightarrow> Some (case o_symbols (s_obj s) l of
       None \<Rightarrow> s\<lparr>s_label := l, s_obj := spec_add_symbol l (s_new_symbol (s_section s) (s_obj s)) (s_obj s)\<rparr>
     | Some y \<Rightarrow> s_emit (emit_i_type_instruction d a (4 * sym_offset_idx y) (funct3 c) (opc c)) (s\<lparr>s_label := l\<rparr>))
   | MODIFIER_ABS_HI l \<Rightarrow> Some (s\<lparr>s_label := l\<rparr>))"

text \<open>A label reference: note it as wanted if it is unknown.\<close>

definition s_want :: "string \<Rightarrow> sstate \<Rightarrow> sstate" where
  "s_want l s = s\<lparr>s_obj := snd (snd (spec_resolve_label l (s_obj s)))\<rparr>"

definition s_branch :: "opcode_t \<Rightarrow> u32 \<Rightarrow> u32 \<Rightarrow> string \<Rightarrow> sstate \<Rightarrow> sstate" where
  "s_branch c a b l s = (case o_labels (s_obj s) l of
     Some v \<Rightarrow> s_emit (emit_b_type_instruction v a b (funct3 c) (opc c)) s
   | None \<Rightarrow> s_emit (emit_b_type_instruction (hasher l) a b (funct3 c) (opc c)) (s_wait B_TYPE l (s_want l s)))"

definition s_jump :: "string \<Rightarrow> sstate \<Rightarrow> sstate option" where
  "s_jump l s = (case o_labels (s_obj s) l of
     Some v \<Rightarrow> (let off = v * 2 AND 0x1FFFFF in
       if is_within_range_21b off then Some (s_emit (emit_j_type_instruction off 0 0x6f) s) else None)
   | None \<Rightarrow> Some (s_wait J_TYPE l (s_want l s)))"

definition s_instruction :: "instruction \<Rightarrow> sstate \<Rightarrow> sstate option" where
  "s_instruction i s = (case i of
     Reg_insn c d a b \<Rightarrow> Some (s_emit (emit_r_type_instruction 0 a b (funct3 c) d (opc c)) s)
   | Imm_insn c d a i \<Rightarrow> s_immediate c d a i s
   | Mem_insn c d i a \<Rightarrow> Some (s_emit
       (if opc c = 0x03 then emit_i_type_instruction d a i (funct3 c) (opc c)
        else emit_s_type_instruction d a i (funct3 c) (opc c)) s)
   | Branch_insn c a b l \<Rightarrow> Some (s_branch c a b l s)
   | Bare_insn c \<Rightarrow> Some (s_emit (emit_i_type_instruction 0 0 (imm12 c) (funct3 c) (opc c)) s)
   | La_insn d l \<Rightarrow> Some s
   | Jump_insn l \<Rightarrow> s_jump l s
   | Mov_insn d a \<Rightarrow> Some (s_emit (emit_i_type_instruction d a 0 0 0x13) s)
   | Ret_insn \<Rightarrow> Some (s_emit (emit_i_type_instruction 0 0 1 0 0x67) s))"

fun s_instructions :: "instruction list \<Rightarrow> sstate \<Rightarrow> sstate option" where
  "s_instructions [] s = Some s"
| "s_instructions (i # is) s = (case s_instruction i s of None \<Rightarrow> None | Some s \<Rightarrow> s_instructions is s)"

definition s_label_here :: "string \<Rightarrow> string \<Rightarrow> sstate \<Rightarrow> sstate" where
  "s_label_here l sec s = s\<lparr>s_obj := spec_init_label l sec (s_obj s)\<rparr>"

definition s_directive :: "directive \<Rightarrow> sstate \<Rightarrow> sstate" where
  "s_directive d s = (case d of
     Section_data \<Rightarrow> s\<lparr>s_section := ''.data'', s_label := ''.data''\<rparr>
   | Section_text \<Rightarrow> s\<lparr>s_section := ''.text'', s_label := ''.text''\<rparr>
   | Text_dir \<Rightarrow> s\<lparr>s_label := ''.text''\<rparr>
   | Data_dir \<Rightarrow> s\<lparr>s_section := ''.data'', s_label := ''.data''\<rparr>
   | Global_dir l \<Rightarrow> s_label_here l ''.text'' s
   | Ascii_dir v \<Rightarrow> s\<lparr>s_section := ''.data'', s_value := v\<rparr>)"

definition s_statement :: "statement \<Rightarrow> sstate \<Rightarrow> sstate option" where
  "s_statement st s = (case st of
     Label_insns l is \<Rightarrow> map_option (\<lambda>s. s_label_here l (s_section s) s) (s_instructions is s)
   | Label_directive l d \<Rightarrow> (let s = (s_directive d s)\<lparr>s_label := l\<rparr> in
       Some (if s_value s = [] then s
             else s\<lparr>s_obj := spec_add_data l (s_value s) (s_section s) (s_obj s), s_value := []\<rparr>))
   | Directive d \<Rightarrow> Some (s_directive d s))"

fun s_statements :: "statement list \<Rightarrow> sstate \<Rightarrow> sstate option" where
  "s_statements [] s = Some s"
| "s_statements (x # xs) s = (case s_statement x s of None \<Rightarrow> None | Some s \<Rightarrow> s_statements xs s)"

definition s_initial :: sstate where
  "s_initial = \<lparr>s_obj = spec_new, s_value = [], s_section = [], s_label = []\<rparr>"

section \<open>Refinement\<close>

definition prep :: "pstate \<Rightarrow> sstate \<Rightarrow> bool" where
  "prep p s \<longleftrightarrow> elf_rep (elf p) (s_obj s) \<and> obj_ok (s_obj s) \<and> temp_value p = s_value s \<and>
     currentSection p = s_section s \<and> currentLabel p = s_label s"

text \<open>A concrete step does what the abstract one does: it exits, or ends in a state it represents.\<close>

definition refines :: "pstate result \<Rightarrow> sstate option \<Rightarrow> bool" where
  "refines r so \<longleftrightarrow> (case so of None \<Rightarrow> r = Inl (Exit 1) | Some s \<Rightarrow> (\<exists>p. r = Inr p \<and> prep p s))"

lemma refines_Inr [simp]: "refines (Inr p) (Some s) \<longleftrightarrow> prep p s"
  by (simp add: refines_def)

lemma refines_Exit [simp]: "refines exit_with_message None"
  by (simp add: refines_def exit_with_message_def)

lemma refines_andThen:
  "refines r so \<Longrightarrow> (\<And>p s. prep p s \<Longrightarrow> refines (f p) (g s)) \<Longrightarrow>
     refines (andThen r f) (case so of None \<Rightarrow> None | Some s \<Rightarrow> g s)"
proof -
  assume r: "refines r so" and f: "\<And>p s. prep p s \<Longrightarrow> refines (f p) (g s)"
  show "refines (andThen r f) (case so of None \<Rightarrow> None | Some s \<Rightarrow> g s)"
  proof (cases so)
    case (Some s)
    then obtain p where "r = Inr p" "prep p s" using r by (auto simp: refines_def)
    then show ?thesis using f [of p s] Some by simp
  qed (use r in \<open>simp add: refines_def\<close>)
qed

lemma prep_label: "prep p s \<Longrightarrow> prep (p\<lparr>currentLabel := l\<rparr>) (s\<lparr>s_label := l\<rparr>)"
  by (simp add: prep_def)

lemma push_insn_refines: "prep p s \<Longrightarrow> refines (push_insn w p) (Some (s_emit w s))"
  using add_to_text_refines [of "elf p" "s_obj s" w] obj_ok_add_text [of "s_obj s" w]
  by (auto simp: prep_def push_insn_def s_emit_def refines_def)

lemma ucast_word_of_int_down: "(ucast (word_of_int i :: u64) :: u32) = word_of_int i"
  by (rule bit_word_eqI) (simp add: bit_unsigned_iff bit_word_of_int_iff)

lemma ucast_of_nat_down: "(ucast (of_nat n :: u64) :: u32) = of_nat n"
  using ucast_word_of_int_down [of "int n"] by simp

lemma ucast_pred_down: "(ucast (of_nat n - 1 :: u64) :: u32) = of_nat n - 1"
  using ucast_word_of_int_down [of "int n - 1"] by simp

lemma next_number:
  assumes "prep p s"
  shows "ucast (get_next_insn_number (currentSection p) (elf p)) = s_next s"
    and "ucast (get_next_insn_number (currentSection p) (elf p) - 1) = s_next s - 1"
proof -
  have n: "next_index (sec_text (elf p)) = length (o_text (s_obj s))"
    using assms by (simp add: prep_def elf_rep_def next_index_def)
  show "ucast (get_next_insn_number (currentSection p) (elf p)) = s_next s"
    using assms n by (simp add: get_next_insn_number_def s_next_def prep_def ucast_of_nat_down)
  show "ucast (get_next_insn_number (currentSection p) (elf p) - 1) = s_next s - 1"
    using assms n ucast_pred_down [of 0]
    by (simp add: get_next_insn_number_def s_next_def prep_def ucast_pred_down)
qed

text \<open>Label references.\<close>

lemma want_refines:
  assumes "prep p s" and "o_labels (s_obj s) l = None"
  shows "\<exists>e. resolve_label l (elf p) = (- 1, hasher l, e) \<and> prep (p\<lparr>elf := e\<rparr>) (s_want l s)"
proof -
  obtain st off e where r: "resolve_label l (elf p) = (st, off, e)" by (cases "resolve_label l (elf p)")
  have "elf_rep (elf p) (s_obj s)" "obj_ok (s_obj s)" using assms(1) by (simp_all add: prep_def)
  then show ?thesis
    using resolve_label_refines [of "elf p" "s_obj s" l] obj_ok_resolve_label [of "s_obj s" l] assms r
    by (simp add: spec_resolve_label_def s_want_def prep_def)
qed

lemma known_refines:
  assumes "prep p s" and "o_labels (s_obj s) l = Some v"
  shows "\<exists>e. resolve_label l (elf p) = (0, v, e) \<and> prep (p\<lparr>elf := e\<rparr>) s"
proof -
  obtain st off e where r: "resolve_label l (elf p) = (st, off, e)" by (cases "resolve_label l (elf p)")
  then show ?thesis
    using resolve_label_refines [of "elf p" "s_obj s" l] assms
    by (simp add: spec_resolve_label_def prep_def)
qed

lemma wait_refines:
  assumes p: "prep p s" and l: "o_labels (s_obj s) l \<noteq> None \<or> o_wanted (s_obj s) l \<noteq> None"
  shows "prep (add_pending ty (hasher l) p) (s_wait ty l s)"
proof -
  let ?q = "\<lparr>insn_number = s_next s, pc_insn_number = s_next s - 1, insn_type = ty, insn_hash = hasher l\<rparr>"
  have ok: "obj_ok (s_obj s)" using p by (simp add: prep_def)
  have "obj_ok (spec_add_pending ?q (s_obj s))"
    using obj_okD [OF ok] l by (intro obj_okI) (auto simp: spec_add_pending_def)
  then show ?thesis
    using p add_to_unresolved_insns_refines [of "elf p" "s_obj s" "s_next s" ty "hasher l" "s_next s - 1"]
    unfolding add_pending_def next_number [OF p] by (simp add: prep_def s_wait_def)
qed

lemma want_wait_refines:
  assumes p: "prep p s" and l: "o_labels (s_obj s) l = None"
  shows "\<exists>e. resolve_label l (elf p) = (- 1, hasher l, e) \<and>
    prep (add_pending ty (hasher l) (p\<lparr>elf := e\<rparr>)) (s_wait ty l (s_want l s))"
proof -
  obtain e where e: "resolve_label l (elf p) = (- 1, hasher l, e)" "prep (p\<lparr>elf := e\<rparr>) (s_want l s)"
    using want_refines [OF p l] by blast
  have "o_wanted (s_obj (s_want l s)) l \<noteq> None"
    using l by (simp add: s_want_def spec_resolve_label_def)
  then show ?thesis using e wait_refines [OF e(2)] by blast
qed

text \<open>The instructions.\<close>

lemma branch_refines: "prep p s \<Longrightarrow> refines (exec_branch c a b l p) (Some (s_branch c a b l s))"
proof (cases "o_labels (s_obj s) l")
  case None
  assume p: "prep p s"
  then show ?thesis
    using want_wait_refines [OF p None, of B_TYPE] push_insn_refines None
    by (auto simp: exec_branch_def s_branch_def)
next
  case (Some v)
  assume p: "prep p s"
  then show ?thesis
    using known_refines [OF p Some] push_insn_refines Some by (auto simp: exec_branch_def s_branch_def)
qed

lemma jump_refines: "prep p s \<Longrightarrow> refines (exec_jump l p) (s_jump l s)"
proof (cases "o_labels (s_obj s) l")
  case None
  assume p: "prep p s"
  then show ?thesis
    using want_wait_refines [OF p None, of J_TYPE] None by (auto simp: exec_jump_def s_jump_def)
next
  case (Some v)
  assume p: "prep p s"
  then show ?thesis
    using known_refines [OF p Some] push_insn_refines Some
    by (auto simp: exec_jump_def s_jump_def Let_def JAL_32_def)
qed

text \<open>The literal goes through a 64-bit variable and a mask that the emitter makes redundant.\<close>

lemma literal_narrow: "ucast (scast (v :: u32) :: 64 word) = v"
  by (rule bit_word_eqI) (simp add: bit_simps)

lemma emit_i_masked:
  "emit_i_type_instruction d a (ucast ((scast (v :: u32) :: 64 word) AND 0xFFF)) f opn = emit_i_type_instruction d a v f opn"
proof -
  have bits: "bit (0xFFF :: int) n \<longleftrightarrow> n < 12" for n
  proof -
    have "(0xFFF :: int) = mask 12" by (simp add: mask_eq_exp_minus_1)
    then show ?thesis by (simp only: bit_mask_iff possible_bit_int simp_thms)
  qed
  have "(ucast (ucast ((scast v :: 64 word) AND 0xFFF) :: u32) :: 12 word) = ucast v"
    by (intro bit_word_eqI) (auto simp: bit_simps bits)
  then show ?thesis by (simp add: emit_i_type_instruction_def)
qed

lemma section_idx_refines:
  assumes rep: "elf_rep e a"
  shows "get_section_idx sec e = s_section_idx sec a"
proof (cases "o_index a sec")
  case None
  then show ?thesis using rep by (simp add: get_section_idx_def s_section_idx_def elf_rep_def)
next
  case (Some v)
  have "map_ok (section_to_idx e)" "map_find (section_to_idx e) = o_index a"
    using rep by (simp_all add: elf_rep_def maps_ok_def)
  then show ?thesis
    using Some map_distance_card [of "section_to_idx e" sec] by (simp add: get_section_idx_def s_section_idx_def)
qed

lemma offset_times_4: "(ucast ((ucast (x :: u32) :: u64) * 4) :: u32) = 4 * x"
proof -
  have "(ucast x :: u64) * 4 = word_of_int (uint x) * word_of_int 4"
    by (subst ucast_eq [where 'a = 64]) simp
  also have "\<dots> = word_of_int (uint x * 4)" by (simp only: of_int_mult)
  finally have "(ucast x :: u64) * 4 = word_of_int (uint x * 4)" .
  then show ?thesis by (simp only: ucast_word_of_int_down) (simp add: mult.commute)
qed

lemma immediate_refines: "prep p s \<Longrightarrow> refines (exec_immediate c d a i p) (s_immediate c d a i s)"
proof (cases i)
  case (IMM_INT v)
  assume p: "prep p s"
  then show ?thesis
    using push_insn_refines [OF prep_label [OF p, of "[]"]] IMM_INT
    by (simp add: exec_immediate_def s_immediate_def Let_def literal_narrow emit_i_masked)
next
  case (IMM_SYMBOL l)
  assume p: "prep p s"
  have rep: "elf_rep (elf p) (s_obj s)" and ok: "obj_ok (s_obj s)" using p by (simp_all add: prep_def)
  show ?thesis
  proof (cases "o_symbols (s_obj s) l")
    case None
    then show ?thesis
      using p IMM_SYMBOL add_symbol_refines [OF rep] obj_ok_add_symbol [OF ok]
      by (simp add: exec_immediate_def s_immediate_def Let_def symbol_exists_iff [OF rep]
          section_idx_refines [OF rep] s_new_symbol_def UNRESOLVED_IDX_def prep_def)
  next
    case (Some y)
    have "p\<lparr>currentLabel := l, elf := elf p\<rparr> = p\<lparr>currentLabel := l\<rparr>" by simp
    then show ?thesis
      using p Some IMM_SYMBOL push_insn_refines [OF prep_label [OF p, of l]]
      by (simp add: exec_immediate_def s_immediate_def Let_def symbol_exists_iff [OF rep]
          resolve_symbol_refines [OF rep] offset_times_4)
  qed
next
  case (MODIFIER_ABS_HI l)
  assume "prep p s"
  then show ?thesis
    using MODIFIER_ABS_HI prep_label by (simp add: exec_immediate_def s_immediate_def)
qed

theorem instruction_refines: "prep p s \<Longrightarrow> refines (exec_instruction i p) (s_instruction i s)"
  using immediate_refines branch_refines jump_refines push_insn_refines
  by (cases i) (auto simp: exec_instruction_def s_instruction_def Let_def is_load_iff JALR_32_def)

lemma instructions_refine: "prep p s \<Longrightarrow> refines (exec_instructions is p) (s_instructions is s)"
proof (induction "is" arbitrary: p s)
  case (Cons i "is")
  then show ?case using refines_andThen [OF instruction_refines] by simp
qed simp

text \<open>Labels, directives and statements.\<close>

lemma label_here_refines:
  assumes "prep p s"
  shows "refines (andThen (init_label l g (currentSection p) (elf p)) (\<lambda>e. Inr (p\<lparr>elf := e\<rparr>)))
    (Some (s_label_here l (s_section s) s))"
  using assms init_label_refines [of "elf p" "s_obj s" l g "s_section s"]
    obj_ok_init_label [of "s_obj s" l "s_section s"]
  by (auto simp: prep_def s_label_here_def refines_def)

lemma directive_refines:
  assumes "prep p s"
  shows "refines (exec_directive d p) (Some (s_directive d s))"
proof (cases d)
  case (Global_dir l)
  then show ?thesis
    using assms update_label_visibility_refines [of "elf p" "s_obj s" l True]
      obj_ok_init_label [of "s_obj s" l "''.text''"]
    by (auto simp: prep_def exec_directive_def s_directive_def s_label_here_def refines_def)
qed (use assms in \<open>simp_all add: prep_def exec_directive_def s_directive_def\<close>)

lemma add_value_refines:
  assumes "prep p s"
  shows "refines (andThen (add_program_data l (temp_value p) (currentSection p) (elf p))
      (\<lambda>e. Inr (p\<lparr>elf := e, temp_value := []\<rparr>)))
    (Some (s\<lparr>s_obj := spec_add_data l (s_value s) (s_section s) (s_obj s), s_value := []\<rparr>))"
  using assms add_program_data_refines [of "elf p" "s_obj s" l "s_value s" "s_section s"]
    obj_ok_add_data [of "s_obj s" l "s_value s" "s_section s"]
  by (auto simp: prep_def refines_def)

theorem statement_refines: "prep p s \<Longrightarrow> refines (exec_statement st p) (s_statement st s)"
proof (cases st)
  case (Label_insns l "is")
  assume p: "prep p s"
  have "refines (exec_statement st p)
      (case s_instructions is s of None \<Rightarrow> None | Some s \<Rightarrow> Some (s_label_here l (s_section s) s))"
    unfolding exec_statement_def Label_insns statement.case
    by (rule refines_andThen [OF instructions_refine [OF p] label_here_refines])
  then show ?thesis
    using Label_insns by (simp add: s_statement_def split: option.splits)
next
  case (Label_directive l d)
  assume p: "prep p s"
  obtain q where q: "exec_directive d p = Inr q" "prep q (s_directive d s)"
    using directive_refines [OF p, of d] by (auto simp: refines_def)
  have "prep (q\<lparr>currentLabel := l\<rparr>) ((s_directive d s)\<lparr>s_label := l\<rparr>)"
    by (rule prep_label [OF q(2)])
  then show ?thesis
    using Label_directive q add_value_refines [of "q\<lparr>currentLabel := l\<rparr>" "(s_directive d s)\<lparr>s_label := l\<rparr>" l]
    by (auto simp: exec_statement_def s_statement_def Let_def prep_def)
next
  case (Directive d)
  assume "prep p s"
  then show ?thesis using directive_refines Directive by (simp add: exec_statement_def s_statement_def)
qed

lemma statements_refine: "prep p s \<Longrightarrow> refines (exec_statements ss p) (s_statements ss s)"
proof (induction ss arbitrary: p s)
  case (Cons x ss)
  then show ?case using refines_andThen [OF statement_refines] by simp
qed simp

section \<open>The whole program\<close>

text \<open>
  What a token list makes of the abstract object: the object that is written, if one is, and
  the parser's status. The outer option is \<open>None\<close> for the exit after a range check.
\<close>

definition s_program :: "token list \<Rightarrow> (int \<times> obj option) option" where
  "s_program ts = (case parse_statements ts of (ss, is, outcome) \<Rightarrow>
     (case s_statements ss s_initial of None \<Rightarrow> None
      | Some s \<Rightarrow> (case s_instructions is s of None \<Rightarrow> None
         | Some s \<Rightarrow> Some (if outcome = Accepted then 0 else 1,
             if outcome = Refused then None else Some (spec_resolve (s_obj s))))))"

text \<open>The files after a run that wrote, or did not write, an object.\<close>

definition s_files :: "(string \<Rightarrow> bool) \<Rightarrow> string \<Rightarrow> obj option \<Rightarrow> files \<Rightarrow> files" where
  "s_files writable out ob fs = (case ob of
     Some a \<Rightarrow> if writable out then fs(out \<mapsto> file_of a) else fs | None \<Rightarrow> fs)"

lemma prep_initial: "elf_rep e spec_new \<Longrightarrow> prep (initial_pstate e) s_initial"
  by (simp add: prep_def initial_pstate_def s_initial_def obj_ok_new)

theorem yyparse_refines:
  assumes "elf_rep e spec_new"
  shows "yyparse junk writable out ts (initial_pstate e) fs = (case s_program ts of
      None \<Rightarrow> Inl (Exit 1) | Some (status, ob) \<Rightarrow> Inr (status, s_files writable out ob fs))"
proof -
  obtain ss "is" oc where st: "parse_statements ts = (ss, is, oc)" by (cases "parse_statements ts") auto
  have 1: "refines (exec_statements ss (initial_pstate e)) (s_statements ss s_initial)"
    by (rule statements_refine [OF prep_initial [OF assms]])
  show ?thesis
  proof (cases "s_statements ss s_initial")
    case None
    then show ?thesis using 1 st by (simp add: yyparse_def s_program_def refines_def)
  next
    case (Some s)
    then obtain p where p: "exec_statements ss (initial_pstate e) = Inr p" "prep p s"
      using 1 by (auto simp: refines_def)
    have 2: "refines (exec_instructions is p) (s_instructions is s)" by (rule instructions_refine [OF p(2)])
    show ?thesis
    proof (cases "s_instructions is s")
      case None
      then show ?thesis using 2 st p(1) Some by (simp add: yyparse_def s_program_def refines_def)
    next
      case (Some s')
      then obtain q where q: "exec_instructions is p = Inr q" "elf_rep (elf q) (s_obj s')"
        using 2 by (auto simp: refines_def prep_def)
      have "elf_rep (resolve_unresolved_instructions junk (elf q)) (spec_resolve (s_obj s'))"
        using q(2) by (rule resolve_refines)
      then show ?thesis
        using write_elf_refines [of _ "spec_resolve (s_obj s')" writable out fs] st p(1) q(1) Some
          \<open>s_statements ss s_initial = Some s\<close>
        by (fastforce simp: yyparse_def s_program_def s_files_def)
    qed
  qed
qed

theorem riscvass_main_refines:
  "riscvass_main junk writable argv fs =
    (if length argv < 2 then Inr (1, fs)
     else case fs (argv ! 1) of
       None \<Rightarrow> Inr (- 1, fs)
     | Some src \<Rightarrow> (case s_program (yylex_all (chars_of src)) of
         None \<Rightarrow> Inl (Exit 1)
       | Some (status, ob) \<Rightarrow> Inr (0, s_files writable
           (if length argv = 4 then argv ! 3 else generate_dest_filename (argv ! 1)) ob fs)))"
proof -
  obtain e where e: "ELF32_new = Inr e" "elf_rep e spec_new" using ELF32_new_refines by blast
  show ?thesis
    by (simp add: riscvass_main_def e(1) yyparse_refines [OF e(2)] Let_def split: option.splits prod.splits)
qed

text \<open>The variable that the resolution loop leaves uninitialised has no influence on a run.\<close>

corollary junk_is_ignored: "riscvass_main junk writable argv fs = riscvass_main junk' writable argv fs"
  by (simp add: riscvass_main_refines)

end
