(* ===== verification/Codegen.thy ===== *)
theory Codegen
  imports Assembler_Refine
begin

text \<open>
  What the assembler generates for each mnemonic of its grammar, read by the decoder of
  \<open>Rv32_Isa\<close>: which instructions come out as the manual defines them, and what comes out for
  the others.
\<close>

text \<open>Executing an instruction appends one word to the text section; the word decodes to \<open>m\<close>.\<close>

definition emits :: "instruction \<Rightarrow> pstate \<Rightarrow> rv32i option \<Rightarrow> bool" where
  "emits i p m \<longleftrightarrow> (\<exists>p' w. exec_instruction i p = Inr p' \<and>
     data (sec_text (elf p')) = data (sec_text (elf p)) @ [w] \<and> rv_decode w = m)"

lemma take_bit_reg [simp]: "d < 32 \<Longrightarrow> take_bit 5 (d :: u32) = d"
proof -
  assume "d < 32"
  then have "unat d < 2 ^ 5" by (simp add: word_less_nat_alt)
  then show "take_bit 5 d = d"
    by (simp add: word_unat_eq_iff unsigned_take_bit_eq take_bit_nat_eq_self)
qed

lemma push_insn_emits:
  assumes "prep p s"
  shows "\<exists>p'. push_insn w p = Inr p' \<and> data (sec_text (elf p')) = data (sec_text (elf p)) @ [w]"
  using push_insn_refines [OF assms, of w] assms
  by (auto simp: refines_def prep_def elf_rep_def s_emit_def spec_add_text_def)

lemma emits_push:
  "prep p s \<Longrightarrow> exec_instruction i p = push_insn w p \<Longrightarrow> rv_decode w = m \<Longrightarrow> emits i p m"
  using push_insn_emits [of p s w] by (auto simp: emits_def)

text \<open>The decoder on emitted words.\<close>

lemma decode_emit_i:
  "rv_decode (emit_i_type_instruction d a v 0 0x13) =
     Some (OpImm A_ADD (take_bit 5 d) (take_bit 5 a) (signed_take_bit 11 v))"
  "rv_decode (emit_i_type_instruction d a v 2 0x13) =
     Some (OpImm A_SLT (take_bit 5 d) (take_bit 5 a) (signed_take_bit 11 v))"
  "rv_decode (emit_i_type_instruction d a v 4 0x13) =
     Some (OpImm A_XOR (take_bit 5 d) (take_bit 5 a) (signed_take_bit 11 v))"
  "rv_decode (emit_i_type_instruction d a v 6 0x13) =
     Some (OpImm A_OR (take_bit 5 d) (take_bit 5 a) (signed_take_bit 11 v))"
  "rv_decode (emit_i_type_instruction d a v 0 0x67) =
     Some (Jalr (take_bit 5 d) (take_bit 5 a) (signed_take_bit 11 v))"
  by (simp_all add: rv_decode_def decode_op_imm_def Let_def emit_i_fields)

lemma decode_emit_load:
  "decode_load (take_bit 3 f3) = Some k \<Longrightarrow> rv_decode (emit_i_type_instruction d a v f3 0x03) =
     Some (Load k (take_bit 5 d) (take_bit 5 a) (signed_take_bit 11 v))"
  by (simp add: rv_decode_def Let_def emit_i_fields)

lemma decode_emit_store:
  "decode_store (take_bit 3 f3) = Some k \<Longrightarrow> rv_decode (emit_s_type_instruction b a v f3 0x23) =
     Some (Store k (take_bit 5 b) (take_bit 5 a) (signed_take_bit 11 v))"
  by (simp add: rv_decode_def Let_def emit_s_fields)

lemma decode_emit_r:
  "decode_op (take_bit 7 f7) (take_bit 3 f3) = Some k \<Longrightarrow>
     rv_decode (emit_r_type_instruction f7 a b f3 d 0x33) =
     Some (Op k (take_bit 5 d) (take_bit 5 a) (take_bit 5 b))"
  by (simp add: rv_decode_def Let_def emit_r_fields)

lemma decode_emit_b:
  "rv_decode (emit_b_type_instruction v b a 0 0x63) =
     Some (Branch C_EQ (take_bit 5 a) (take_bit 5 b) (signed_take_bit 12 (v AND NOT 1)))"
  by (simp add: rv_decode_def Let_def emit_b_fields decode_cond_def)

lemma decode_emit_j:
  "rv_decode (emit_j_type_instruction v d 0x6f) =
     Some (Jal (take_bit 5 d) (signed_take_bit 20 (v AND NOT 1)))"
  by (simp add: rv_decode_def Let_def emit_j_fields)

section \<open>Immediate arithmetic\<close>

text \<open>The operation that the manual gives the mnemonics of \<open>opcode_immediate\<close>.\<close>

definition imm_alu :: "keyword \<Rightarrow> alu option" where
  "imm_alu k = (if k = K_ADDI then Some A_ADD else if k = K_SLTI then Some A_SLT
     else if k = K_XORI then Some A_XOR else if k = K_ORI then Some A_OR
     else if k = K_ANDI then Some A_AND else None)"

lemma exec_imm_int:
  "is_within_range_12b v \<Longrightarrow> exec_instruction (Imm_insn c d a (IMM_INT v)) p =
     push_insn (emit_i_type_instruction d a v (funct3 c) (opc c)) (p\<lparr>currentLabel := []\<rparr>)"
  by (simp add: exec_instruction_def exec_immediate_def Let_def literal_narrow emit_i_masked)

lemma emits_imm:
  assumes "prep p s" and "is_within_range_12b v"
    and "rv_decode (emit_i_type_instruction d a v (funct3 c) (opc c)) = m"
  shows "emits (Imm_insn c d a (IMM_INT v)) p m"
  using push_insn_emits [OF prep_label [OF assms(1), of "[]"], of "emit_i_type_instruction d a v (funct3 c) (opc c)"]
    exec_imm_int [OF assms(2), of c d a p] assms(3)
  by (auto simp: emits_def)

lemma imm_correct:
  assumes p: "prep p s" and k: "k \<in> {K_ADDI, K_SLTI, K_XORI}" and c: "opcode_immediate k = Some c"
    and d: "d < 32" and a: "a < 32" and v: "is_within_range_12b v"
  shows "\<exists>f. imm_alu k = Some f \<and> emits (Imm_insn c d a (IMM_INT v)) p (Some (OpImm f d a v))"
proof -
  have "signed_take_bit 11 v = v" using v by (simp add: is_within_range_12b_iff)
  then have "\<exists>f. imm_alu k = Some f \<and>
      rv_decode (emit_i_type_instruction d a v (funct3 c) (opc c)) = Some (OpImm f d a v)"
    using k c d a
    by (auto simp: opcode_tables opcode_init_def opcodes decode_emit_i imm_alu_def)
  then show ?thesis using emits_imm [OF p v] by blast
qed

text \<open>The function codes of \<open>andi\<close> and \<open>ori\<close> are those of \<open>ori\<close> and of the right shifts.\<close>

lemma andi_is_ori:
  assumes p: "prep p s" and c: "opcode_immediate K_ANDI = Some c"
    and d: "d < 32" and a: "a < 32" and v: "is_within_range_12b v"
  shows "emits (Imm_insn c d a (IMM_INT v)) p (Some (OpImm A_OR d a v))"
  using emits_imm [OF p v, of d a c] c d a v
  by (auto simp: opcode_tables opcode_init_def opcodes decode_emit_i is_within_range_12b_iff)

lemma small_shamt:
  assumes "v < 32"
  shows "isa_funct7 (emit_i_type_instruction d a v f3 opn) = 0"
    and "isa_rs2 (emit_i_type_instruction d a v f3 opn) = v"
    and "is_within_range_12b v"
proof -
  have v: "v = take_bit 5 v" using assms by simp
  have "isa_funct7 (emit_i_type_instruction d a (take_bit 5 v) f3 opn) = 0"
    by (rule word32_bitsI) (simp add: emit_i_type_instruction_def itype32_to_uint32_def isa_fields field_simps_rv)
  then show "isa_funct7 (emit_i_type_instruction d a v f3 opn) = 0" using v by simp
  have "isa_rs2 (emit_i_type_instruction d a v f3 opn) = take_bit 5 v"
    by (rule word32_bitsI) (simp add: emit_i_type_instruction_def itype32_to_uint32_def isa_fields field_simps_rv)
  then show "isa_rs2 (emit_i_type_instruction d a v f3 opn) = v" using v by simp
  have "signed_take_bit 11 (take_bit 5 v) = take_bit 5 v"
    by (rule word32_bitsI) (simp add: field_simps_rv)
  then show "is_within_range_12b v" using v by (simp add: is_within_range_12b_iff)
qed

lemma ori_is_srli:
  assumes p: "prep p s" and c: "opcode_immediate K_ORI = Some c"
    and d: "d < 32" and a: "a < 32" and v: "v < 32"
  shows "emits (Imm_insn c d a (IMM_INT v)) p (Some (OpImm A_SRL d a v))"
proof -
  have "rv_decode (emit_i_type_instruction d a v 5 0x13) = Some (OpImm A_SRL d a v)"
    using small_shamt(1,2) [OF v, of d a 5 "0x13"] d a
    by (simp add: rv_decode_def decode_op_imm_def Let_def emit_i_fields)
  then show ?thesis
    using emits_imm [OF p small_shamt(3) [OF v], of d a c] c
    by (auto simp: opcode_tables opcode_init_def opcodes)
qed

section \<open>Register arithmetic\<close>

lemma add_correct:
  assumes p: "prep p s" and c: "opcode K_ADD = Some c" and r: "d < 32" "a < 32" "b < 32"
  shows "emits (Reg_insn c d a b) p (Some (Op A_ADD d a b))"
  using c r by (intro emits_push [OF p, of _ "emit_r_type_instruction 0 a b (funct3 c) d 0x33"])
    (auto simp: exec_instruction_def opcode_def opcode_init_def opcodes decode_op_def decode_emit_r)

text \<open>\<open>funct7\<close> is not used, so \<open>sub\<close> is an addition; \<open>sltiu\<close> is taken for a register form.\<close>

lemma sub_is_add:
  assumes p: "prep p s" and c: "opcode K_SUB = Some c" and r: "d < 32" "a < 32" "b < 32"
  shows "emits (Reg_insn c d a b) p (Some (Op A_ADD d a b))"
  using c r by (intro emits_push [OF p, of _ "emit_r_type_instruction 0 a b (funct3 c) d 0x33"])
    (auto simp: exec_instruction_def opcode_def opcode_init_def opcodes decode_op_def decode_emit_r)

lemma sltiu_is_sltu:
  assumes p: "prep p s" and c: "opcode K_SLTIU = Some c" and r: "d < 32" "a < 32" "b < 32"
  shows "emits (Reg_insn c d a b) p (Some (Op A_SLTU d a b))"
  using c r by (intro emits_push [OF p, of _ "emit_r_type_instruction 0 a b (funct3 c) d 0x33"])
    (auto simp: exec_instruction_def opcode_def opcode_init_def opcodes decode_op_def decode_emit_r)

section \<open>Loads, stores and the rest\<close>

definition load_width :: "keyword \<Rightarrow> width option" where
  "load_width k = (if k = K_LB then Some W_B else if k = K_LH then Some W_H else if k = K_LW then Some W_W
     else if k = K_LBU then Some W_BU else if k = K_LHU then Some W_HU else None)"

definition store_width :: "keyword \<Rightarrow> width option" where
  "store_width k = (if k = K_SB then Some W_B else if k = K_SH then Some W_H else if k = K_SW then Some W_W
     else None)"

lemma load_correct:
  assumes p: "prep p s" and k: "load_width k = Some w" and c: "opcode_load_store k = Some c"
    and r: "d < 32" "a < 32"
  shows "emits (Mem_insn c d i a) p (Some (Load w d a (signed_take_bit 11 i)))"
proof -
  have c': "opc c = 0x03" "decode_load (take_bit 3 (funct3 c)) = Some w"
    using k c by (auto simp: load_width_def opcode_load_store_def opcode_init_def opcodes decode_load_def
        split: if_splits)
  show ?thesis
    by (rule emits_push [OF p, of _ "emit_i_type_instruction d a i (funct3 c) 0x03"])
      (use c' r in \<open>simp_all add: exec_instruction_def is_load_iff decode_emit_load\<close>)
qed

lemma store_correct:
  assumes p: "prep p s" and k: "store_width k = Some w" and c: "opcode_load_store k = Some c"
    and r: "d < 32" "a < 32"
  shows "emits (Mem_insn c d i a) p (Some (Store w d a (signed_take_bit 11 i)))"
proof -
  have c': "opc c = 0x23" "decode_store (take_bit 3 (funct3 c)) = Some w"
    using k c by (auto simp: store_width_def opcode_load_store_def opcode_init_def opcodes decode_store_def
        split: if_splits)
  show ?thesis
    by (rule emits_push [OF p, of _ "emit_s_type_instruction d a i (funct3 c) 0x23"])
      (use c' r in \<open>simp_all add: exec_instruction_def is_load_iff decode_emit_store\<close>)
qed

text \<open>Every mnemonic of the production is a load or a store.\<close>

lemma load_store_covered:
  "opcode_load_store k \<noteq> None \<longleftrightarrow> load_width k \<noteq> None \<or> store_width k \<noteq> None"
  by (simp add: opcode_load_store_def load_width_def store_width_def)

lemma mov_correct:
  assumes p: "prep p s" and r: "d < 32" "a < 32"
  shows "emits (Mov_insn d a) p (Some (OpImm A_ADD d a 0))"
  by (rule emits_push [OF p, of _ "emit_i_type_instruction d a 0 0 0x13"])
    (use r in \<open>simp_all add: exec_instruction_def decode_emit_i\<close>)

lemma ecall_word: "emit_i_type_instruction 0 0 0 0 0x73 = 0x73"
  by (rule word32_bitsI) (simp add: emit_i_type_instruction_def itype32_to_uint32_def field_simps_rv)

lemma ecall_correct:
  assumes p: "prep p s" and c: "opcode K_ECALL = Some c"
  shows "emits (Bare_insn c) p (Some Ecall)"
proof (rule emits_push [OF p])
  show "exec_instruction (Bare_insn c) p = push_insn 0x73 p"
    using c by (auto simp: exec_instruction_def opcode_def opcode_init_def opcodes ecall_word)
  show "rv_decode 0x73 = Some Ecall"
    by (simp add: rv_decode_def isa_opcode_def bits_def Let_def)
qed

text \<open>\<open>ret\<close> jumps to the absolute address 1, not through the return address register.\<close>

lemma ret_target:
  assumes p: "prep p s"
  shows "emits Ret_insn p (Some (Jalr 0 0 1))"
  by (rule emits_push [OF p, of _ "emit_i_type_instruction 0 0 1 0 0x67"])
    (simp_all add: exec_instruction_def JALR_32_def decode_emit_i is_within_range_12b_iff [symmetric] range_defs)

section \<open>Branches and jumps\<close>

lemma exec_branch_known:
  assumes p: "prep p s" and l: "o_labels (s_obj s) l = Some v"
  shows "exec_instruction (Branch_insn c a b l) p = push_insn (emit_b_type_instruction v a b (funct3 c) (opc c))
    (p\<lparr>elf := snd (snd (resolve_label l (elf p)))\<rparr>)"
  using known_refines [OF p l] by (auto simp: exec_instruction_def exec_branch_def)

text \<open>
  A branch back to a known label holds the label's instruction index where the manual has the
  byte distance.
\<close>

lemma known_branch_offset:
  assumes p: "prep p s" and c: "opcode_branch K_BEQ = Some c" and r: "a < 32" "b < 32"
    and l: "o_labels (s_obj s) l = Some v"
  shows "emits (Branch_insn c a b l) p (Some (Branch C_EQ b a (signed_take_bit 12 (v AND NOT 1))))"
proof -
  obtain e where e: "resolve_label l (elf p) = (0, v, e)" "prep (p\<lparr>elf := e\<rparr>) s"
    using known_refines [OF p l] by blast
  have "data (sec_text e) = data (sec_text (elf p))"
    using e(2) p by (simp add: prep_def elf_rep_def)
  then show ?thesis
    using push_insn_emits [OF e(2), of "emit_b_type_instruction v a b 0 0x63"] exec_branch_known [OF p l, of c a b] e(1) c r
    by (auto simp: emits_def opcode_branch_def opcode_init_def opcodes decode_emit_b)
qed

text \<open>
  The entry that an instruction leaves: the number of the next instruction when the current section
  is the text section, and 0 in any other, with that number less one.
\<close>

definition entry_for :: "RISCV32_INST_TYPE \<Rightarrow> string \<Rightarrow> pstate \<Rightarrow> UnresolvedInst32" where
  "entry_for ty l p =
    (let n = (if currentSection p = ''.text'' then of_nat (length (data (sec_text (elf p)))) else 0)
     in \<lparr>insn_number = n, pc_insn_number = n - 1, insn_type = ty, insn_hash = hasher l\<rparr>)"

lemma entry_for_rep:
  "prep p s \<Longrightarrow> entry_for ty l p = \<lparr>insn_number = s_next s, pc_insn_number = s_next s - 1, insn_type = ty, insn_hash = hasher l\<rparr>"
  by (simp add: entry_for_def s_next_def prep_def elf_rep_def Let_def)

text \<open>A forward jump emits no instruction at all; it leaves an entry for the next one.\<close>

lemma forward_jump_emits_nothing:
  assumes p: "prep p s" and l: "o_labels (s_obj s) l = None"
  shows "\<exists>p'. exec_instruction (Jump_insn l) p = Inr p' \<and> prep p' (s_wait J_TYPE l (s_want l s)) \<and>
    data (sec_text (elf p')) = data (sec_text (elf p)) \<and>
    unresolved_instructions (elf p') = unresolved_instructions (elf p) @ [entry_for J_TYPE l p]"
proof -
  obtain e where e: "resolve_label l (elf p) = (- 1, hasher l, e)"
      "prep (add_pending J_TYPE (hasher l) (p\<lparr>elf := e\<rparr>)) (s_wait J_TYPE l (s_want l s))"
    using want_wait_refines [OF p l] by blast
  then have "exec_instruction (Jump_insn l) p = Inr (add_pending J_TYPE (hasher l) (p\<lparr>elf := e\<rparr>))"
    by (simp add: exec_instruction_def exec_jump_def)
  moreover have "data (sec_text (elf q)) = o_text (s_obj t)" "unresolved_instructions (elf q) = o_pending (s_obj t)"
    if "prep q t" for q t
    using that by (simp_all add: prep_def elf_rep_def)
  moreover have "o_text (s_obj (s_wait J_TYPE l (s_want l s))) = o_text (s_obj s)"
    "o_pending (s_obj (s_wait J_TYPE l (s_want l s))) = o_pending (s_obj s) @ [entry_for J_TYPE l p]"
    using l by (simp_all add: s_wait_def s_want_def spec_add_pending_def spec_resolve_label_def entry_for_rep [OF p] s_next_def)
  ultimately show ?thesis using e(2) p by simp
qed

text \<open>
  Resolution overwrites the instruction at the index of the entry: in the text section the one that
  comes next, in any other section the first of the program.
\<close>

lemma forward_jump_overwrites:
  assumes rep: "elf_rep e a" and q: "q \<in> set (unresolved_instructions e)"
    and qq: "q = \<lparr>insn_number = of_nat n, pc_insn_number = of_nat n - 1, insn_type = J_TYPE, insn_hash = hasher l\<rparr>"
    and n: "n < 2 ^ 32" "n < length (data (sec_text e))"
    and d: "distinct (map insn_number (unresolved_instructions e))"
    and v: "v = data (sec_text (resolve_unresolved_instructions junk e)) ! n" and w: "w = data (sec_text e) ! n"
  shows "isa_opcode v = isa_opcode w \<and> isa_rd v = isa_rd w \<and> imm_J v = signed_take_bit 20 (2 *
    ((case map_find (label_to_addr e) (hasher l) of None \<Rightarrow> 0 | Some t \<Rightarrow> t) - (of_nat n - 1)))"
proof -
  have f: "insn_number q = of_nat n" "pc_insn_number q = of_nat n - 1" "insn_type q = J_TYPE" "insn_hash q = hasher l"
    using qq by simp_all
  then have i: "unat (insn_number q) = n" using n(1) by (simp add: unat_of_nat take_bit_nat_eq_self)
  have "v = patch J_TYPE (2 * (spec_target a q - pc_insn_number q)) w"
    using resolve_refines [OF rep, of junk] resolve_patched [of "o_pending a" q a] rep q d n(2) i f(3) v w
    by (simp add: elf_rep_def spec_resolve_def patchable_def)
  moreover have "spec_target a q = (case map_find (label_to_addr e) (hasher l) of None \<Rightarrow> 0 | Some t \<Rightarrow> t)"
    using rep f(4) by (simp add: spec_target_def elf_rep_def)
  ultimately have "v = patch J_TYPE (2 * ((case map_find (label_to_addr e) (hasher l) of None \<Rightarrow> 0 | Some t \<Rightarrow> t) - (of_nat n - 1))) w"
    using f(2) by simp
  then show ?thesis by (simp only: patch_jump_fields simp_thms)
qed

end
