(* ===== verification/Dis_Reader.thy ===== *)
theory Dis_Reader
  imports Elf_File
begin

text \<open>
  The companion tool \<open>tools/dis.cc\<close>, which reads an object file and lists its headers and its
  text section. It is modelled down to the characters it prints. It includes
  \<open>linux/defs.h\<close>, which the repository does not have; the structures and constants are taken
  from \<open>src/defs.h\<close>, the file of the same name.
\<close>

section \<open>Formatted output\<close>

text \<open>
  The part of the state of \<open>std::cout\<close> that the tools use. Base and fill character persist,
  the width is reset by every formatted output. A negative number is written in base 16 as its
  32-bit pattern.
\<close>

record cout =
  co_out :: string
  co_hex :: bool
  co_fill :: char
  co_width :: nat

definition cout_new :: cout where
  "cout_new = \<lparr>co_out = [], co_hex = False, co_fill = CHR '' '', co_width = 0\<rparr>"

text \<open>The operands of a chain of \<open><<\<close>.\<close>

datatype item =
    Str string
  | Num nat
  | Sint i32
  | Setw nat
  | Setfill char
  | Hex
  | Dec

definition put_padded :: "string \<Rightarrow> cout \<Rightarrow> cout" where
  "put_padded s c = c\<lparr>co_out := co_out c @ replicate (co_width c - length s) (co_fill c) @ s, co_width := 0\<rparr>"

fun put :: "item \<Rightarrow> cout \<Rightarrow> cout" where
  "put (Str s) c = put_padded s c"
| "put (Num n) c = put_padded (digits (if co_hex c then 16 else 10) n) c"
| "put (Sint v) c = put_padded (if co_hex c then digits 16 (unat v) else show_int (sint v)) c"
| "put (Setw w) c = c\<lparr>co_width := w\<rparr>"
| "put (Setfill f) c = c\<lparr>co_fill := f\<rparr>"
| "put Hex c = c\<lparr>co_hex := True\<rparr>"
| "put Dec c = c\<lparr>co_hex := False\<rparr>"

definition put_all :: "item list \<Rightarrow> cout \<Rightarrow> cout" where
  "put_all is c = fold put is c"

definition newline :: string where
  "newline = [CHR 0x0A]"

section \<open>File input\<close>

text \<open>
  \<open>std::ifstream\<close>: once the fail bit is set, seeking and reading do nothing. \<open>read\<close> returns
  the bytes it stored; fewer than asked for sets the fail bit.
\<close>

record ifstream =
  if_data :: "byte list"
  if_pos :: nat
  if_fail :: bool

definition if_open :: "byte list \<Rightarrow> ifstream" where
  "if_open bs = \<lparr>if_data = bs, if_pos = 0, if_fail = False\<rparr>"

definition seekg :: "nat \<Rightarrow> ifstream \<Rightarrow> ifstream" where
  "seekg off f = (if if_fail f then f else f\<lparr>if_pos := off\<rparr>)"

definition if_read :: "nat \<Rightarrow> ifstream \<Rightarrow> byte list \<times> ifstream" where
  "if_read n f =
    (if if_fail f then ([], f)
     else let bs = slice (if_pos f) n (if_data f)
          in (bs, f\<lparr>if_pos := if_pos f + length bs, if_fail := length bs < n\<rparr>))"

text \<open>A read into a buffer: the bytes that were not read stay as they were.\<close>

definition read_into :: "byte list \<Rightarrow> nat \<Rightarrow> ifstream \<Rightarrow> (byte list \<times> ifstream) result" where
  "read_into buf n f = (let (bs, f) = if_read n f in
     if length bs > length buf then Inl Undefined else Inr (bs @ drop (length bs) buf, f))"

section \<open>Constants\<close>

definition EI_CLASS :: nat where "EI_CLASS = 4"
definition EI_DATA :: nat where "EI_DATA = 5"
definition EI_VERSION :: nat where "EI_VERSION = 6"
definition EI_OSABI :: nat where "EI_OSABI = 7"
definition ELFCLASS32 :: byte where "ELFCLASS32 = 1"
definition ELFDATA2LSB :: byte where "ELFDATA2LSB = 1"
definition ELFMAG :: "byte list" where "ELFMAG = [0x7f, of_char CHR ''E'', of_char CHR ''L'', of_char CHR ''F'']"
definition SELFMAG :: nat where "SELFMAG = 4"

section \<open>The three listings\<close>

definition print_elf_header :: "Elf32_Ehdr \<Rightarrow> cout \<Rightarrow> cout" where
  "print_elf_header hdr c = put_all
    ([Str (''====== ELF32 Header ======'' @ newline),
      Str ''Magic:      ''] @
     concat (map (\<lambda>i. [Hex, Setw 2, Setfill CHR ''0'', Num (unat (e_ident hdr ! i)), Str '' '']) [0..<EI_NIDENT]) @
     [Str newline,
      Str ''Class:      '', Str (if e_ident hdr ! EI_CLASS = ELFCLASS32 then ''ELF32'' else ''Invalid''), Str newline,
      Str ''Data:       '', Str (if e_ident hdr ! EI_DATA = ELFDATA2LSB then ''Little Endian'' else ''Big Endian''), Str newline,
      Str ''Version:    '', Num (unat (e_ident hdr ! EI_VERSION)), Str newline,
      Str ''OS/ABI:     '', Num (unat (e_ident hdr ! EI_OSABI)), Str newline,
      Str ''Type:       '', Num (unat (e_type hdr)), Str newline,
      Str ''Machine:    '', Num (unat (e_machine hdr)), Str newline,
      Str ''Entry:      0x'', Hex, Num (unat (e_entry hdr)), Str newline,
      Str ''PH offset:  '', Dec, Num (unat (e_phoff hdr)), Str newline,
      Str ''SH offset:  '', Num (unat (e_shoff hdr)), Str newline,
      Str ''Flags:      0x'', Hex, Num (unat (e_flags hdr)), Str newline,
      Str ''EH size:    '', Dec, Num (unat (e_ehsize hdr)), Str newline,
      Str ''PH entsize: '', Num (unat (e_phentsize hdr)), Str newline,
      Str ''PH num:     '', Num (unat (e_phnum hdr)), Str newline,
      Str ''SH entsize: '', Num (unat (e_shentsize hdr)), Str newline,
      Str ''SH num:     '', Num (unat (e_shnum hdr)), Str newline,
      Str ''SH str idx: '', Num (unat (e_shstrndx hdr)), Str newline,
      Str (''============================'' @ newline @ newline)]) c"

text \<open>
  The header table and the name table, as both listings load them. The product of the two
  16-bit members is an \<open>int\<close>, which must not overflow; the index of the name table is not
  checked by the source.
\<close>

definition read_sections :: "Elf32_Ehdr \<Rightarrow> ifstream \<Rightarrow> (Elf32_Shdr list \<times> ifstream) result" where
  "read_sections hdr f =
    (let n = unat (e_shentsize hdr) * unat (e_shnum hdr); k = unat (e_shnum hdr);
         f = seekg (unat (e_shoff hdr)) f
     in if n \<ge> 2 ^ 31 then Inl Undefined
        else andThen (read_into (replicate (k * sizeof_Shdr) 0) n f) (\<lambda>(buf, f).
          Inr (map (\<lambda>i. Shdr_read (slice (i * sizeof_Shdr) sizeof_Shdr buf)) [0..<k], f)))"

definition read_contents :: "Elf32_Shdr \<Rightarrow> ifstream \<Rightarrow> (byte list \<times> ifstream) result" where
  "read_contents sh f =
     read_into (replicate (unat (sh_size sh)) 0) (unat (sh_size sh)) (seekg (unat (sh_offset sh)) f)"

definition read_shstrtab :: "Elf32_Ehdr \<Rightarrow> Elf32_Shdr list \<Rightarrow> ifstream \<Rightarrow> (byte list \<times> ifstream) result" where
  "read_shstrtab hdr secs f =
    (if unat (e_shstrndx hdr) < length secs then read_contents (secs ! unat (e_shstrndx hdr)) f
     else Inl Undefined)"

text \<open>The C string in a buffer; without a terminator the read leaves the buffer.\<close>

definition c_string_at :: "nat \<Rightarrow> byte list \<Rightarrow> string result" where
  "c_string_at i bs = (if 0 \<in> set (drop i bs) then Inr (map (\<lambda>b. char_of (unat b)) (takeWhile (\<lambda>b. b \<noteq> 0) (drop i bs)))
     else Inl Undefined)"

definition section_name :: "Elf32_Shdr \<Rightarrow> byte list \<Rightarrow> string result" where
  "section_name sh strs =
     (if unat (sh_name sh) < length strs then c_string_at (unat (sh_name sh)) strs else Inr ''<bad>'')"

text \<open>The rows of the table of section headers, from index \<open>i\<close> on.\<close>

fun section_rows :: "nat \<Rightarrow> Elf32_Shdr list \<Rightarrow> byte list \<Rightarrow> cout \<Rightarrow> cout result" where
  "section_rows i [] strs c = Inr c"
| "section_rows i (sh # shs) strs c = andThen (section_name sh strs) (\<lambda>name.
     section_rows (Suc i) shs strs (put_all
       [Setw 4, Num i, Str '' '', Setw 18, Str name, Str '' '', Setw 10, Hex, Num (unat (sh_type sh)), Str '' '',
        Str ''0x'', Setw 8, Setfill CHR ''0'', Num (unat (sh_offset sh)), Str '' '',
        Str ''0x'', Setw 8, Num (unat (sh_size sh)), Str '' '',
        Str ''0x'', Setw 8, Num (unat (sh_addr sh)), Dec, Setfill CHR '' '', Str newline] c))"

definition section_table_head :: "item list" where
  "section_table_head =
    [Str (''======= Section Headers ======='' @ newline),
     Setw 4, Str ''Idx'', Str '' '', Setw 18, Str ''Name'', Str '' '', Setw 10, Str ''Type'', Str '' '',
     Setw 10, Str ''Offset'', Str '' '', Setw 10, Str ''Size'', Str '' '', Setw 10, Str ''Addr'', Str newline,
     Str (''---------------------------------------------------------------'' @ newline)]"

text \<open>Results: the stream, the standard output and what was sent to standard error.\<close>

definition print_section_headers :: "ifstream \<Rightarrow> Elf32_Ehdr \<Rightarrow> cout \<Rightarrow> (ifstream \<times> cout \<times> string) result" where
  "print_section_headers file hdr c =
    andThen (read_sections hdr file) (\<lambda>(sections, file).
    if if_fail file then Inr (file, c, ''Failed to read section headers.'' @ newline)
    else andThen (read_shstrtab hdr sections file) (\<lambda>(shstrtab, file).
      andThen (section_rows 0 sections shstrtab (put_all section_table_head c)) (\<lambda>c.
         Inr (file, put_all [Str (''==============================='' @ newline)] c, []))))"

fun find_text :: "Elf32_Shdr list \<Rightarrow> byte list \<Rightarrow> Elf32_Shdr option result" where
  "find_text [] strs = Inr None"
| "find_text (sh # shs) strs = andThen (section_name sh strs) (\<lambda>name.
     if name = ''.text'' then Inr (Some sh) else find_text shs strs)"

text \<open>One line for every four bytes; the address is computed in 64 bits.\<close>

function text_lines :: "nat \<Rightarrow> nat \<Rightarrow> byte list \<Rightarrow> item list" where
  "text_lines addr i text_data =
    (if i \<ge> length text_data then []
     else [Str ''0x'', Setw 8, Setfill CHR ''0'', Hex, Num (addr + i), Str '' : ''] @
       concat (map (\<lambda>b. [Setw 2, Num (unat b), Str '' '']) (slice i 4 text_data)) @
       [Str newline] @ text_lines addr (i + 4) text_data)"
  by auto
termination by (relation "measure (\<lambda>(addr, i, d). length d - i)") auto

declare text_lines.simps [simp del]

definition print_text_section :: "ifstream \<Rightarrow> Elf32_Ehdr \<Rightarrow> cout \<Rightarrow> (ifstream \<times> cout \<times> string) result" where
  "print_text_section file hdr c =
    andThen (read_sections hdr file) (\<lambda>(sections, file).
    andThen (read_shstrtab hdr sections file) (\<lambda>(shstrtab, file).
    andThen (find_text sections shstrtab) (\<lambda>text_sh.
    case text_sh of
      None \<Rightarrow> Inr (file, c, ''No .text section found.'' @ newline)
    | Some sh \<Rightarrow> andThen (read_contents sh file) (\<lambda>(text_data, file).
        Inr (file, put_all
          ([Str (''======= .text Section (instructions) ======='' @ newline),
            Str ''Addr: 0x'', Hex, Num (unat (sh_addr sh)), Str newline] @
           text_lines (unat (sh_addr sh)) 0 text_data @
           [Str (''==========================================='' @ newline)]) c, [])))))"

text \<open>
  \<open>main\<close>: the arguments with the program name first, and the files that can be opened for
  reading. The result is the exit status with both outputs.
\<close>

definition dis_main :: "string list \<Rightarrow> files \<Rightarrow> (int \<times> string \<times> string) result" where
  "dis_main argv fs =
    (case argv of
       [] \<Rightarrow> Inl Undefined
     | [prog, filename] \<Rightarrow>
       (case fs filename of
         None \<Rightarrow> Inr (1, [], ''Failed to open file: '' @ filename @ newline)
       | Some content \<Rightarrow>
        (let (bs, file) = if_read sizeof_Ehdr (if_open content); hdr = Ehdr_read bs in
         if if_fail file then Inr (1, [], ''Failed to read ELF header.'' @ newline)
         else if take SELFMAG (e_ident hdr) \<noteq> ELFMAG then Inr (1, [], ''Not an ELF file.'' @ newline)
         else if e_ident hdr ! EI_CLASS \<noteq> ELFCLASS32 then Inr (1, [], ''Not a 32-bit ELF file.'' @ newline)
         else
           let c = print_elf_header hdr cout_new in
           andThen (print_section_headers file hdr c) (\<lambda>(file, c, err1).
           andThen (print_text_section file hdr c) (\<lambda>(file, c, err2).
           Inr (0, co_out c, err1 @ err2)))))
     | prog # _ \<Rightarrow> Inr (1, [], ''Usage: '' @ prog @ '' <elf32_file>'' @ newline))"

section \<open>Reading a file that the assembler wrote\<close>

text \<open>An open file with given contents and no failure so far.\<close>

definition reading :: "byte list \<Rightarrow> ifstream \<Rightarrow> bool" where
  "reading bs f \<longleftrightarrow> if_data f = bs \<and> \<not> if_fail f"

lemma read_into_ok:
  assumes "reading bs f" and "off + n \<le> length bs" and "length buf = n"
  shows "\<exists>f'. read_into buf n (seekg off f) = Inr (slice off n bs, f') \<and> reading bs f'"
  using assms by (simp add: reading_def read_into_def seekg_def if_read_def Let_def layout)

lemma read_sections_ok:
  assumes small: "length (file_of a) < 2 ^ 32" and f: "reading (file_of a) f"
  shows "\<exists>f'. read_sections (ehdr_of a) f = Inr (shdrs_of a, f') \<and> reading (file_of a) f'"
proof -
  have n: "unat (e_shentsize (ehdr_of a)) = 40" "unat (e_shnum (ehdr_of a)) = 6"
    by (simp_all add: ehdr_of_def ehdr_template_def sizeof_defs)
  let ?off = "sizeof_Ehdr + length (body_of a)"
  have le: "?off + 240 \<le> length (file_of a)" by (simp add: length_file_of sizeof_defs)
  obtain f' where f': "read_into (replicate 240 0) 240 (seekg ?off f) = Inr (slice ?off 240 (file_of a), f')"
      "reading (file_of a) f'"
    using read_into_ok [OF f le, of "replicate 240 0"] by auto
  have "slice (i * 40) 40 (slice ?off 240 (file_of a)) = slice (?off + i * 40) 40 (file_of a)" if "i < 6" for i
    using that by (intro slice_slice) simp
  then have "map (\<lambda>i. Shdr_read (slice (i * 40) 40 (slice ?off 240 (file_of a)))) [0..<6] =
      map (\<lambda>i. Shdr_read (slice (?off + i * 40) 40 (file_of a))) [0..<6]"
    by (intro map_cong refl) simp
  also have "\<dots> = shdrs_of a"
    using file_shdrs [of a] by (simp only: sizeof_Shdr_def)
  finally have "map (\<lambda>i. Shdr_read (slice (i * 40) 40 (slice ?off 240 (file_of a)))) [0..<6] = shdrs_of a" .
  then show ?thesis
    using f' e_shoff_of [OF small] by (simp add: read_sections_def n Let_def sizeof_Shdr_def)
qed

lemma piece_in_file:
  assumes small: "length (file_of a) < 2 ^ 32" and "(i, bs) \<in> set (pieces a)"
  shows "unat (sh_offset (shdrs_of a ! i)) + unat (sh_size (shdrs_of a ! i)) \<le> length (file_of a)"
proof -
  have len: "length (file_of a) = sizeof_Ehdr + length (text_bytes a) + length (o_data a) +
      length (strtab_of a) + length shstrtab_of + length (symtab_of a) + 6 * sizeof_Shdr"
    by (simp add: length_file_of body_of_def pieces_def)
  note small' = small [unfolded len]
  show ?thesis
    using assms(2) small' unfolding len
    by (auto simp: pieces_def shdrs_of_def Let_def unat_small simp flip: of_nat_add)
qed

lemma read_contents_ok:
  assumes small: "length (file_of a) < 2 ^ 32" and i: "(i, bs) \<in> set (pieces a)"
    and f: "reading (file_of a) f"
  shows "\<exists>f'. read_contents (shdrs_of a ! i) f = Inr (bs, f') \<and> reading (file_of a) f'"
  using read_into_ok [OF f piece_in_file [OF small i], of "replicate (unat (sh_size (shdrs_of a ! i))) 0"]
    file_pieces [OF small i]
  by (simp add: read_contents_def)

lemma read_shstrtab_ok:
  assumes "length (file_of a) < 2 ^ 32" and "reading (file_of a) f"
  shows "\<exists>f'. read_shstrtab (ehdr_of a) (shdrs_of a) f = Inr (shstrtab_of, f') \<and> reading (file_of a) f'"
  using read_contents_ok [OF assms(1) _ assms(2), of 2 shstrtab_of]
  by (simp add: read_shstrtab_def ehdr_of_def pieces_def)

text \<open>The names that the header table gives.\<close>

lemma unat_of_char: "unat (of_char c :: byte) = of_char c"
proof -
  have "unat (of_nat (of_char c) :: byte) = of_char c mod 256"
    by (simp add: unat_of_nat take_bit_eq_mod)
  then show ?thesis by (simp add: of_nat_of_char)
qed

lemma of_char_byte_0: "(of_char c :: byte) = 0 \<longleftrightarrow> c = NUL"
proof
  assume "(of_char c :: byte) = 0"
  then have "(of_char c :: nat) = 0" using unat_of_char [of c] by simp
  then have "(of_char c :: nat) = of_char NUL" by simp
  then show "c = NUL" by (rule of_char_eqI)
qed simp

lemma c_string_at_of_char:
  "c_string_at i (map of_char s) = (if NUL \<in> set (drop i s) then Inr (c_str (drop i s)) else Inl Undefined)"
proof -
  have "takeWhile (\<lambda>b :: byte. b \<noteq> 0) (map of_char t) = map of_char (takeWhile (\<lambda>c. c \<noteq> NUL) t)" for t
    by (induction t) (simp_all add: of_char_byte_0)
  moreover have "(0 :: byte) \<in> set (map of_char t) \<longleftrightarrow> NUL \<in> set t" for t
    by (induction t) (auto simp: of_char_byte_0 eq_commute [of 0])
  ultimately show ?thesis
    by (simp add: c_string_at_def c_str_def drop_map unat_of_char comp_def del: set_map)
qed

lemma strtab_section_names:
  "strtab_bytes section_names = NUL # ''.shstrtab'' @ NUL # ''.strtab'' @ NUL # ''.symtab'' @
     NUL # ''.text'' @ NUL # ''.data'' @ [NUL, NUL]"
  by (simp add: strtab_bytes_def section_names_def)

lemma section_names_ok:
  assumes "i < 6"
  shows "section_name (shdrs_of a ! i) shstrtab_of =
    Inr ([[], ''.strtab'', ''.shstrtab'', ''.symtab'', ''.text'', ''.data''] ! i)"
proof -
  have "i \<in> set [0, 1, 2, 3, 4, 5]" using assms by auto
  then show ?thesis
    by (auto simp: section_name_def shdrs_of_def Let_def hdr_templates_def zero_Shdr_def shstrtab_of_def
        strtab_section_names c_string_at_of_char c_str_def simp del: list.map)
qed

lemma find_text_ok: "find_text (shdrs_of a) shstrtab_of = Inr (Some (shdrs_of a ! 4))"
proof -
  obtain h0 h1 h2 h3 h4 h5 where hp: "shdrs_of a = [h0, h1, h2, h3, h4, h5]"
    using list6E length_shdrs_of by blast
  then show ?thesis
    using section_names_ok [of 0 a] section_names_ok [of 1 a] section_names_ok [of 2 a]
      section_names_ok [of 3 a] section_names_ok [of 4 a]
    by (simp add: eval_nat_numeral)
qed

section \<open>The listing of the text section\<close>

text \<open>What a line per instruction looks like: the address and the four bytes, in hexadecimal.\<close>

definition hex_padded :: "nat \<Rightarrow> nat \<Rightarrow> string" where
  "hex_padded w n = replicate (w - length (digits 16 n)) CHR ''0'' @ digits 16 n"

definition text_line :: "nat \<Rightarrow> u32 \<Rightarrow> string" where
  "text_line addr w = ''0x'' @ hex_padded 8 addr @ '' : '' @
     concat (map (\<lambda>b. hex_padded 2 (unat b) @ '' '') (write_bytes w LE)) @ newline"

fun text_listing :: "nat \<Rightarrow> u32 list \<Rightarrow> string" where
  "text_listing addr [] = []"
| "text_listing addr (w # ws) = text_line addr w @ text_listing (addr + 4) ws"

definition line_items :: "nat \<Rightarrow> u32 \<Rightarrow> item list" where
  "line_items addr w = [Str ''0x'', Setw 8, Setfill CHR ''0'', Hex, Num addr, Str '' : ''] @
     concat (map (\<lambda>b. [Setw 2, Num (unat b), Str '' '']) (write_bytes w LE)) @ [Str newline]"

fun word_items :: "nat \<Rightarrow> u32 list \<Rightarrow> item list" where
  "word_items addr [] = []"
| "word_items addr (w # ws) = line_items addr w @ word_items (addr + 4) ws"

text \<open>The loop over the bytes in steps of four is a loop over the words.\<close>

lemma text_lines_words:
  "i = length pre \<Longrightarrow> text_lines addr i (pre @ concat (map (\<lambda>w. write_bytes w LE) ws)) = word_items (addr + i) ws"
proof (induction ws arbitrary: pre i)
  case Nil
  then show ?case by (simp add: text_lines.simps)
next
  case (Cons w ws)
  have w: "length (write_bytes w LE) = 4" by (simp add: layout)
  have "text_lines addr (i + 4) ((pre @ write_bytes w LE) @ concat (map (\<lambda>w. write_bytes w LE) ws)) =
      word_items (addr + (i + 4)) ws"
    by (rule Cons.IH) (simp add: w Cons.prems)
  then show ?case
    by (subst text_lines.simps) (simp add: Cons.prems w slice_middle line_items_def add.assoc)
qed

lemma put_all_simps [simp]:
  "put_all [] c = c" "put_all (i # is) c = put_all is (put i c)"
  "put_all (is @ js) c = put_all js (put_all is c)"
  by (simp_all add: put_all_def)

lemma put_bytes:
  assumes "co_hex c" and "co_fill c = CHR ''0''" and "co_width c = 0"
  shows "put_all (concat (map (\<lambda>b. [Setw 2, Num (unat b), Str '' '']) bs)) c =
    c\<lparr>co_out := co_out c @ concat (map (\<lambda>b. hex_padded 2 (unat b) @ '' '') bs)\<rparr>"
  using assms by (induction bs arbitrary: c) (simp_all add: put_padded_def hex_padded_def)

lemma put_line:
  "co_width c = 0 \<Longrightarrow> put_all (line_items addr w) c =
     c\<lparr>co_out := co_out c @ text_line addr w, co_hex := True, co_fill := CHR ''0''\<rparr>"
  by (simp add: line_items_def put_bytes put_padded_def text_line_def hex_padded_def)

lemma put_word_items:
  "co_width c = 0 \<Longrightarrow> co_out (put_all (word_items addr ws) c) = co_out c @ text_listing addr ws
     \<and> co_width (put_all (word_items addr ws) c) = 0"
  by (induction ws arbitrary: addr c) (simp_all add: put_line)

text \<open>The output only grows.\<close>

lemma put_extends: "\<exists>s. co_out (put i c) = co_out c @ s"
  by (cases i) (auto simp: put_padded_def)

lemma put_all_extends: "\<exists>s. co_out (put_all is c) = co_out c @ s"
proof (induction "is" arbitrary: c)
  case (Cons i "is")
  then show ?case using put_extends [of i c] by (metis append.assoc put_all_simps(2))
qed simp

text \<open>The text section as the tool prints it.\<close>

definition text_section_output :: "u32 list \<Rightarrow> string" where
  "text_section_output ws = ''======= .text Section (instructions) ======='' @ newline @ ''Addr: 0x0'' @ newline @
     text_listing 0 ws @ ''==========================================='' @ newline"

lemma digits_0: "digits b 0 = ''0''"
proof -
  have "digit_char 0 = CHR ''0''"
    by (rule of_char_eqI [where 'a = nat]) (simp add: digit_char.simps)
  then show ?thesis by (subst digits.simps) auto
qed

lemma print_text_section_ok:
  assumes small: "length (file_of a) < 2 ^ 32" and f: "reading (file_of a) f" and c: "co_width c = 0"
  shows "\<exists>f' c'. print_text_section f (ehdr_of a) c = Inr (f', c', []) \<and>
    co_out c' = co_out c @ text_section_output (o_text a)"
proof -
  obtain f1 where f1: "read_sections (ehdr_of a) f = Inr (shdrs_of a, f1)" "reading (file_of a) f1"
    using read_sections_ok [OF small f] by blast
  obtain f2 where f2: "read_shstrtab (ehdr_of a) (shdrs_of a) f1 = Inr (shstrtab_of, f2)" "reading (file_of a) f2"
    using read_shstrtab_ok [OF small f1(2)] by blast
  have "(4, text_bytes a) \<in> set (pieces a)" by (simp add: pieces_def)
  then obtain f3 where f3: "read_contents (shdrs_of a ! 4) f2 = Inr (text_bytes a, f3)"
    using read_contents_ok [OF small _ f2(2)] by blast
  have addr: "unat (sh_addr (shdrs_of a ! 4)) = 0"
    by (simp add: shdrs_of_def Let_def hdr_templates_def zero_Shdr_def)
  have lines: "text_lines 0 0 (text_bytes a) = word_items 0 (o_text a)"
    using text_lines_words [of 0 "[]" 0 "o_text a"] by (simp add: text_bytes_def)
  show ?thesis
    using c put_word_items
    by (simp add: print_text_section_def f1 f2 f3 find_text_ok addr lines put_padded_def
        text_section_output_def digits_0)
qed

text \<open>The table of section headers is printed without running out of the buffers.\<close>

lemma section_rows_ok:
  "\<forall>sh \<in> set shs. \<exists>n. section_name sh strs = Inr n \<Longrightarrow> co_width c = 0 \<Longrightarrow>
     \<exists>c'. section_rows i shs strs c = Inr c' \<and> co_width c' = 0"
proof (induction shs arbitrary: i c)
  case (Cons sh shs)
  then obtain n where "section_name sh strs = Inr n" by auto
  then show ?case using Cons by (simp add: put_padded_def)
qed simp

lemma print_section_headers_ok:
  assumes small: "length (file_of a) < 2 ^ 32" and f: "reading (file_of a) f"
  shows "\<exists>f' c'. print_section_headers f (ehdr_of a) c = Inr (f', c', []) \<and>
    reading (file_of a) f' \<and> co_width c' = 0"
proof -
  obtain f1 where f1: "read_sections (ehdr_of a) f = Inr (shdrs_of a, f1)" "reading (file_of a) f1"
    using read_sections_ok [OF small f] by blast
  obtain f2 where f2: "read_shstrtab (ehdr_of a) (shdrs_of a) f1 = Inr (shstrtab_of, f2)" "reading (file_of a) f2"
    using read_shstrtab_ok [OF small f1(2)] by blast
  have named: "\<forall>sh \<in> set (shdrs_of a). \<exists>n. section_name sh shstrtab_of = Inr n"
    using section_names_ok by (auto simp: in_set_conv_nth)
  have "co_width (put_all section_table_head c) = 0"
    by (simp add: section_table_head_def put_padded_def)
  then obtain c' where "section_rows 0 (shdrs_of a) shstrtab_of (put_all section_table_head c) = Inr c'"
      "co_width c' = 0"
    using section_rows_ok [OF named] by blast
  then show ?thesis
    using f1 f2 by (simp add: print_section_headers_def reading_def put_padded_def)
qed

text \<open>
  The tool accepts every file that the assembler writes, and its listing of the text section
  shows the instructions.
\<close>

lemma dis_main_listing:
  assumes small: "length (file_of a) < 2 ^ 32" and "fs name = Some (file_of a)"
  shows "\<exists>front. dis_main [prog, name] fs = Inr (0, front @ text_section_output (o_text a), [])"
proof -
  define f where "f = snd (if_read sizeof_Ehdr (if_open (file_of a)))"
  have le: "sizeof_Ehdr \<le> length (file_of a)" by (simp add: length_file_of)
  have rd: "if_read sizeof_Ehdr (if_open (file_of a)) = (slice 0 sizeof_Ehdr (file_of a), f)"
    by (simp add: f_def if_read_def if_open_def Let_def)
  have f: "reading (file_of a) f"
    using le by (simp add: f_def if_read_def if_open_def Let_def reading_def layout)
  have magic: "take SELFMAG (e_ident (ehdr_of a)) = ELFMAG" "e_ident (ehdr_of a) ! EI_CLASS = ELFCLASS32"
    by (simp_all add: ehdr_of_def ehdr_template_def SELFMAG_def ELFMAG_def EI_CLASS_def ELFCLASS32_def)
  let ?c = "print_elf_header (ehdr_of a) cout_new"
  obtain f1 c1 where p1: "print_section_headers f (ehdr_of a) ?c = Inr (f1, c1, [])"
      "reading (file_of a) f1" "co_width c1 = 0"
    using print_section_headers_ok [OF small f] by blast
  obtain f2 c2 where p2: "print_text_section f1 (ehdr_of a) c1 = Inr (f2, c2, [])"
      "co_out c2 = co_out c1 @ text_section_output (o_text a)"
    using print_text_section_ok [OF small p1(2,3)] by blast
  show ?thesis
    using assms(2) f magic p1(1) p2 by (simp add: dis_main_def rd file_ehdr Let_def reading_def)
qed

section \<open>The symbol table in the file\<close>

text \<open>The entries of the abstract table, and where the names are.\<close>

lemma sym_entries_nth:
  "i < length xs \<Longrightarrow> sym_entries ns xs ! i = (case xs ! i of (n, v, x) \<Rightarrow>
     zero_Sym\<lparr>st_name := of_nat (strtab_offset (ns @ map fst (take i xs))), st_value := v, st_shndx := x\<rparr>)"
proof (induction xs arbitrary: ns i)
  case (Cons p xs)
  obtain n v x where p: "p = (n, v, x)" by (cases p) auto
  show ?case using Cons p by (cases i) auto
qed simp

lemma strtab_drop:
  assumes "i < length ns"
  shows "drop (strtab_offset (take i ns)) (strtab_bytes ns) =
    ns ! i @ NUL # concat (map (\<lambda>s. s @ [NUL]) (drop (Suc i) ns)) @ [NUL]"
proof -
  let ?pre = "NUL # concat (map (\<lambda>s. s @ [NUL]) (take i ns))"
  have "strtab_bytes ns = strtab_bytes (take i ns @ ns ! i # drop (Suc i) ns)"
    by (metis assms id_take_nth_drop)
  also have "\<dots> = ?pre @ ns ! i @ NUL # concat (map (\<lambda>s. s @ [NUL]) (drop (Suc i) ns)) @ [NUL]"
    by (simp add: strtab_bytes_split)
  finally have split: "strtab_bytes ns = ?pre @ ns ! i @ NUL # concat (map (\<lambda>s. s @ [NUL]) (drop (Suc i) ns)) @ [NUL]" .
  have pre: "strtab_offset (take i ns) = length ?pre" by (simp add: strtab_offset_def)
  show ?thesis unfolding pre split by (rule append_eq_conv_conj [THEN iffD1, THEN conjunct2, symmetric, OF refl])
qed

lemma strtab_offset_less: "i < length ns \<Longrightarrow> strtab_offset (take i ns) < length (strtab_bytes ns)"
  using strtab_drop [of i ns] by (metis Nil_is_append_conv drop_eq_Nil list.discI not_le)

lemma strtab_of_length: "length (strtab_of a) = length (strtab_bytes (map fst (o_syms a)))"
  by (simp add: strtab_of_def)

lemma piece_le_file: "(i, bs) \<in> set (pieces a) \<Longrightarrow> length bs \<le> length (file_of a)"
  by (auto simp: length_file_of body_of_def pieces_def)

text \<open>
  Reading a file through its headers: header \<open>i\<close>, entry \<open>i\<close> of the symbol table (header 3), and the
  string of the string table (header 1) to which the name offset of an entry leads.
\<close>

definition header_in_file :: "byte list \<Rightarrow> nat \<Rightarrow> Elf32_Shdr" where
  "header_in_file f i =
     Shdr_read (slice (unat (e_shoff (Ehdr_read (slice 0 sizeof_Ehdr f))) + i * sizeof_Shdr) sizeof_Shdr f)"

definition symbol_in_file :: "byte list \<Rightarrow> nat \<Rightarrow> Elf32_Sym" where
  "symbol_in_file f i = Sym_read (slice (unat (sh_offset (header_in_file f 3)) + i * sizeof_Sym) sizeof_Sym f)"

definition name_in_file :: "byte list \<Rightarrow> Elf32_Sym \<Rightarrow> string result" where
  "name_in_file f y = c_string_at (unat (st_name y))
     (slice (unat (sh_offset (header_in_file f 1))) (unat (sh_size (header_in_file f 1))) f)"

lemma header_in_file_of:
  assumes "length (file_of a) < 2 ^ 32" and "i < 6"
  shows "header_in_file (file_of a) i = shdrs_of a ! i"
proof -
  have "map (header_in_file (file_of a)) [0..<6] = shdrs_of a"
    using file_shdrs [of a] by (simp add: header_in_file_def [abs_def] file_ehdr e_shoff_of [OF assms(1)])
  from arg_cong [OF this, of "\<lambda>xs. xs ! i"] show ?thesis using assms(2) by (simp del: upt_rec_numeral)
qed

lemma symbol_in_file_of:
  assumes small: "length (file_of a) < 2 ^ 32" and i: "i \<le> length (o_syms a)"
  shows "symbol_in_file (file_of a) i = (zero_Sym # sym_entries [] (o_syms a)) ! i"
proof -
  let ?table = "zero_Sym # sym_entries [] (o_syms a)" and ?o = "unat (sh_offset (shdrs_of a ! 3))"
  have in3: "(3, symtab_of a) \<in> set (pieces a)"
    by (simp add: pieces_def)
  have size: "unat (sh_size (shdrs_of a ! 3)) = length ?table * sizeof_Sym"
  proof -
    have "sh_size (shdrs_of a ! 3) = of_nat (length (symtab_of a))"
      by (simp add: shdrs_of_def Let_def)
    moreover have "length (symtab_of a) < 2 ^ 32" using piece_le_file [OF in3] small by linarith
    moreover have "length (symtab_of a) = length ?table * sizeof_Sym"
      unfolding symtab_of_def by (rule sym.length_table) simp
    ultimately show ?thesis using unat_small by metis
  qed
  have slice: "slice ?o (length ?table * sizeof_Sym) (file_of a) = symtab_of a"
    using file_pieces [OF small in3] size by simp
  have lt: "i < length ?table" using i by simp
  then have "i * sizeof_Sym + sizeof_Sym \<le> length ?table * sizeof_Sym"
    by (simp add: sizeof_Sym_def)
  from slice_slice [OF this, of ?o "file_of a"]
  have at: "slice (?o + i * sizeof_Sym) sizeof_Sym (file_of a) = slice (i * sizeof_Sym) sizeof_Sym (symtab_of a)"
    unfolding slice by simp
  have "Sym_read (slice (i * sizeof_Sym) sizeof_Sym (symtab_of a)) = ?table ! i"
    using sym.dec_table_in [of ?table i 0 "[]" "[]"] lt by (simp add: symtab_of_def)
  then show ?thesis unfolding symbol_in_file_def by (simp add: header_in_file_of [OF small] at)
qed

lemma file_symbols:
  assumes small: "length (file_of a) < 2 ^ 32" and i: "o_syms a = xs @ (n, v, x) # ys" and nf: "nul_free n"
    and y: "y = symbol_in_file (file_of a) (Suc (length xs))"
  shows "name_in_file (file_of a) y = Inr n \<and> st_value y = v \<and> st_shndx y = x \<and> st_info y = 0"
proof -
  let ?ns = "map fst (o_syms a)" and ?i = "length xs"
  have in1: "(1, strtab_of a) \<in> set (pieces a)" by (simp add: pieces_def)
  have ii: "?i < length ?ns" "?ns ! ?i = n" "?i < length (o_syms a)" "o_syms a ! ?i = (n, v, x)" using i by (simp_all add: nth_append)
  have y: "y = zero_Sym\<lparr>st_name := of_nat (strtab_offset (take ?i ?ns)), st_value := v, st_shndx := x\<rparr>"
    using symbol_in_file_of [OF small, of "Suc ?i"] ii y by (simp add: sym_entries_nth take_map)
  have off: "strtab_offset (take ?i ?ns) < 2 ^ 32"
    using strtab_offset_less [OF ii(1)] piece_le_file [OF in1] small strtab_of_length [of a] by linarith
  have "c_string_at (strtab_offset (take ?i ?ns)) (strtab_of a) = Inr n"
    unfolding strtab_of_def c_string_at_of_char strtab_drop [OF ii(1)]
    using nf ii(2) by (simp add: c_str_append)
  moreover have "slice (unat (sh_offset (shdrs_of a ! 1))) (unat (sh_size (shdrs_of a ! 1))) (file_of a) = strtab_of a"
    by (rule file_pieces [OF small in1])
  ultimately show ?thesis
    using off by (simp add: name_in_file_def header_in_file_of [OF small] y unat_small zero_Sym_def)
qed

lemma sym_entries_prefix: "i < length xs \<Longrightarrow> sym_entries ns (xs @ ys) ! i = sym_entries ns xs ! i"
  by (simp add: sym_entries_nth nth_append)

text \<open>A label and a datum that are added to an object, in the file that is written then.\<close>

theorem file_gets_symbols:
  assumes rep: "elf_rep e a" and l: "\<not> label_exists l e"
    and e1: "init_label l g sec e = Inr e1" and e2: "add_program_data n v dsec e1 = Inr e2"
    and e3: "ELF32_serialize e2 os_empty = Inr (e3, os)" and small: "length (os_buf os) < 2 ^ 32"
    and k: "k = length (data (symtab e))"
    and y: "y = symbol_in_file (os_buf os) k" and z: "z = symbol_in_file (os_buf os) (Suc k)"
  shows "map (symbol_in_file (os_buf os)) [0..<k] = data (symtab e)"
    and "name_in_file (os_buf os) y = Inr (c_str l) \<and> st_value y = 0 \<and> st_info y = 0 \<and>
      st_shndx y = ucast (case map_find (section_to_idx e) sec of None \<Rightarrow> 0 | Some i \<Rightarrow> i)"
    and "name_in_file (os_buf os) z = Inr (c_str n) \<and> st_value z = of_nat (length (data (sec_data e))) \<and> st_info z = 0 \<and>
      st_shndx z = ucast (case map_find (section_to_idx e) dsec of None \<Rightarrow> 0 | Some i \<Rightarrow> i)"
proof -
  have a: "o_labels a l = None" "map_find (section_to_idx e) = o_index a" "length (o_data a) = length (data (sec_data e))"
    "data (symtab e) = zero_Sym # sym_entries [] (o_syms a)"
    using rep l label_exists_iff [OF rep, of l] by (auto simp: elf_rep_def)
  let ?x = "(c_str l, 0 :: u32, ucast (case o_index a sec of None \<Rightarrow> 0 | Some i \<Rightarrow> i) :: u16)"
  let ?z = "(c_str n, of_nat (length (o_data a)) :: u32, ucast (case o_index a dsec of None \<Rightarrow> 0 | Some i \<Rightarrow> i) :: u16)"
  define b where "b = spec_add_data n v dsec (spec_init_label l sec a)"
  have "elf_rep e1 (spec_init_label l sec a)" using init_label_refines [OF rep, of l g sec] e1 by auto
  then have "elf_rep e2 b" using add_program_data_refines [of e1 _ n v dsec] e2 by (auto simp: b_def)
  then have f: "os_buf os = file_of b" using serialize_refines [of e2 b] e3 by auto
  have syms: "o_syms b = o_syms a @ [?x, ?z]"
    using a(1) by (simp add: b_def spec_init_label_def spec_add_data_def Let_def)
  have small': "length (file_of b) < 2 ^ 32" using small f by simp
  have k': "k = Suc (length (o_syms a))" using k a(4) by simp
  show "map (symbol_in_file (os_buf os)) [0..<k] = data (symtab e)"
  proof (rule nth_equalityI)
    fix i assume "i < length (map (symbol_in_file (os_buf os)) [0..<k])"
    then have i: "i < k" by simp
    then have "symbol_in_file (file_of b) i = (zero_Sym # sym_entries [] (o_syms b)) ! i"
      using symbol_in_file_of [OF small', of i] k' syms by simp
    also have "\<dots> = data (symtab e) ! i"
      using i k' syms a(4) sym_entries_prefix [of _ "o_syms a" "[]"] by (cases i) simp_all
    finally show "map (symbol_in_file (os_buf os)) [0..<k] ! i = data (symtab e) ! i" using i f by simp
  qed (simp add: k)
  show "name_in_file (os_buf os) y = Inr (c_str l) \<and> st_value y = 0 \<and> st_info y = 0 \<and>
      st_shndx y = ucast (case map_find (section_to_idx e) sec of None \<Rightarrow> 0 | Some i \<Rightarrow> i)"
    using file_symbols [OF small', of "o_syms a" "fst ?x" "fst (snd ?x)" "snd (snd ?x)" "[?z]" y] syms y k' f a(2) by simp
  show "name_in_file (os_buf os) z = Inr (c_str n) \<and> st_value z = of_nat (length (data (sec_data e))) \<and> st_info z = 0 \<and>
      st_shndx z = ucast (case map_find (section_to_idx e) dsec of None \<Rightarrow> 0 | Some i \<Rightarrow> i)"
    using file_symbols [OF small', of "o_syms a @ [?x]" "fst ?z" "fst (snd ?z)" "snd (snd ?z)" "[]" z] syms z k' f a(2,3) by simp
qed

end
