(* ===== verification/Lexer_Facts.thy ===== *)
theory Lexer_Facts
  imports Lexer
begin

text \<open>
  Consequences for particular inputs: the register names of the psABI and decimal numerals.
\<close>

section \<open>What particular inputs scan to\<close>

text \<open>The names that the psABI gives the registers, in the order of their numbers.\<close>

definition abi_names :: "string list" where
  "abi_names = [''zero'', ''ra'', ''sp'', ''gp'', ''tp'', ''t0'', ''t1'', ''t2'', ''s0'', ''s1'',
     ''a0'', ''a1'', ''a2'', ''a3'', ''a4'', ''a5'', ''a6'', ''a7'', ''s2'', ''s3'', ''s4'', ''s5'',
     ''s6'', ''s7'', ''s8'', ''s9'', ''s10'', ''s11'', ''t3'', ''t4'', ''t5'', ''t6'']"

definition x_names :: "string list" where
  "x_names = [''x0'', ''x1'', ''x2'', ''x3'', ''x4'', ''x5'', ''x6'', ''x7'', ''x8'', ''x9'', ''x10'',
     ''x11'', ''x12'', ''x13'', ''x14'', ''x15'', ''x16'', ''x17'', ''x18'', ''x19'', ''x20'', ''x21'',
     ''x22'', ''x23'', ''x24'', ''x25'', ''x26'', ''x27'', ''x28'', ''x29'', ''x30'', ''x31'']"

lemma abi_names_scan_a: "map yylex_all [''zero'', ''ra'', ''sp'', ''gp'', ''tp'', ''t0'', ''t1'', ''t2'']
    = map (\<lambda>i. [T_REG (of_nat i)]) [0..<8]"
  by code_simp

lemma abi_names_scan_b: "map yylex_all [''s0'', ''s1'', ''a0'', ''a1'', ''a2'', ''a3'', ''a4'', ''a5'']
    = map (\<lambda>i. [T_REG (of_nat i)]) [8..<16]"
  by code_simp

lemma abi_names_scan_c: "map yylex_all [''a6'', ''a7'', ''s2'', ''s3'', ''s4'', ''s5'', ''s6'', ''s7'']
    = map (\<lambda>i. [T_REG (of_nat i)]) [16..<24]"
  by code_simp

lemma abi_names_scan_d: "map yylex_all [''s8'', ''s9'', ''s10'', ''s11'', ''t3'', ''t4'', ''t5'', ''t6'']
    = map (\<lambda>i. [T_REG (of_nat i)]) [24..<32]"
  by code_simp

lemma abi_names_scan: "map yylex_all abi_names = map (\<lambda>i. [T_REG (of_nat i)]) [0..<32]"
  using abi_names_scan_a abi_names_scan_b abi_names_scan_c abi_names_scan_d by (simp add: abi_names_def upt_rec)

lemma x_names_scan_a: "map yylex_all [''x0'', ''x1'', ''x2'', ''x3'', ''x4'', ''x5'', ''x6'', ''x7'']
    = map (\<lambda>i. [T_REG (of_nat i)]) [0..<8]"
  by code_simp

lemma x_names_scan_b: "map yylex_all [''x8'', ''x9'', ''x10'', ''x11'', ''x12'', ''x13'', ''x14'', ''x15'']
    = map (\<lambda>i. [T_REG (of_nat i)]) [8..<16]"
  by code_simp

lemma x_names_scan_c: "map yylex_all [''x16'', ''x17'', ''x18'', ''x19'', ''x20'', ''x21'', ''x22'', ''x23'']
    = map (\<lambda>i. [T_REG (of_nat i)]) [16..<24]"
  by code_simp

lemma x_names_scan_d: "map yylex_all [''x24'', ''x25'', ''x26'', ''x27'', ''x28'', ''x29'', ''x30'', ''x31'']
    = map (\<lambda>i. [T_REG (of_nat i)]) [24..<32]"
  by code_simp

lemma x_names_scan: "map yylex_all x_names = map (\<lambda>i. [T_REG (of_nat i)]) [0..<32]"
  using x_names_scan_a x_names_scan_b x_names_scan_c x_names_scan_d by (simp add: x_names_def upt_rec)

text \<open>An unsigned decimal numeral is one token, with the value of the numeral.\<close>

lemma strtol_digits_all:
  "\<forall>c \<in> set w. digit_value c < base \<Longrightarrow>
     strtol_digits base acc w = foldl (\<lambda>a c. a * base + digit_value c) acc w"
  by (induction w arbitrary: acc) simp_all

lemma single_lexeme:
  assumes "w \<noteq> []" and "rs1 @ r # rs2 = rules" and "matches (fst r) w"
    and "\<forall>q \<in> set rs1. \<not> matches (fst q) w"
  shows "yylex_all w = (case snd r w of None \<Rightarrow> [] | Some t \<Rightarrow> [t])"
proof -
  have "munch rules w (length w) r"
    unfolding munch_def assms(2) [symmetric]
    using assms(3,4) by (intro conjI exI [of _ "length rs1"]) (simp_all add: nth_append)
  then have "lexemes w = [(r, w)]"
    using lexemes_step [of w "length w" r] assms(1) by (simp add: pick_munch)
  then show ?thesis by (simp add: yylex_all_def List.map_filter_def split: option.splits)
qed

lemma decimal_scan:
  assumes "w \<noteq> []" and "set w \<subseteq> set digits_class"
  shows "yylex_all w = [T_IMM (word_of_int (clamp_long (int (foldl (\<lambda>a c. a * 10 + digit_value c) 0 w))))]"
proof -
  obtain c cs where w: "w = c # cs" using assms(1) by (cases w) auto
  have c: "c \<in> set digits_class" using assms(2) w by simp
  let ?r = "hd rules_numbers"
  have "\<forall>q \<in> set (rules_blank @ rules_mnemonics). \<not> matches (fst q) w"
    using c by (auto simp: w rules_blank_def rules_mnemonics_def matches_simps digits_class_def one_of_def newline_char_def)
  moreover have "(rules_blank @ rules_mnemonics) @ ?r # (tl rules_numbers @ rules_registers @ rules_names) = rules"
    by (simp add: rules_def rules_numbers_def)
  moreover have "list_all (\<lambda>c. c \<in> set digits_class) w" using assms(2) by (auto simp: list_all_iff)
  then have "matches (fst ?r) w"
    using matches_plus_cls [of "\<lambda>c. c \<in> set digits_class" w] assms(1) matches.seq [OF matches.altr [OF matches.one]]
    by (fastforce simp: rules_numbers_def one_of_def opt_def)
  ultimately have "yylex_all w = (case snd ?r w of None \<Rightarrow> [] | Some t \<Rightarrow> [t])"
    using single_lexeme [OF assms(1)] by blast
  moreover have "\<forall>c \<in> set w. digit_value c < 10"
    using assms(2) by (auto simp: digits_class_def digit_value_def Let_def)
  moreover have "c \<noteq> CHR ''-''" "c \<noteq> CHR ''+''" using c by (auto simp: digits_class_def)
  ultimately show ?thesis
    using strtol_digits_all [of w 10 0] by (simp add: rules_numbers_def atoi_def strtol_def w)
qed
end
