(* ===== verification/Scan_Print.thy ===== *)
theory Scan_Print
  imports Lexer_Facts
begin

text \<open>
  Printing tokens as text and scanning the text again. What stands before a blank is scanned as
  if the input ended there, so it is enough to scan one token at a time: the numerals, the names,
  the string literals and the keywords.
\<close>

section \<open>A blank ends a lexeme\<close>

text \<open>A character that no word of a pattern contains, and the patterns of one character.\<close>

fun avoids :: "char \<Rightarrow> rexp \<Rightarrow> bool" where
  "avoids c Zero = True"
| "avoids c One = True"
| "avoids c (Cls p) = (\<not> p c)"
| "avoids c (Seq r s) = (avoids c r \<and> avoids c s)"
| "avoids c (Alt r s) = (avoids c r \<and> avoids c s)"
| "avoids c (Star r) = avoids c r"

lemma avoids_matches: "matches r w \<Longrightarrow> avoids c r \<Longrightarrow> c \<notin> set w"
  by (induction rule: matches.induct) auto

fun single :: "rexp \<Rightarrow> bool" where
  "single (Cls p) = True"
| "single r = False"

lemma single_matches: "single r \<Longrightarrow> matches r w \<Longrightarrow> length w = 1"
  by (cases r) (auto simp: matches_simps)

text \<open>The characters that start a comment or a string.\<close>

definition opens :: "char \<Rightarrow> bool" where
  "opens c \<longleftrightarrow> c = CHR ''#'' \<or> c = CHR 0x22"

text \<open>Only a comment or a string can go over a blank.\<close>

lemma rules_blank_free:
  assumes "q \<in> set rules"
  shows "avoids CHR '' '' (fst q) \<or> single (fst q) \<or> (\<exists>c r. fst q = Seq (Seq (Cls (\<lambda>x. x = c)) One) r \<and> opens c)"
  using assms unfolding rules_def set_append
  by (elim UnE)
    (auto simp: rules_defs opens_def one_of_def plus_def opt_def digits_class_def newline_char_def alnum_def between_def)

lemma no_cross:
  assumes "q \<in> set rules" and "matches (fst q) (c # u @ CHR '' '' # s)" and "\<not> opens c"
  shows False
proof -
  have "\<not> avoids CHR '' '' (fst q)" using avoids_matches [OF assms(2)] by auto
  moreover have "\<not> single (fst q)" using single_matches [OF _ assms(2)] by auto
  moreover have "\<not> (\<exists>c r. fst q = Seq (Seq (Cls (\<lambda>x. x = c)) One) r \<and> opens c)"
    using assms(2,3) by (auto simp: matches_simps)
  ultimately show False using rules_blank_free [OF assms(1)] by blast
qed

lemma munch_blank:
  assumes "munch rules v n r" and "v \<noteq> []" and "\<not> opens (hd v)"
  shows "munch rules (v @ CHR '' '' # s) n r"
proof -
  obtain i where i: "n \<le> length v" "i < length rules" "rules ! i = r" "matches (fst r) (take n v)"
      "\<forall>q \<in> set rules. \<forall>m. n < m \<longrightarrow> m \<le> length v \<longrightarrow> \<not> matches (fst q) (take m v)"
      "\<forall>j < i. \<not> matches (fst (rules ! j)) (take n v)"
    using assms(1) unfolding munch_def by blast
  have "\<not> matches (fst q) (take m (v @ CHR '' '' # s))" if "q \<in> set rules" "n < m" for q m
  proof (cases "m \<le> length v")
    case True
    then show ?thesis using i(5) that by simp
  next
    case False
    then obtain k where "m = Suc (length v + k)" using less_imp_Suc_add [of "length v" m] by auto
    then have "take m (v @ CHR '' '' # s) = hd v # tl v @ CHR '' '' # take k s"
      using assms(2) by (cases v) simp_all
    then show ?thesis using no_cross [OF that(1) _ assms(3)] by metis
  qed
  then show ?thesis using i unfolding munch_def by auto
qed

text \<open>So what stands before a blank is scanned as if the input ended there.\<close>

lemma lexemes_blank:
  "\<forall>c \<in> set v. \<not> opens c \<Longrightarrow> lexemes (v @ CHR '' '' # s) = lexemes v @ lexemes (CHR '' '' # s)"
proof (induction "length v" arbitrary: v rule: less_induct)
  case less
  show ?case
  proof (cases "v = []")
    case False
    then obtain n r where n: "pick rules v = Some (n, r)" "0 < n" "n \<le> length v"
      using pick_progress by blast
    have "\<not> opens (hd v)" using less.prems False by simp
    then have "pick rules (v @ CHR '' '' # s) = Some (n, r)"
      using n(1) munch_blank [of v n r s] False by (simp add: pick_munch)
    moreover have "lexemes (drop n v @ CHR '' '' # s) = lexemes (drop n v) @ lexemes (CHR '' '' # s)"
      by (rule less.hyps) (use n less.prems in \<open>auto dest: in_set_dropD\<close>)
    ultimately show ?thesis
      using n lexemes_step [of v n r] lexemes_step [of "v @ CHR '' '' # s" n r] False by simp
  qed simp
qed

lemma blank_only:
  assumes "q \<in> set rules" and "matches (fst q) (CHR '' '' # u)"
  shows "u = []"
  using assms unfolding rules_def set_append
  by (elim UnE) (auto simp: rules_defs matches_simps one_of_def newline_char_def plus_def opt_def
      digits_class_def matches_star_cls alnum_def between_def)


lemma blank_rule: "rules ! 0 = (one_of [CHR 0x09, CHR '' ''], skip)" "rules \<noteq> []"
  by (simp_all add: rules_def rules_blank_def)

lemma munch_one_blank: "munch rules (CHR '' '' # s) 1 (one_of [CHR 0x09, CHR '' ''], skip)"
proof -
  have "\<not> matches (fst q) (take m (CHR '' '' # s))"
    if q: "q \<in> set rules" "1 < m" "m \<le> length (CHR '' '' # s)" for q m
  proof
    assume "matches (fst q) (take m (CHR '' '' # s))"
    moreover obtain k where "m = Suc k" "0 < k" using q(2) by (cases m) auto
    ultimately show False using blank_only [OF q(1), of "take k s"] q(3) by auto
  qed
  then show ?thesis
    using blank_rule unfolding munch_def by (intro conjI exI [of _ 0]) (auto simp: one_of_def matches_simps)
qed

lemma yylex_all_blank: "yylex_all (CHR '' '' # s) = yylex_all s"
  using lexemes_step [of "CHR '' '' # s" 1] munch_one_blank [of s]
  by (simp add: pick_munch yylex_all_def List.map_filter_def skip_def)

lemma yylex_all_append_blank:
  "\<forall>c \<in> set v. \<not> opens c \<Longrightarrow> yylex_all (v @ CHR '' '' # s) = yylex_all v @ yylex_all s"
  using yylex_all_blank [of s] by (simp add: yylex_all_def lexemes_blank List.map_filter_def)


section \<open>Strings\<close>

text \<open>A string literal ends at its second quotation mark, whatever follows.\<close>

abbreviation quote :: char where "quote \<equiv> CHR 0x22"

lemma quote_rules:
  assumes "q \<in> set rules" and "matches (fst q) (quote # u)"
  shows "u = [] \<or> (\<exists>b. u = b @ [quote] \<and> (\<forall>c \<in> set b. c \<noteq> quote))"
  using assms unfolding rules_def set_append
  by (elim UnE) (auto simp: rules_defs matches_simps one_of_def newline_char_def plus_def opt_def
      digits_class_def matches_star_cls alnum_def between_def list_all_iff)

definition string_rule :: rule where
  "string_rule = (Seq (lit [quote]) (Seq (Star (Cls (\<lambda>c. c \<noteq> quote))) (lit [quote])),
     \<lambda>yytext. Some (T_STRING (c_str yytext)))"

definition before_string :: "rule list" where
  "before_string = rules_blank @ rules_mnemonics @ rules_numbers @ rules_registers @ take 10 rules_names"

lemma rules_string: "rules = before_string @ string_rule # drop 11 rules_names"
  by (simp add: before_string_def rules_def rules_names_def string_rule_def)

lemma before_string_only: "q \<in> set before_string \<Longrightarrow> \<not> matches (fst q) (quote # b @ [quote])"
  unfolding before_string_def set_append
  by (elim UnE) (auto simp: rules_defs matches_simps one_of_def newline_char_def plus_def opt_def
      digits_class_def matches_star_cls alnum_def between_def list_all_iff)

text \<open>A rule takes a prefix: it matches it, the rules before it do not, and none matches more.\<close>

lemma munch_split:
  assumes "rs = rs1 @ r # rs2" and "n \<le> length s" and "matches (fst r) (take n s)"
    and "\<And>q. q \<in> set rs1 \<Longrightarrow> \<not> matches (fst q) (take n s)"
    and "\<And>q m. q \<in> set rs \<Longrightarrow> n < m \<Longrightarrow> m \<le> length s \<Longrightarrow> \<not> matches (fst q) (take m s)"
  shows "munch rs s n r"
  unfolding munch_def using assms
  by (intro conjI exI [of _ "length rs1"]) (auto simp: nth_append)

lemma munch_string:
  assumes "quote \<notin> set b"
  shows "munch rules (quote # b @ quote # s) (length b + 2) string_rule"
proof (rule munch_split [OF rules_string])
  show "matches (fst string_rule) (take (length b + 2) (quote # b @ quote # s))"
    using assms by (auto simp: string_rule_def matches_simps matches_star_cls list_all_iff)
next
  fix q m assume q: "q \<in> set rules" "length b + 2 < m" "m \<le> length (quote # b @ quote # s)"
  obtain k where k: "m = length b + 2 + Suc k" using less_imp_Suc_add [OF q(2)] by auto
  show "\<not> matches (fst q) (take m (quote # b @ quote # s))"
  proof
    assume "matches (fst q) (take m (quote # b @ quote # s))"
    moreover have "take m (quote # b @ quote # s) = quote # b @ quote # take (Suc k) s" by (simp add: k)
    ultimately obtain b' where b': "b @ quote # take (Suc k) s = b' @ [quote]" "\<forall>c \<in> set b'. c \<noteq> quote"
      using quote_rules [OF q(1)] by auto
    have "take (Suc k) s \<noteq> []" using q(3) k by auto
    then have "b' = b @ quote # butlast (take (Suc k) s)"
      using b'(1) by (metis append_butlast_last_id butlast_append butlast.simps(2) butlast_snoc list.distinct(1))
    then show False using b'(2) by simp
  qed
qed (use before_string_only in auto)

lemma yylex_all_string:
  assumes "quote \<notin> set b"
  shows "yylex_all (quote # b @ quote # s) = T_STRING (c_str (quote # b @ [quote])) # yylex_all s"
  using lexemes_step [of "quote # b @ quote # s" "length b + 2" string_rule] munch_string [OF assms, of s]
  by (simp add: pick_munch yylex_all_def List.map_filter_def string_rule_def)


section \<open>Numbers\<close>

lemma digits_decimal:
  "set (digits 10 n) \<subseteq> set digits_class \<and> digits 10 n \<noteq> [] \<and>
     (\<forall>a. foldl (\<lambda>a c. a * 10 + digit_value c) a (digits 10 n) = a * 10 ^ length (digits 10 n) + n)"
proof (induction n rule: less_induct)
  case (less n)
  have one: "digit_char d \<in> set digits_class \<and> digit_value (digit_char d) = d" if d: "d < 10" for d
  proof -
    have "d \<in> set [0..<10]" using d by simp
    moreover have "\<forall>d \<in> set [0..<10]. digit_char d \<in> set digits_class \<and> digit_value (digit_char d) = d"
      by code_simp
    ultimately show ?thesis by blast
  qed
  show ?case
  proof (cases "n < 10")
    case True
    then have "digits 10 n = [digit_char n]" by (simp add: digits.simps)
    then show ?thesis using one [OF True] by simp
  next
    case False
    then have d: "digits 10 n = digits 10 (n div 10) @ [digit_char (n mod 10)]"
      by (simp add: digits.simps [of 10 n])
    have "n div 10 < n" using False by simp
    then show ?thesis
      using less [of "n div 10"] one [of "n mod 10"] div_mult_mod_eq [of n 10]
      by (simp add: d algebra_simps)
  qed
qed

definition number_rule :: rule where
  "number_rule = (Seq (opt (one_of ''+-'')) (plus (one_of digits_class)), \<lambda>yytext. Some (T_IMM (atoi yytext)))"

lemma rules_number: "(rules_blank @ rules_mnemonics) @ number_rule # (tl rules_numbers @ rules_registers @ rules_names) = rules"
  by (simp add: rules_def rules_numbers_def number_rule_def)

lemma number_scan:
  assumes "set ds \<subseteq> set digits_class" and "ds \<noteq> []" and "w = ds \<or> w = CHR ''-'' # ds"
  shows "yylex_all w = [T_IMM (atoi w)]"
proof -
  obtain c cs where w: "w = c # cs" "c \<in> set (CHR ''-'' # digits_class)" using assms by (cases ds) auto
  have "yylex_all w = (case snd number_rule w of None \<Rightarrow> [] | Some t \<Rightarrow> [t])"
  proof (rule single_lexeme [OF _ rules_number])
    have "list_all (\<lambda>c. c \<in> set digits_class) ds" using assms(1) by (auto simp: list_all_iff)
    then have m: "matches (plus (one_of digits_class)) ds"
      using assms(2) by (simp add: one_of_def matches_plus_cls)
    have "matches (opt (one_of ''+-'')) []" "matches (opt (one_of ''+-'')) ''-''"
      by (simp_all add: matches_opt one_of_def matches_simps)
    then show "matches (fst number_rule) w"
      using assms(3) matches.seq [OF _ m, of "opt (one_of ''+-'')" "[]"]
        matches.seq [OF _ m, of "opt (one_of ''+-'')" "''-''"] by (auto simp: number_rule_def)
    show "\<forall>q \<in> set (rules_blank @ rules_mnemonics). \<not> matches (fst q) w"
      using w(2) by (auto simp: w rules_blank_def rules_mnemonics_def matches_simps digits_class_def one_of_def newline_char_def)
  qed (use w in simp)
  then show ?thesis by (simp add: number_rule_def)
qed

lemma atoi_show_int:
  assumes "- (2 ^ 63) \<le> i" and "i < 2 ^ 63"
  shows "atoi (show_int i) = word_of_int i"
proof -
  have v: "strtol_digits 10 0 (digits 10 n) = n" for n
  proof -
    have "\<forall>c \<in> set (digits 10 n). digit_value c < 10"
      using digits_decimal [of n] by (auto simp: digits_class_def digit_value_def Let_def)
    then show ?thesis using digits_decimal [of n] by (simp add: strtol_digits_all)
  qed
  obtain c cs where d: "digits 10 (nat i) = c # cs" "c \<in> set digits_class"
    using digits_decimal [of "nat i"] by (cases "digits 10 (nat i)") auto
  then have "c \<noteq> CHR ''-''" "c \<noteq> CHR ''+''" by (auto simp: digits_class_def)
  moreover have "clamp_long i = i" using assms by (simp add: clamp_long_def)
  ultimately show ?thesis
    using v [of "nat i"] v [of "nat (- i)"] d(1)
    by (simp add: show_int_def atoi_def strtol_def del: strtol_digits.simps)
qed

lemma yylex_show_int:
  "- (2 ^ 63) \<le> i \<Longrightarrow> i < 2 ^ 63 \<Longrightarrow> yylex_all (show_int i) = [T_IMM (word_of_int i)]"
  using number_scan [of "digits 10 (nat i)" "show_int i"] number_scan [of "digits 10 (nat (- i))" "show_int i"]
    digits_decimal [of "nat i"] digits_decimal [of "nat (- i)"] atoi_show_int [of i]
  by (auto simp: show_int_def)


section \<open>Names\<close>

text \<open>How the keyword tokens that the grammar uses are written.\<close>

definition spellings :: "(keyword \<times> string) list" where
  "spellings = [(K_COMMA, '',''), (K_COLON, '':''), (K_PAREN_OPEN, ''(''), (K_PAREN_CLOSE, '')''),
     (K_PCT, ''%''), (K_HI, ''hi''), (K_ADD, ''add''), (K_ADDI, ''addi''), (K_ANDI, ''andi''), (K_SUB, ''sub''),
     (K_ORI, ''ori''), (K_XORI, ''xori''), (K_BEQ, ''beq''), (K_LW, ''lw''), (K_LH, ''lh''), (K_LHU, ''lhu''),
     (K_LB, ''lb''), (K_LBU, ''lbu''), (K_SW, ''sw''), (K_SH, ''sh''), (K_SB, ''sb''), (K_SLTI, ''slti''),
     (K_SLTIU, ''sltiu''), (K_ECALL, ''ecall''), (K_JUMP, ''j''), (K_MOV, ''mv''), (K_RET, ''ret''), (K_LA, ''la''),
     (K_SECTION, ''.section''), (K_D_GLOBAL, ''.global''), (K_D_DATA, ''.data''), (K_D_TEXT, ''.text''),
     (K_D_ASCII, ''.ascii'')]"

text \<open>Names that the scanner takes for something else.\<close>

definition reserved :: "string list" where
  "reserved = [''add'', ''addi'', ''and'', ''andi'', ''sub'', ''li'', ''beq'', ''bne'', ''bge'', ''bgeu'', ''blt'', ''bltu'', ''la'',
     ''lb'', ''lbu'', ''lh'', ''lhu'', ''lw'', ''mv'', ''or'', ''ori'', ''sb'', ''sh'', ''sll'', ''slli'', ''slt'', ''slti'', ''sltiu'',
     ''sltu'', ''sra'', ''srai'', ''srl'', ''srli'', ''sw'', ''xor'', ''xori'', ''ecall'', ''ebreak'', ''ret'', ''jal'', ''jalr'',
     ''fence'', ''lui'', ''auipc'', ''hi'', ''lo'', ''j'', ''n''] @ abi_names @ x_names"

definition plain_name :: "string \<Rightarrow> bool" where
  "plain_name w = (case w of [] \<Rightarrow> False
     | c # cs \<Rightarrow> (c = CHR ''_'' \<or> alnum c \<and> c \<notin> set digits_class) \<and> list_all alnum cs \<and> w \<notin> set reserved)"

definition symbol_rule :: rule where
  "symbol_rule = (Seq (opt (lit ''_'')) (Star (Cls alnum)), \<lambda>yytext. Some (T_SYMBOL (c_str yytext)))"

definition before_symbol :: "rule list" where
  "before_symbol = rules_blank @ rules_mnemonics @ rules_numbers @ rules_registers @ take 9 rules_names"

lemma rules_symbol: "before_symbol @ symbol_rule # drop 10 rules_names = rules"
  by (simp add: before_symbol_def rules_def rules_names_def symbol_rule_def)

lemma alnum_chars:
  "alnum c \<Longrightarrow> c \<noteq> NUL \<and> c \<noteq> CHR '' '' \<and> \<not> opens c \<and> c \<noteq> newline_char \<and> c \<notin> set [CHR 0x09, CHR 0x5C, CHR ''('', CHR '')'', CHR '':'', CHR ''%'', CHR ''.'', CHR ''+'', CHR ''-'', CHR '','']"
  by (auto simp: alnum_def between_def opens_def newline_char_def)

lemma plain_name_chars:
  "plain_name w \<Longrightarrow> c \<in> set w \<Longrightarrow> c = CHR ''_'' \<or> alnum c"
  by (auto simp: plain_name_def list_all_iff split: list.splits)

lemma registers_reserved: "q \<in> set rules_registers \<Longrightarrow> matches (fst q) w \<Longrightarrow> w \<in> set reserved"
  by (auto simp: rules_registers_def matches_simps one_of_def digits_class_def simp del: lit.simps)
    (simp_all add: reserved_def abi_names_def x_names_def)

lemma mnemonics_reserved: "q \<in> set rules_mnemonics \<Longrightarrow> matches (fst q) w \<Longrightarrow> w \<in> set reserved"
  by (auto simp: rules_mnemonics_def simp del: lit.simps) (simp_all add: reserved_def)

lemma before_symbol_only:
  assumes "plain_name w" and "q \<in> set before_symbol"
  shows "\<not> matches (fst q) w"
proof -
  obtain c cs where w: "w = c # cs" "c = CHR ''_'' \<or> alnum c \<and> c \<notin> set digits_class" "w \<notin> set reserved"
    using assms(1) by (auto simp: plain_name_def split: list.splits)
  have n: "w \<noteq> ''n''" "w \<noteq> ''j''" using w(3) by (auto simp: reserved_def)
  have "\<not> matches (fst q) (c # cs)" if "q \<in> set (rules_blank @ rules_numbers @ take 9 rules_names)"
    using that w(2) n alnum_chars [of c]
    by (auto simp: rules_blank_def rules_numbers_def rules_names_def matches_simps one_of_def plus_def opt_def
        opens_def newline_char_def digits_class_def w(1) simp del: lit.simps)
  then show ?thesis
    using assms(2) w(1,3) registers_reserved [of q w] mnemonics_reserved [of q w]
    unfolding before_symbol_def by auto
qed

lemma symbol_scan:
  assumes "plain_name w"
  shows "yylex_all w = [T_SYMBOL w]"
proof -
  obtain c cs where w: "w = c # cs" "c = CHR ''_'' \<or> alnum c" "list_all alnum cs"
    using assms by (auto simp: plain_name_def split: list.splits)
  have "yylex_all w = (case snd symbol_rule w of None \<Rightarrow> [] | Some t \<Rightarrow> [t])"
  proof (rule single_lexeme [OF _ rules_symbol])
    have "matches (fst symbol_rule) ([] @ w)" if "alnum c"
      unfolding symbol_rule_def fst_conv
      by (rule matches.seq) (use that w in \<open>simp_all add: matches_opt matches_star_cls\<close>)
    moreover have "matches (fst symbol_rule) (''_'' @ cs)"
      unfolding symbol_rule_def fst_conv
      by (rule matches.seq) (use w in \<open>simp_all add: matches_opt matches_star_cls del: lit.simps\<close>)
    ultimately show "matches (fst symbol_rule) w" using w by auto
  qed (use w before_symbol_only [OF assms] in auto)
  moreover have "nul_free w"
    using plain_name_chars [OF assms] alnum_chars by (fastforce simp: nul_free_def)
  ultimately show ?thesis by (simp add: symbol_rule_def)
qed


lemma spellings_scan:
  "map (\<lambda>(k, w). yylex_all w) (take 9 spellings) = map (\<lambda>(k, w). [Key k]) (take 9 spellings)"
  "map (\<lambda>(k, w). yylex_all w) (take 9 (drop 9 spellings)) = map (\<lambda>(k, w). [Key k]) (take 9 (drop 9 spellings))"
  "map (\<lambda>(k, w). yylex_all w) (take 9 (drop 18 spellings)) = map (\<lambda>(k, w). [Key k]) (take 9 (drop 18 spellings))"
  "map (\<lambda>(k, w). yylex_all w) (drop 27 spellings) = map (\<lambda>(k, w). [Key k]) (drop 27 spellings)"
  by code_simp+

lemma spelling_scan:
  assumes "(k, w) \<in> set spellings"
  shows "yylex_all w = [Key k]"
proof -
  have parts: "spellings = take 9 spellings @ take 9 (drop 9 spellings) @ take 9 (drop 18 spellings) @ drop 27 spellings"
    by (simp add: spellings_def)
  have "\<forall>(k, w) \<in> set spellings. yylex_all w = [Key k]"
    using spellings_scan unfolding map_eq_conv by (subst parts) (auto simp: split_beta)
  then show ?thesis using assms by auto
qed

section \<open>Printing tokens and scanning them again\<close>

fun show_token :: "token \<Rightarrow> string" where
  "show_token (T_REG v) = x_names ! unat v"
| "show_token (T_IMM v) = show_int (sint v)"
| "show_token (T_STRING s) = s"
| "show_token (T_SYMBOL l) = l"
| "show_token (Key k) = the (map_of spellings k)"

fun printable :: "token \<Rightarrow> bool" where
  "printable (T_REG v) = (v < 32)"
| "printable (T_IMM v) = True"
| "printable (T_STRING s) = (2 \<le> length s \<and> hd s = quote \<and> last s = quote \<and> quote \<notin> set (butlast (tl s)) \<and> nul_free s)"
| "printable (T_SYMBOL l) = plain_name l"
| "printable (Key k) = (k \<in> set (map fst spellings))"

definition unlex :: "token list \<Rightarrow> string" where
  "unlex ts = concat (map (\<lambda>t. show_token t @ '' '') ts)"

lemma register_scan:
  assumes "v < 32"
  shows "yylex_all (x_names ! unat v) = [T_REG v]" and "\<forall>c \<in> set (x_names ! unat v). \<not> opens c"
proof -
  have v: "unat v < 32" using assms by (simp add: word_less_nat_alt)
  have "map yylex_all x_names ! unat v = map (\<lambda>i. [T_REG (of_nat i)]) [0..<32] ! unat v"
    by (simp add: x_names_scan)
  moreover have "length x_names = 32" by (simp add: x_names_def)
  ultimately show "yylex_all (x_names ! unat v) = [T_REG v]" using v by simp
  have "\<forall>w \<in> set x_names. \<forall>c \<in> set w. \<not> opens c" by (simp add: x_names_def opens_def)
  moreover have "x_names ! unat v \<in> set x_names" using v \<open>length x_names = 32\<close> by simp
  ultimately show "\<forall>c \<in> set (x_names ! unat v). \<not> opens c" by blast
qed

lemma show_int_chars: "\<forall>c \<in> set (show_int i). \<not> opens c"
proof -
  have "c \<in> set digits_class \<Longrightarrow> \<not> opens c" for c by (auto simp: digits_class_def opens_def)
  then show ?thesis
    using digits_decimal [of "nat i"] digits_decimal [of "nat (- i)"]
    by (auto simp: show_int_def opens_def)
qed

lemma unlex_step:
  assumes "printable t"
  shows "yylex_all (show_token t @ '' '' @ s) = t # yylex_all s"
proof (cases t)
  case (T_REG v)
  then show ?thesis using assms register_scan [of v] by (simp add: yylex_all_append_blank)
next
  case (T_IMM v)
  have "- (2 ^ 31) \<le> sint v" "sint v < 2 ^ 31" using sint_ge [of v] sint_lt [of v] by simp_all
  then show ?thesis
    using T_IMM show_int_chars [of "sint v"] by (simp add: yylex_all_append_blank yylex_show_int)
next
  case (T_STRING w)
  obtain b where w: "w = quote # b @ [quote]" "quote \<notin> set b"
  proof -
    have "w = hd w # butlast (tl w) @ [last w]"
      using assms T_STRING by (cases w) (auto simp: Suc_le_eq)
    then show thesis using assms T_STRING that by simp
  qed
  then show ?thesis
    using T_STRING assms yylex_all_string [of b "CHR '' '' # s"] by (simp add: yylex_all_blank)
next
  case (T_SYMBOL l)
  have "\<forall>c \<in> set l. \<not> opens c"
    using assms T_SYMBOL plain_name_chars [of l] alnum_chars by (fastforce simp: opens_def)
  then show ?thesis using T_SYMBOL assms by (simp add: yylex_all_append_blank symbol_scan)
next
  case (Key k)
  then obtain w where w: "map_of spellings k = Some w"
    using assms by (metis map_of_eq_None_iff not_None_eq printable.simps(5) list.set_map)
  have "\<forall>(k, w) \<in> set spellings. \<forall>c \<in> set w. \<not> opens c" by (simp add: spellings_def opens_def)
  then show ?thesis
    using Key w map_of_SomeD [OF w] spelling_scan [of k w] by (auto simp: yylex_all_append_blank)
qed

theorem unlex_scan: "list_all printable ts \<Longrightarrow> yylex_all (unlex ts) = ts"
proof (induction ts)
  case Nil
  then show ?case by (simp add: unlex_def yylex_all_def List.map_filter_def)
next
  case (Cons t ts)
  then show ?case using unlex_step [of t "unlex ts"] by (simp add: unlex_def)
qed

end
