(* ===== verification/Wellformed.thy ===== *)
theory Wellformed
  imports Scan_Print Parser
begin

text \<open>
  What the parser may rely on and what its results satisfy: the mnemonic of every instruction is
  one of its table and its registers are in range, whatever text was scanned.
\<close>

section \<open>Well-formed instructions\<close>

definition in_table :: "(keyword \<Rightarrow> opcode_t option) \<Rightarrow> opcode_t \<Rightarrow> bool" where
  "in_table T c = list_ex (\<lambda>(k, w). T k = Some c) spellings"

lemma tables_spelled:
  "opcode k = Some c \<Longrightarrow> k \<in> fst ` set spellings"
  "opcode_immediate k = Some c \<Longrightarrow> k \<in> fst ` set spellings"
  "opcode_load_store k = Some c \<Longrightarrow> k \<in> fst ` set spellings"
  "opcode_branch k = Some c \<Longrightarrow> k \<in> fst ` set spellings"
  by (auto simp: opcode_tables spellings_def split: if_splits)

lemma in_tableI: "T k = Some c \<Longrightarrow> k \<in> fst ` set spellings \<Longrightarrow> in_table T c"
  by (auto simp: in_table_def list_ex_iff)

fun wf_instruction :: "instruction \<Rightarrow> bool" where
  "wf_instruction (Reg_insn c d a b) = (in_table opcode c \<and> d < 32 \<and> a < 32 \<and> b < 32)"
| "wf_instruction (Imm_insn c d a i) = (in_table opcode_immediate c \<and> d < 32 \<and> a < 32)"
| "wf_instruction (Mem_insn c d i a) = (in_table opcode_load_store c \<and> d < 32 \<and> a < 32)"
| "wf_instruction (Branch_insn c a b l) = (in_table opcode_branch c \<and> a < 32 \<and> b < 32)"
| "wf_instruction (Bare_insn c) = in_table opcode c"
| "wf_instruction (La_insn d l) = (d < 32)"
| "wf_instruction (Jump_insn l) = True"
| "wf_instruction (Mov_insn d a) = (d < 32 \<and> a < 32)"
| "wf_instruction Ret_insn = True"

fun wf_statement :: "statement \<Rightarrow> bool" where
  "wf_statement (Label_insns l is) = (is \<noteq> [] \<and> list_all wf_instruction is)"
| "wf_statement (Label_directive l d) = True"
| "wf_statement (Directive d) = True"

text \<open>Tokens whose register numbers are in range.\<close>

definition regs_ok :: "token list \<Rightarrow> bool" where
  "regs_ok ts \<longleftrightarrow> (\<forall>v. T_REG v \<in> set ts \<longrightarrow> v < 32)"

lemma regs_ok_simps [simp]: "regs_ok (ts @ us) \<longleftrightarrow> regs_ok ts \<and> regs_ok us"
  "regs_ok (t # ts) \<longleftrightarrow> (case t of T_REG v \<Rightarrow> v < 32 | _ \<Rightarrow> True) \<and> regs_ok ts" "regs_ok []"
  by (auto simp: regs_ok_def split: token.splits)

lemma regs_ok_scanned: "regs_ok (yylex_all s)"
  by (simp add: regs_ok_def yylex_all_reg_bound)

lemma wf_instruction_derived: "g_instruction ts i \<Longrightarrow> regs_ok ts \<Longrightarrow> wf_instruction i"
  by (induction rule: g_instruction.induct) (auto intro: in_tableI tables_spelled)

lemma wf_instructions_parsed:
  "parse_instructions ts = (is, q) \<Longrightarrow> regs_ok ts \<Longrightarrow> list_all wf_instruction is \<and>
     (case q of None \<Rightarrow> True | Some r \<Rightarrow> is \<noteq> [] \<and> regs_ok r)"
proof (induction ts arbitrary: "is" q rule: parse_instructions.induct)
  case (1 ts)
  show ?case
  proof (cases "parse_instruction ts")
    case None
    then show ?thesis using "1.prems" by (simp add: parse_instructions.simps [of ts])
  next
    case (Some p)
    then obtain i r where ir: "parse_instruction ts = Some (i, r)" by (cases p) auto
    then obtain us where us: "ts = us @ r" "g_instruction us i" using instruction_sound by blast
    then have ok: "wf_instruction i" "regs_ok r" using "1.prems"(2) wf_instruction_derived by simp_all
    show ?thesis
    proof (cases "starts_instruction r")
      case True
      then show ?thesis
        using "1.prems"(1) "1.IH" [OF ir refl True _ ok(2)] ok ir
        by (cases "parse_instructions r") (auto simp: parse_instructions.simps [of ts] split: option.splits)
    next
      case False
      then show ?thesis using "1.prems"(1) ok ir by (auto simp: parse_instructions.simps [of ts])
    qed
  qed
qed

lemma wf_statement_parsed:
  assumes "regs_ok ts"
  shows "case parse_statement ts of Inl is \<Rightarrow> list_all wf_instruction is | Inr (s, r) \<Rightarrow> wf_statement s \<and> regs_ok r"
proof (cases "\<exists>l q. ts = T_SYMBOL l # Key K_COLON # q \<and> starts_instruction q")
  case True
  then obtain l q where ts: "ts = T_SYMBOL l # Key K_COLON # q" "starts_instruction q" by blast
  then show ?thesis
    using assms wf_instructions_parsed [of q]
    by (cases "parse_instructions q") (auto simp: parse_statement_def takers split: option.splits)
next
  case False
  have r: "regs_ok r" if "parse_directive q = Some (d, r)" "regs_ok q" for q d r
    using directive_sound [OF that(1)] that(2) by auto
  show ?thesis
    using False assms r
    by (auto simp: parse_statement_def taker_shape split: option.splits prod.splits if_splits sum.splits)
qed

lemma wf_statements_parsed:
  "parse_statements ts = (ss, is, out) \<Longrightarrow> regs_ok ts \<Longrightarrow> list_all wf_statement ss \<and> list_all wf_instruction is"
proof (induction ts arbitrary: ss "is" out rule: parse_statements.induct)
  case (1 ts)
  show ?case
  proof (cases "parse_statement ts")
    case (Inl js)
    then show ?thesis using "1.prems" wf_statement_parsed [of ts] by (auto simp: parse_statements.simps [of ts])
  next
    case (Inr p)
    then obtain s r where s: "parse_statement ts = Inr (s, r)" by (cases p) auto
    then have ok: "wf_statement s" "regs_ok r" using wf_statement_parsed [OF "1.prems"(2)] by simp_all
    show ?thesis
    proof (cases "r \<noteq> [] \<and> starts_statement r")
      case True
      then show ?thesis
        using "1.prems"(1) "1.IH" [OF s refl _ _ _ ok(2)] ok s
        by (cases "parse_statements r") (auto simp: parse_statements.simps [of ts])
    next
      case False
      then show ?thesis using "1.prems"(1) ok s by (auto simp: parse_statements.simps [of ts] split: if_splits)
    qed
  qed
qed

theorem scanned_program_wf:
  "parse_statements (yylex_all s) = (ss, is, out) \<Longrightarrow> list_all wf_statement ss \<and> list_all wf_instruction is"
  using wf_statements_parsed regs_ok_scanned by blast

end
