(* ===== verification/Program_Text.thy ===== *)
theory Program_Text
  imports Wellformed
begin

text \<open>
  Source text for every program that the grammar can express, and the proof that scanning and
  parsing that text gives the program back.
\<close>

section \<open>Programs as tokens\<close>

text \<open>A mnemonic of a table for its entry.\<close>

definition key_of :: "(keyword \<Rightarrow> opcode_t option) \<Rightarrow> opcode_t \<Rightarrow> keyword" where
  "key_of T c = fst (the (find (\<lambda>p. T (fst p) = Some c) spellings))"

lemma key_of_table:
  assumes "in_table T c"
  shows "T (key_of T c) = Some c" and "key_of T c \<in> fst ` set spellings"
proof -
  obtain p where p: "find (\<lambda>p. T (fst p) = Some c) spellings = Some p"
    using assms by (cases "find (\<lambda>p. T (fst p) = Some c) spellings")
      (auto simp: in_table_def list_ex_iff find_None_iff)
  then obtain i where "i < length spellings" "p = spellings ! i" "T (fst p) = Some c"
    by (auto simp: find_Some_iff)
  then show "T (key_of T c) = Some c" "key_of T c \<in> fst ` set spellings"
    using p by (auto simp: key_of_def)
qed

fun immediate_tokens :: "immediate \<Rightarrow> token list" where
  "immediate_tokens (IMM_INT v) = [T_IMM v]"
| "immediate_tokens (IMM_SYMBOL l) = [T_SYMBOL l]"
| "immediate_tokens (MODIFIER_ABS_HI l) = [Key K_PCT, Key K_HI, Key K_PAREN_OPEN, T_SYMBOL l, Key K_PAREN_CLOSE]"

fun instruction_tokens :: "instruction \<Rightarrow> token list" where
  "instruction_tokens (Reg_insn c d a b) =
     [Key (key_of opcode c), T_REG d, Key K_COMMA, T_REG a, Key K_COMMA, T_REG b]"
| "instruction_tokens (Imm_insn c d a i) =
     [Key (key_of opcode_immediate c), T_REG d, Key K_COMMA, T_REG a, Key K_COMMA] @ immediate_tokens i"
| "instruction_tokens (Mem_insn c d i a) =
     [Key (key_of opcode_load_store c), T_REG d, Key K_COMMA, T_IMM i, Key K_PAREN_OPEN, T_REG a, Key K_PAREN_CLOSE]"
| "instruction_tokens (Branch_insn c a b l) =
     [Key (key_of opcode_branch c), T_REG a, Key K_COMMA, T_REG b, Key K_COMMA, T_SYMBOL l]"
| "instruction_tokens (Bare_insn c) = [Key (key_of opcode c)]"
| "instruction_tokens (La_insn d l) = [Key K_LA, T_REG d, Key K_COMMA, T_SYMBOL l]"
| "instruction_tokens (Jump_insn l) = [Key K_JUMP, T_SYMBOL l]"
| "instruction_tokens (Mov_insn d a) = [Key K_MOV, T_REG d, Key K_COMMA, T_REG a]"
| "instruction_tokens Ret_insn = [Key K_RET]"

fun directive_tokens :: "directive \<Rightarrow> token list" where
  "directive_tokens Section_data = [Key K_SECTION, Key K_D_DATA]"
| "directive_tokens Section_text = [Key K_SECTION, Key K_D_TEXT]"
| "directive_tokens Text_dir = [Key K_D_TEXT]"
| "directive_tokens Data_dir = [Key K_D_DATA]"
| "directive_tokens (Global_dir l) = [Key K_D_GLOBAL, T_SYMBOL l]"
| "directive_tokens (Ascii_dir s) = [Key K_D_ASCII, T_STRING s]"

fun statement_tokens :: "statement \<Rightarrow> token list" where
  "statement_tokens (Label_insns l is) = T_SYMBOL l # Key K_COLON # concat (map instruction_tokens is)"
| "statement_tokens (Label_directive l d) = T_SYMBOL l # Key K_COLON # directive_tokens d"
| "statement_tokens (Directive d) = directive_tokens d"

definition program_tokens :: "statement list \<Rightarrow> token list" where
  "program_tokens ss = concat (map statement_tokens ss)"

lemma immediate_tokens_derived: "g_immediate (immediate_tokens i) i"
  by (cases i) (auto intro: g_immediate.intros)

lemma instruction_tokens_derived: "wf_instruction i \<Longrightarrow> g_instruction (instruction_tokens i) i"
proof (cases i)
  case (Imm_insn c d a j)
  assume "wf_instruction i"
  then have "opcode_immediate (key_of opcode_immediate c) = Some c"
    using Imm_insn key_of_table(1) [of opcode_immediate c] by simp
  then show ?thesis
    using g_instruction.intros(2) [OF _ immediate_tokens_derived, of "key_of opcode_immediate c" c d a j] Imm_insn
    by simp
qed (auto intro!: g_instruction.intros key_of_table(1))

lemma instructions_tokens_derived:
  "is \<noteq> [] \<Longrightarrow> list_all wf_instruction is \<Longrightarrow> g_instructions (concat (map instruction_tokens is)) is"
proof (induction "is")
  case (Cons i "is")
  then have i: "g_instruction (instruction_tokens i) i" by (simp add: instruction_tokens_derived)
  show ?case
  proof (cases "is = []")
    case True
    then show ?thesis using g_instructions.intros(1) [OF i] by simp
  next
    case False
    then show ?thesis using Cons g_instructions_Cons [OF _ i] by simp
  qed
qed simp

lemma directive_tokens_derived: "g_directive (directive_tokens d) d"
  by (cases d) (auto intro: g_directive.intros)

lemma statement_tokens_derived: "wf_statement s \<Longrightarrow> g_statement (statement_tokens s) s"
  by (cases s) (auto intro!: g_statement.intros instructions_tokens_derived directive_tokens_derived)

lemma program_tokens_derived:
  "ss \<noteq> [] \<Longrightarrow> list_all wf_statement ss \<Longrightarrow> g_statements (program_tokens ss) ss"
proof (induction ss)
  case (Cons s ss)
  then have s: "g_statement (statement_tokens s) s" by (simp add: statement_tokens_derived)
  show ?case
  proof (cases "ss = []")
    case True
    then show ?thesis using g_statements.intros(1) [OF s] by (simp add: program_tokens_def)
  next
    case False
    then show ?thesis using Cons g_statements_Cons [OF _ s] by (simp add: program_tokens_def)
  qed
qed simp

section \<open>Programs as text\<close>

text \<open>The names and strings of a program that can be written down.\<close>

definition string_literal :: "string \<Rightarrow> bool" where
  "string_literal s \<longleftrightarrow> printable (T_STRING s)"

fun immediate_names :: "immediate \<Rightarrow> string list" where
  "immediate_names (IMM_INT v) = []"
| "immediate_names (IMM_SYMBOL l) = [l]"
| "immediate_names (MODIFIER_ABS_HI l) = [l]"

fun instruction_names :: "instruction \<Rightarrow> string list" where
  "instruction_names (Imm_insn c d a i) = immediate_names i"
| "instruction_names (Branch_insn c a b l) = [l]"
| "instruction_names (La_insn d l) = [l]"
| "instruction_names (Jump_insn l) = [l]"
| "instruction_names _ = []"

fun directive_ok :: "directive \<Rightarrow> bool" where
  "directive_ok (Global_dir l) = plain_name l"
| "directive_ok (Ascii_dir s) = string_literal s"
| "directive_ok _ = True"

fun names_ok :: "statement \<Rightarrow> bool" where
  "names_ok (Label_insns l is) = (plain_name l \<and> list_all plain_name (concat (map instruction_names is)))"
| "names_ok (Label_directive l d) = (plain_name l \<and> directive_ok d)"
| "names_ok (Directive d) = directive_ok d"

definition program_text :: "statement list \<Rightarrow> string" where
  "program_text ss = unlex (program_tokens ss)"

lemma fixed_printable [simp]:
  "k \<in> {K_COMMA, K_COLON, K_PAREN_OPEN, K_PAREN_CLOSE, K_PCT, K_HI, K_LA, K_JUMP, K_MOV, K_RET, K_SECTION,
     K_D_DATA, K_D_TEXT, K_D_GLOBAL, K_D_ASCII} \<Longrightarrow> printable (Key k)"
  by (auto simp: spellings_def)

lemma table_printable: "in_table T c \<Longrightarrow> printable (Key (key_of T c))"
  using key_of_table(2) by simp

lemma immediate_printable: "list_all plain_name (immediate_names i) \<Longrightarrow> list_all printable (immediate_tokens i)"
  by (cases i) (simp_all del: printable.simps(5))

lemma instruction_printable:
  "wf_instruction i \<Longrightarrow> list_all plain_name (instruction_names i) \<Longrightarrow> list_all printable (instruction_tokens i)"
  by (cases i) (simp_all add: table_printable immediate_printable del: printable.simps(5))

lemma directive_printable: "directive_ok d \<Longrightarrow> list_all printable (directive_tokens d)"
  by (cases d) (simp_all add: string_literal_def del: printable.simps(3,5))

lemma statement_printable: "wf_statement s \<Longrightarrow> names_ok s \<Longrightarrow> list_all printable (statement_tokens s)"
proof (cases s)
  case (Label_insns l "is")
  assume "wf_statement s" "names_ok s"
  then have "\<forall>i \<in> set is. list_all printable (instruction_tokens i)"
    using Label_insns by (auto simp: list_all_iff intro!: instruction_printable [unfolded list_all_iff, rule_format])
  then show ?thesis
    using Label_insns \<open>names_ok s\<close> by (auto simp: list_all_iff simp del: printable.simps(5))
qed (simp_all add: directive_printable del: printable.simps(5))

theorem program_text_parses:
  assumes "ss \<noteq> []" and "list_all wf_statement ss" and "list_all names_ok ss"
  shows "parse_statements (yylex_all (program_text ss)) = (ss, [], Accepted)"
proof -
  have "list_all printable (program_tokens ss)"
    using assms(2,3) statement_printable by (fastforce simp: program_tokens_def list_all_iff)
  then have "yylex_all (program_text ss) = program_tokens ss" by (simp add: program_text_def unlex_scan)
  then show ?thesis using program_tokens_derived [OF assms(1,2)] by (simp add: statements_accepts)
qed

end
