(* ===== verification/Parse_Progress.thy ===== *)
theory Parse_Progress
  imports Program_Text
begin

text \<open>
  How the parser consumes its input: the tokens that belong to each instruction and statement it
  reduces, a bound on the work of scanner and parser in the length of the source, and where the
  parser stops after a complete program.
\<close>

section \<open>The tokens of what was parsed\<close>

fun statement_instructions :: "statement \<Rightarrow> instruction list" where
  "statement_instructions (Label_insns l is) = is"
| "statement_instructions _ = []"

lemma instruction_length: "g_instruction us i \<Longrightarrow> length us = length (instruction_tokens i)"
  by (induction rule: g_instruction.induct) (auto elim: g_immediate.cases)

text \<open>The tokens of a run of instructions, one list for each.\<close>

lemma instructions_split:
  "parse_instructions ts = (is, q) \<Longrightarrow> \<exists>uss r. list_all2 g_instruction uss is \<and> ts = concat uss @ r \<and> (\<forall>r'. q = Some r' \<longrightarrow> r' = r)"
proof (induction ts arbitrary: "is" q rule: parse_instructions.induct)
  case (1 ts)
  show ?case
  proof (cases "parse_instruction ts")
    case None
    then show ?thesis using "1.prems" by (auto simp: parse_instructions.simps [of ts])
  next
    case (Some p)
    then obtain i r where ir: "parse_instruction ts = Some (i, r)" by (cases p) auto
    then obtain us where us: "ts = us @ r" "g_instruction us i" using instruction_sound by blast
    show ?thesis
    proof (cases "starts_instruction r")
      case True
      then obtain js where js: "parse_instructions r = (js, q)" "is = i # js"
        using "1.prems" ir by (auto simp: parse_instructions.simps [of ts] split: prod.splits)
      obtain uss r' where "list_all2 g_instruction uss js" "r = concat uss @ r'" "\<forall>r''. q = Some r'' \<longrightarrow> r'' = r'"
        using "1.IH" [OF ir refl True js(1)] by blast
      then show ?thesis using us js(2) by (intro exI [of _ "us # uss"] exI [of _ r']) simp
    next
      case False
      then have "is = [i]" "q = Some r"
        using "1.prems" ir by (simp_all add: parse_instructions.simps [of ts])
      then show ?thesis using us by (intro exI [of _ "[us]"] exI [of _ r]) simp
    qed
  qed
qed

lemma instructions_length:
  "list_all2 g_instruction uss is \<Longrightarrow> length (concat uss) = length (concat (map instruction_tokens is))"
  by (induction rule: list_all2_induct) (simp_all add: instruction_length)

lemma directive_tokens_of: "parse_directive ts = Some (d, r) \<Longrightarrow> ts = directive_tokens d @ r"
  by (auto simp: parse_directive_def taker_shape bind_eq_Some_conv split: list.splits token.splits if_splits option.splits)

text \<open>The tokens of a statement, and those of the instructions in it.\<close>

lemma block_tokens:
  assumes "parse_statement ts = Inr (x, r)"
  shows "\<exists>us. ts = us @ r \<and> length us = length (statement_tokens x) \<and>
     (statement_instructions x \<noteq> [] \<longrightarrow> (\<exists>t t' uss. us = t # t' # concat uss \<and> list_all2 g_instruction uss (statement_instructions x)))"
proof (cases "symbol_token ts")
  case None
  then obtain d where "x = Directive d" "ts = directive_tokens d @ r"
    using assms directive_tokens_of by (auto simp: parse_statement_def split: option.splits)
  then show ?thesis by auto
next
  case (Some p)
  then obtain l q where ts: "ts = T_SYMBOL l # Key K_COLON # q" and
      y: "(if starts_instruction q then (case parse_instructions q of (is, None) \<Rightarrow> Inl is | (is, Some q) \<Rightarrow> Inr (Label_insns l is, q))
              else (case parse_directive q of None \<Rightarrow> Inl [] | Some (d, q) \<Rightarrow> Inr (Label_directive l d, q))) = Inr (x, r)"
    using assms Some by (cases p; cases "expect K_COLON (snd p)") (auto simp: parse_statement_def taker_shape(4) expect_def
        split: list.splits token.splits if_splits)
  show ?thesis
  proof (cases "starts_instruction q")
    case True
    then obtain js where js: "parse_instructions q = (js, Some r)" "x = Label_insns l js"
      using y by (auto split: prod.splits option.splits)
    obtain uss where u: "list_all2 g_instruction uss js" "q = concat uss @ r"
      using instructions_split [OF js(1)] by auto
    show ?thesis
      using ts u js(2) instructions_length [OF u(1)]
      by (intro exI [of _ "T_SYMBOL l # Key K_COLON # concat uss"]) auto
  next
    case False
    then obtain d where "x = Label_directive l d" "q = directive_tokens d @ r"
      using y directive_tokens_of by (auto split: option.splits)
    then show ?thesis using ts by (intro exI [of _ "T_SYMBOL l # Key K_COLON # directive_tokens d"]) simp
  qed
qed

lemma unfinished_tokens:
  assumes "parse_statement ts = Inl is" and "is \<noteq> []"
  shows "\<exists>t t' uss r. ts = t # t' # concat uss @ r \<and> list_all2 g_instruction uss is"
proof -
  obtain l q where ts: "ts = T_SYMBOL l # Key K_COLON # q" and "parse_instructions q = (is, None)"
    using assms by (auto simp: parse_statement_def taker_shape split: option.splits if_splits prod.splits)
  then show ?thesis using instructions_split [of q "is" None] by blast
qed

section \<open>The work is bounded by the source\<close>

lemma instructions_tokens_bound:
  "list_all2 g_instruction uss is \<Longrightarrow> length is \<le> length (concat uss)"
proof (induction rule: list_all2_induct)
  case (Cons us uss i "is")
  have "us \<noteq> []" using instruction_starts [OF Cons.hyps(1)] by simp
  then show ?case using Cons.IH by (cases us) simp_all
qed simp

text \<open>Every reduction of a statement or an instruction has a token of its own.\<close>

definition reduced :: "statement list \<Rightarrow> instruction list \<Rightarrow> nat" where
  "reduced ss is = sum_list (map (\<lambda>x. 1 + length (statement_instructions x)) ss) + length is"

lemma statement_consumes:
  assumes "parse_statement ts = Inr (x, r)"
  shows "1 + length (statement_instructions x) + length r \<le> length ts"
proof (cases "statement_instructions x")
  case Nil
  then show ?thesis using statement_shorter [OF assms] by simp
next
  case (Cons i "is")
  then obtain t t' uss where "ts = (t # t' # concat uss) @ r" "list_all2 g_instruction uss (statement_instructions x)"
    using block_tokens [OF assms] by auto
  then show ?thesis using instructions_tokens_bound by fastforce
qed

lemma reductions_bound:
  "parse_statements ts = (ss, is, oc) \<Longrightarrow> reduced ss is \<le> length ts"
proof (induction ts arbitrary: ss "is" oc rule: parse_statements.induct)
  case (1 ts)
  show ?case
  proof (cases "parse_statement ts")
    case (Inl js)
    then have "ss = []" "is = js" using "1.prems" by (simp_all add: parse_statements.simps [of ts])
    moreover have "length js \<le> length ts"
    proof (cases "js = []")
      case False
      then obtain t t' uss r where "ts = t # t' # concat uss @ r" "list_all2 g_instruction uss js"
        using unfinished_tokens [OF Inl] by blast
      then show ?thesis using instructions_tokens_bound by fastforce
    qed simp
    ultimately show ?thesis by (simp add: reduced_def)
  next
    case (Inr y)
    then obtain x w where x: "parse_statement ts = Inr (x, w)" by (cases y) auto
    show ?thesis
    proof (cases "w \<noteq> [] \<and> starts_statement w")
      case True
      then obtain zs where "parse_statements w = (zs, is, oc)" "ss = x # zs"
        using "1.prems" x by (auto simp: parse_statements.simps [of ts] split: prod.splits)
      then show ?thesis using "1.IH" [OF x refl] True statement_consumes [OF x] by (fastforce simp: reduced_def)
    next
      case False
      then have "ss = [x]" "is = []" using "1.prems" x by (auto simp: parse_statements.simps [of ts] split: if_splits)
      then show ?thesis using statement_consumes [OF x] by (simp add: reduced_def)
    qed
  qed
qed

lemma lexemes_nonempty: "(r, w) \<in> set (lexemes s) \<Longrightarrow> w \<noteq> []"
proof -
  have "tokenization t ls \<Longrightarrow> (r, w) \<in> set ls \<Longrightarrow> w \<noteq> []" for t ls
    by (induction rule: tokenization.induct) auto
  then show "(r, w) \<in> set (lexemes s) \<Longrightarrow> w \<noteq> []" by (simp add: tokenization_lexemes)
qed

lemma lexemes_bound: "length (lexemes s) \<le> length s"
proof -
  have "length ls \<le> length (concat (map snd ls))" if "\<forall>l \<in> set ls. snd l \<noteq> []" for ls :: "(rule \<times> string) list"
    using that
  proof (induction ls)
    case (Cons l ls)
    then show ?case by (cases "snd l") auto
  qed simp
  moreover have "\<forall>l \<in> set (lexemes s). snd l \<noteq> []" using lexemes_nonempty by fastforce
  ultimately show ?thesis using lexemes_cover [of s] by metis
qed

lemma tokens_bound: "length (yylex_all s) \<le> length (lexemes s)"
proof -
  have "length (List.map_filter f xs) \<le> length xs" for f and xs :: "(rule \<times> string) list"
    by (induction xs) (auto split: option.splits)
  then show ?thesis by (simp add: yylex_all_def)
qed

text \<open>The scanner gets to the end of the file, by the rules of the program and never by the default rule.\<close>

lemma scan_rules: "set (map fst (lexemes s)) \<subseteq> set rules" "[] \<notin> set (map snd (lexemes s))"
  using lexemes_matches lexemes_nonempty by fastforce+

theorem front_end_bound:
  "parse_statements (yylex_all s) = (ss, is, oc) \<Longrightarrow>
     reduced ss is \<le> length (yylex_all s) \<and> length (yylex_all s) \<le> length (lexemes s) \<and> length (lexemes s) \<le> length s"
  using reductions_bound tokens_bound lexemes_bound by blast

section \<open>What one token of lookahead decides\<close>

text \<open>
  A token with which a directive, an instruction or a statement can start is the first token of one;
  so a token that continues no derivation is none of these, and the parser stops in front of it.
\<close>

lemma directive_extends:
  assumes "t \<in> {Key K_SECTION, Key K_D_TEXT, Key K_D_DATA, Key K_D_GLOBAL, Key K_D_ASCII}"
  shows "\<exists>w d. g_directive (t # w) d"
  using assms by (blast intro: g_directive.intros)

lemma statement_extends: "starts_statement (t # r) \<Longrightarrow> \<exists>w s. g_statement (t # w) s"
proof (cases t)
  case (T_SYMBOL l)
  then show ?thesis using g_statement.intros(2) [OF g_directive.intros(3)] by blast
qed (use directive_extends [of t] g_statement.intros(3) in \<open>auto simp: starts_statement_def\<close>)

lemma instruction_extends:
  assumes "starts_instruction (t # r)"
  shows "\<exists>w i. g_instruction (t # w) i"
proof -
  obtain k where t: "t = Key k" and k: "insn_start k"
    using assms by (auto simp: starts_instruction_def split: token.splits)
  consider (plain) c where "opcode k = Some c" | (imm) c where "opcode_immediate k = Some c"
    | (mem) c where "opcode_load_store k = Some c" | (branch) c where "opcode_branch k = Some c"
    | (rest) "k \<in> {K_LA, K_JUMP, K_MOV, K_RET}"
    using k by (auto simp: insn_start_def)
  then show ?thesis
  proof cases
    case (imm c)
    then show ?thesis
      using g_instruction.intros(2) [OF imm g_immediate.intros(1)] t by fastforce
  qed (use t in \<open>blast intro: g_instruction.intros\<close>)+
qed

lemma last_instruction_complete:
  assumes i: "g_instruction us i" and ext: "\<And>w j. \<not> g_instruction (us @ t # w) j"
  shows "parse_instruction (us @ t # r) = Some (i, t # r)"
  using i
proof cases
  case (2 k c ts j d a)
  then show ?thesis
    using immediate_kind_complete [of ts j "t # r"]
    by (simp add: parse_instruction_def parse_instruction_after_def opcode_disjoint takers)
next
  case (5 k c)
  have "no_register (t # r)"
  proof (rule ccontr)
    assume "\<not> no_register (t # r)"
    then obtain v where "t = T_REG v" by (auto simp: no_register_def register_def split: token.splits)
    then show False using ext [of "[Key K_COMMA, T_REG 0, Key K_COMMA, T_REG 0]"] 5 g_instruction.intros(1) [OF 5(3)] by auto
  qed
  then show ?thesis using instruction_complete [OF i] by simp
qed (simp_all add: parse_instruction_def parse_instruction_after_def opcode_disjoint takers)

lemma last_instructions_complete:
  assumes "g_instructions us is" and ext: "\<And>w js. \<not> g_instructions (us @ t # w) js"
  shows "parse_instructions (us @ t # r) = (is, Some (t # r))"
  using assms(1)
proof cases
  case (1 i)
  have "\<not> starts_instruction (t # r)"
    using instruction_extends [of t r] ext g_instructions.intros(2) [OF assms(1)] by blast
  moreover have "parse_instruction (us @ t # r) = Some (i, t # r)"
    using 1 ext g_instructions.intros(1) by (blast intro: last_instruction_complete)
  ultimately show ?thesis using 1 by (simp add: parse_instructions.simps [of "us @ t # r"])
next
  case (2 ts js vs i)
  have "\<not> starts_instruction (t # r)"
    using instruction_extends [of t r] ext g_instructions.intros(2) [OF assms(1)] by blast
  moreover have "\<not> g_instruction (vs @ t # w) j" for w j
    using ext [of w] g_instructions.intros(2) [OF 2(3)] 2(1) by auto
  then have "parse_instruction (vs @ t # r) = Some (i, t # r)"
    by (rule last_instruction_complete [OF 2(4)])
  ultimately have "parse_instructions (vs @ t # r) = ([i], Some (t # r))"
    by (simp add: parse_instructions.simps [of "vs @ t # r"])
  then show ?thesis
    using instructions_complete [OF 2(3), of "vs @ t # r"] instruction_starts [OF 2(4), of "t # r"] 2(1,2) by simp
qed

lemma last_statement_complete:
  assumes s: "g_statement us x" and ext: "\<And>w y. \<not> g_statement (us @ t # w) y"
  shows "parse_statement (us @ t # r) = Inr (x, t # r)"
  using s
proof cases
  case (1 ts "is" l)
  have "\<not> g_instructions (ts @ t # w) js" for w js
    using ext [of w] g_statement.intros(1) 1(1) by auto
  then have "parse_instructions (ts @ t # r) = (is, Some (t # r))"
    by (rule last_instructions_complete [OF 1(3)])
  then show ?thesis
    using 1 g_instructions_start [OF 1(3), of "t # r"] by (simp add: parse_statement_def takers)
next
  case (2 ts d l)
  then show ?thesis
    using directive_complete [of ts d "t # r"] g_directive_start [of ts d "t # r"] by (simp add: parse_statement_def takers)
next
  case (3 d)
  then show ?thesis
    using directive_complete [of us d "t # r"] g_directive_start [of us d "t # r"] by (simp add: parse_statement_def)
qed

theorem stops_after_program:
  assumes p: "g_statements us ss" and ext: "\<And>w xs. \<not> g_statements (us @ t # w) xs"
  shows "parse_statements (us @ t # r) = (ss, [], Refused_after_program)"
proof -
  have stop: "\<not> starts_statement (t # r)"
    using statement_extends [of t r] ext g_statements.intros(2) [OF p] by blast
  from p show ?thesis
  proof cases
    case (1 x)
    have "\<not> g_statement (us @ t # w) y" for w y using ext g_statements.intros(1) by blast
    then show ?thesis
      using last_statement_complete [OF 1(2)] stop 1(1) by (simp add: parse_statements.simps [of "us @ t # r"])
  next
    case (2 ts xs vs x)
    have "\<not> g_statement (vs @ t # w) y" for w y
      using ext [of w] g_statements.intros(2) [OF 2(3)] 2(1) by auto
    then have "parse_statements (vs @ t # r) = ([x], [], Refused_after_program)"
      using last_statement_complete [OF 2(4)] stop by (simp add: parse_statements.simps [of "vs @ t # r"])
    then show ?thesis
      using statements_complete [OF 2(3), of "vs @ t # r"] g_statement_start [OF 2(4), of "t # r"] 2(1,2) by simp
  qed
qed

end
