(* ===== verification/Size_Bounds.thy ===== *)
theory Size_Bounds
  imports Assembler_Refine Parse_Progress
begin

text \<open>
  How large the object file can get: linear in the length of the source. Every part of the object
  is paid for by a token, and every token by the characters of its lexeme.
\<close>

section \<open>The size of an object\<close>

definition obj_size :: "obj \<Rightarrow> nat" where
  "obj_size a = 4 * length (o_text a) + length (o_data a) + sum_list (map (\<lambda>y. 17 + length (fst y)) (o_syms a))"

lemma length_strtab_bytes: "length (strtab_bytes ns) \<le> 2 + sum_list (map (\<lambda>n. length n + 1) ns)"
  by (simp add: strtab_bytes_def length_concat comp_def)

lemma length_symtab_of: "length (symtab_of a) = 16 * (1 + length (o_syms a))"
  using sym.length_table [of "zero_Sym # sym_entries [] (o_syms a)"]
  by (simp add: symtab_of_def sizeof_Sym_def)

lemma length_text_bytes: "length (text_bytes a) = 4 * length (o_text a)"
  using u32_le.length_table [of "o_text a"] by (simp add: text_bytes_def)

lemma length_file_bound: "length (file_of a) \<le> 350 + obj_size a"
proof -
  have "length (strtab_of a) \<le> 2 + sum_list (map (\<lambda>y. length (fst y) + 1) (o_syms a))"
    using length_strtab_bytes [of "map fst (o_syms a)"] by (simp add: strtab_of_def comp_def)
  moreover have "length shstrtab_of = 40"
    by (simp add: shstrtab_of_def strtab_bytes_def section_names_def)
  moreover have "sum_list (map (\<lambda>y. 17 + length (fst y)) ys) = 16 * length ys + sum_list (map (\<lambda>y. length (fst y) + 1) ys)"
    for ys :: "(string \<times> u32 \<times> u16) list"
    by (induction ys) simp_all
  ultimately show ?thesis
    by (simp add: length_file_of body_of_def pieces_def length_text_bytes length_symtab_of obj_size_def
        sizeof_Ehdr_def sizeof_Shdr_def)
qed

section \<open>What statements add\<close>

fun directive_weight :: "directive \<Rightarrow> nat" where
  "directive_weight (Global_dir l) = 17 + length l"
| "directive_weight (Ascii_dir s) = length s"
| "directive_weight _ = 0"

fun statement_weight :: "statement \<Rightarrow> nat" where
  "statement_weight (Label_insns l is) = 17 + length l + 4 * length is"
| "statement_weight (Label_directive l d) = 17 + length l + directive_weight d"
| "statement_weight (Directive d) = directive_weight d"

text \<open>The string that waits to be stored counts as well.\<close>

definition state_size :: "sstate \<Rightarrow> nat" where
  "state_size s = obj_size (s_obj s) + length (s_value s)"

lemma length_c_str: "length (c_str s) \<le> length s"
  by (simp add: c_str_def length_takeWhile_le)

lemma obj_size_label: "obj_size (spec_init_label l sec a) \<le> obj_size a + 17 + length l"
  using length_c_str [of l] by (simp add: spec_init_label_def obj_size_def)

lemma obj_size_data: "obj_size (spec_add_data n v sec a) \<le> obj_size a + length v + 17 + length n"
  using length_c_str [of n] by (simp add: spec_add_data_def obj_size_def Let_def)

lemma state_size_instruction:
  "s_instruction i s = Some s' \<Longrightarrow> state_size s' \<le> state_size s + 4"
  by (auto simp: s_instruction_def s_immediate_def s_branch_def s_jump_def s_emit_def s_wait_def s_want_def
      spec_add_text_def spec_add_pending_def spec_add_symbol_def spec_resolve_label_def state_size_def obj_size_def Let_def
      split: instruction.splits immediate.splits option.splits if_splits)

lemma state_size_instructions:
  "s_instructions is s = Some s' \<Longrightarrow> state_size s' \<le> state_size s + 4 * length is"
proof (induction "is" arbitrary: s)
  case (Cons i "is")
  then obtain t where "s_instruction i s = Some t" "s_instructions is t = Some s'"
    by (auto split: option.splits)
  then show ?case using Cons.IH [of t] state_size_instruction [of i s t] by simp
qed simp

lemma state_size_label: "state_size (s_label_here l sec s) \<le> state_size s + (17 + length l)"
  using obj_size_label [of l sec "s_obj s"] by (simp add: state_size_def s_label_here_def)

lemma state_size_directive: "state_size (s_directive d s) \<le> state_size s + directive_weight d"
  using state_size_label [of _ "''.text''" s] by (cases d) (simp_all add: s_directive_def state_size_def)

lemma state_size_statement:
  "s_statement x s = Some s' \<Longrightarrow> state_size s' \<le> state_size s + statement_weight x"
proof (cases x)
  case (Label_insns l "is")
  assume "s_statement x s = Some s'"
  then obtain t where t: "s_instructions is s = Some t" "s' = s_label_here l (s_section t) t"
    using Label_insns by (auto simp: s_statement_def)
  then show ?thesis
    using state_size_instructions [OF t(1)] state_size_label [of l "s_section t" t] Label_insns by simp
next
  case (Label_directive l d)
  assume "s_statement x s = Some s'"
  then show ?thesis
    using Label_directive state_size_directive [of d s]
      obj_size_data [of l "s_value (s_directive d s)" "s_section (s_directive d s)" "s_obj (s_directive d s)"]
    by (auto simp: s_statement_def Let_def state_size_def)
next
  case (Directive d)
  then show "s_statement x s = Some s' \<Longrightarrow> ?thesis"
    using state_size_directive [of d s] by (auto simp: s_statement_def)
qed

lemma state_size_statements:
  "s_statements xs s = Some s' \<Longrightarrow> state_size s' \<le> state_size s + sum_list (map statement_weight xs)"
proof (induction xs arbitrary: s)
  case (Cons x xs)
  then obtain t where "s_statement x s = Some t" "s_statements xs t = Some s'"
    by (auto split: option.splits)
  then show ?case using Cons.IH [of t] state_size_statement [of x s t] by simp
qed simp

lemma obj_size_resolve: "obj_size (spec_resolve a) = obj_size a"
proof -
  have "obj_size (spec_resolve_entry p b) = obj_size b" for p b
    by (simp add: spec_resolve_entry_def obj_size_def Let_def)
  then have "obj_size (fold spec_resolve_entry ps b) = obj_size b" for ps b
    by (induction ps arbitrary: b) simp_all
  then show ?thesis by (simp add: spec_resolve_def)
qed

section \<open>What tokens pay for\<close>

fun token_weight :: "token \<Rightarrow> nat" where
  "token_weight (T_SYMBOL l) = 17 + length l"
| "token_weight (T_STRING s) = length s"
| "token_weight (Key k) = 4"
| "token_weight _ = 0"

definition weight :: "token list \<Rightarrow> nat" where
  "weight ts = sum_list (map token_weight ts)"

lemma weight_simps [simp]: "weight [] = 0" "weight (t # ts) = token_weight t + weight ts"
  "weight (ts @ us) = weight ts + weight us"
  by (simp_all add: weight_def)

lemma instruction_weight: "g_instruction ts i \<Longrightarrow> 4 \<le> weight ts"
  by (induction rule: g_instruction.induct) simp_all

lemma instructions_weight: "g_instructions ts is \<Longrightarrow> 4 * length is \<le> weight ts"
  by (induction rule: g_instructions.induct) (auto dest!: instruction_weight)

lemma directive_weight: "g_directive ts d \<Longrightarrow> directive_weight d \<le> weight ts"
  by (induction rule: g_directive.induct) simp_all

lemma statement_weight: "g_statement ts x \<Longrightarrow> statement_weight x \<le> weight ts"
  by (induction rule: g_statement.induct) (auto dest!: instructions_weight directive_weight)

lemma statements_weight: "g_statements ts xs \<Longrightarrow> sum_list (map statement_weight xs) \<le> weight ts"
  by (induction rule: g_statements.induct) (auto dest!: statement_weight)

text \<open>A lexeme pays for the token it becomes.\<close>

lemma rule_weight:
  assumes "r \<in> set rules" and "snd r w = Some t" and "w \<noteq> []"
  shows "token_weight t \<le> 18 * length w"
proof -
  have "1 \<le> length w" using assms(3) by (cases w) simp_all
  then show ?thesis
    using assms(1,2) length_c_str [of w] unfolding rules_def set_append
    by (elim UnE) (auto simp: rules_defs ret_def skip_def)
qed

lemma scanned_weight: "weight (yylex_all s) \<le> 18 * length s"
proof -
  have "weight (List.map_filter (\<lambda>(r, w). snd r w) ls) \<le> 18 * length (concat (map snd ls))"
    if "\<forall>(r, w) \<in> set ls. r \<in> set rules \<and> w \<noteq> []" for ls :: "(rule \<times> string) list"
    using that
  proof (induction ls)
    case (Cons l ls)
    then show ?case
      using rule_weight [of "fst l" "snd l"] by (cases "snd (fst l) (snd l)") (auto simp: split_beta)
  qed simp
  moreover have "\<forall>(r, w) \<in> set (lexemes s). r \<in> set rules \<and> w \<noteq> []"
    using lexemes_matches lexemes_nonempty by fastforce
  ultimately show ?thesis using lexemes_cover [of s] by (fastforce simp: yylex_all_def)
qed

theorem object_size_bound:
  assumes "s_program (yylex_all s) = Some (status, Some a)"
  shows "length (file_of a) \<le> 350 + 18 * length s"
proof -
  obtain ss "is" out where p: "parse_statements (yylex_all s) = (ss, is, out)"
    by (cases "parse_statements (yylex_all s)") auto
  then have out: "out \<noteq> Refused"
    using assms by (auto simp: s_program_def split: option.splits)
  then obtain us r where us: "is = []" "yylex_all s = us @ r" "g_statements us ss"
    using statements_sound [OF p] by blast
  obtain t where t: "s_statements ss s_initial = Some t" "a = spec_resolve (s_obj t)"
    using assms p us(1) out by (auto simp: s_program_def split: option.splits)
  have "obj_size a \<le> state_size t" by (simp add: t(2) obj_size_resolve state_size_def)
  also have "\<dots> \<le> sum_list (map statement_weight ss)"
    using state_size_statements [OF t(1)] by (simp add: state_size_def s_initial_def obj_size_def spec_new_def)
  also have "\<dots> \<le> weight us" by (rule statements_weight [OF us(3)])
  also have "\<dots> \<le> weight (yylex_all s)" by (simp add: us(2))
  also have "\<dots> \<le> 18 * length s" by (rule scanned_weight)
  finally show ?thesis using length_file_bound [of a] by simp
qed

end
