(* ===== verification/Whole_Program.thy ===== *)
theory Whole_Program
  imports Codegen Dis_Reader Size_Bounds Parse_Progress
begin

text \<open>
  From source text to the words in the file. A source of reasonable size always gives a file that
  can be read back; and a program whose instructions are among those that are encoded as the
  manual says comes out as that sequence of instructions.
\<close>

section \<open>Straight-line code\<close>

text \<open>
  The instruction of the manual that a source instruction stands for, where the assembler encodes
  it without fail: register and immediate addition, comparison and exclusive or with an
  immediate, loads, stores, moves and system calls, with immediates in range.
\<close>

fun meaning :: "instruction \<Rightarrow> rv32i option" where
  "meaning (Reg_insn c d a b) = (if opcode K_ADD = Some c then Some (Op A_ADD d a b) else None)"
| "meaning (Imm_insn c d a (IMM_INT v)) =
     (let k = key_of opcode_immediate c in
      if k \<in> {K_ADDI, K_SLTI, K_XORI} \<and> is_within_range_12b v then map_option (\<lambda>f. OpImm f d a v) (imm_alu k) else None)"
| "meaning (Mem_insn c d i a) =
     (let k = key_of opcode_load_store c in
      if is_within_range_12b i then
        (case load_width k of Some w \<Rightarrow> Some (Load w d a i) | None \<Rightarrow> map_option (\<lambda>w. Store w d a i) (store_width k))
      else None)"
| "meaning (Mov_insn d a) = Some (OpImm A_ADD d a 0)"
| "meaning (Bare_insn c) = (if opcode K_ECALL = Some c then Some Ecall else None)"
| "meaning _ = None"

text \<open>Executing such an instruction only appends one word to the text.\<close>

definition only_emits :: "instruction \<Rightarrow> u32 \<Rightarrow> bool" where
  "only_emits i w \<longleftrightarrow> (\<forall>s. \<exists>l. s_instruction i s = Some (s_emit w (s\<lparr>s_label := l\<rparr>)))"

lemma s_label_id: "s\<lparr>s_label := s_label s\<rparr> = s"
  by simp

lemma only_emitsI: "(\<And>s. s_instruction i s = Some (s_emit w s)) \<Longrightarrow> only_emits i w"
  unfolding only_emits_def by (metis s_label_id)

text \<open>
  What comes out for the others, where it is one instruction: \<open>sub\<close> is an addition, \<open>sltiu\<close> the register
  form \<open>sltu\<close>, \<open>andi\<close> is \<open>ori\<close>, \<open>ori\<close> with a small literal a shift to the right, \<open>ret\<close> a jump to 1, and
  displacements are cut to 12 bits.
\<close>

fun encoding :: "instruction \<Rightarrow> rv32i option" where
  "encoding (Reg_insn c d a b) =
     (if opcode K_ADD = Some c \<or> opcode K_SUB = Some c then Some (Op A_ADD d a b)
      else if opcode K_SLTIU = Some c then Some (Op A_SLTU d a b) else None)"
| "encoding (Imm_insn c d a (IMM_INT v)) =
     (let k = key_of opcode_immediate c in
      if \<not> is_within_range_12b v then None
      else if k = K_ANDI then Some (OpImm A_OR d a v)
      else if k = K_ORI then (if v < 32 then Some (OpImm A_SRL d a v) else None)
      else map_option (\<lambda>f. OpImm f d a v) (imm_alu k))"
| "encoding (Mem_insn c d i a) =
     (let k = key_of opcode_load_store c; i = signed_take_bit 11 i in
      case load_width k of Some w \<Rightarrow> Some (Load w d a i) | None \<Rightarrow> map_option (\<lambda>w. Store w d a i) (store_width k))"
| "encoding Ret_insn = Some (Jalr 0 0 1)"
| "encoding i = meaning i"

lemma meaning_encoding: "meaning i = Some m \<Longrightarrow> encoding i = Some m"
proof (cases i)
  case (Imm_insn c d a j)
  assume "meaning i = Some m"
  then show ?thesis using Imm_insn by (cases j) (auto simp: Let_def split: if_splits)
qed (auto simp: Let_def is_within_range_12b_iff split: if_splits option.splits)

lemma decode_emit_srl:
  assumes "v < 32"
  shows "rv_decode (emit_i_type_instruction d a v 5 0x13) = Some (OpImm A_SRL (take_bit 5 d) (take_bit 5 a) v)"
  using small_shamt(1,2) [OF assms, of d a 5 "0x13"]
  by (simp add: rv_decode_def decode_op_imm_def Let_def emit_i_fields)

lemma encoding_emitted:
  assumes "wf_instruction i" and "encoding i = Some m"
  shows "\<exists>w. only_emits i w \<and> rv_decode w = Some m"
proof (cases i)
  case (Reg_insn c d a b)
  then have "rv_decode (emit_r_type_instruction 0 a b (funct3 c) d (opc c)) = Some m"
    using assms by (auto simp: opcode_def opcode_init_def opcodes decode_op_def decode_emit_r split: if_splits)
  then show ?thesis using Reg_insn by (intro exI conjI only_emitsI) (auto simp: s_instruction_def)
next
  case (Imm_insn c d a j)
  then obtain v where j: "j = IMM_INT v" using assms(2) by (cases j) auto
  define k where "k = key_of opcode_immediate c"
  have v: "is_within_range_12b v" and k: "k = K_ANDI \<Longrightarrow> m = OpImm A_OR d a v"
      "k = K_ORI \<Longrightarrow> v < 32 \<and> m = OpImm A_SRL d a v"
      "k \<noteq> K_ANDI \<Longrightarrow> k \<noteq> K_ORI \<Longrightarrow> imm_alu k = Some f \<Longrightarrow> m = OpImm f d a v" for f
    using assms(2) Imm_insn j by (auto simp: k_def [symmetric] Let_def split: if_splits)
  have c: "opcode_immediate k = Some c" using assms(1) Imm_insn key_of_table(1) by (auto simp: k_def)
  have s: "signed_take_bit 11 v = v" using v by (simp add: is_within_range_12b_iff)
  have "rv_decode (emit_i_type_instruction d a v (funct3 c) (opc c)) = Some m"
  proof (cases "k = K_ORI")
    case True
    then show ?thesis
      using k(2) c assms(1) Imm_insn by (auto simp: opcode_tables opcode_init_def opcodes decode_emit_srl)
  next
    case False
    then show ?thesis
      using k(1,3) c assms(1) Imm_insn s
      by (auto simp: opcode_tables opcode_init_def opcodes decode_emit_i imm_alu_def split: if_splits)
  qed
  then show ?thesis
    using Imm_insn j v by (intro exI conjI) (auto simp: only_emits_def s_instruction_def s_immediate_def)
next
  case (Mem_insn c d v a)
  define k where "k = key_of opcode_load_store c"
  have k: "load_width k = Some w \<Longrightarrow> m = Load w d a (signed_take_bit 11 v)"
      "load_width k = None \<Longrightarrow> store_width k = Some w \<Longrightarrow> m = Store w d a (signed_take_bit 11 v)" for w
    using assms(2) Mem_insn by (auto simp: k_def [symmetric] Let_def split: option.splits)
  have c: "opcode_load_store k = Some c" using assms(1) Mem_insn key_of_table(1) by (auto simp: k_def)
  have "rv_decode (if opc c = 0x03 then emit_i_type_instruction d a v (funct3 c) (opc c)
        else emit_s_type_instruction d a v (funct3 c) (opc c)) = Some m"
  proof (cases "load_width k")
    case None
    then obtain w where w: "store_width k = Some w" using load_store_covered [of k] c by auto
    then have "opc c = 0x23" "decode_store (take_bit 3 (funct3 c)) = Some w"
      using c by (auto simp: store_width_def opcode_load_store_def opcode_init_def opcodes decode_store_def split: if_splits)
    then show ?thesis using assms(1) Mem_insn k(2) [OF None w] by (simp add: decode_emit_store)
  next
    case (Some w)
    then have "opc c = 0x03" "decode_load (take_bit 3 (funct3 c)) = Some w"
      using c by (auto simp: load_width_def opcode_load_store_def opcode_init_def opcodes decode_load_def split: if_splits)
    then show ?thesis using assms(1) Mem_insn k(1) [OF Some] by (simp add: decode_emit_load)
  qed
  then show ?thesis using Mem_insn by (intro exI conjI only_emitsI) (auto simp: s_instruction_def)
next
  case (Bare_insn c)
  then have "opcode K_ECALL = Some c" "m = Ecall" using assms(2) by (auto split: if_splits)
  moreover have "rv_decode 0x73 = Some Ecall" by (simp add: rv_decode_def isa_opcode_def bits_def Let_def)
  ultimately have "rv_decode (emit_i_type_instruction 0 0 (imm12 c) (funct3 c) (opc c)) = Some m"
    by (auto simp: opcode_def opcode_init_def opcodes ecall_word)
  then show ?thesis using Bare_insn by (intro exI conjI only_emitsI) (auto simp: s_instruction_def)
next
  case (Mov_insn d a)
  then have "rv_decode (emit_i_type_instruction d a 0 0 0x13) = Some m"
    using assms by (auto simp: decode_emit_i)
  then show ?thesis using Mov_insn by (intro exI conjI only_emitsI) (auto simp: s_instruction_def)
next
  case Ret_insn
  then have "rv_decode (emit_i_type_instruction 0 0 1 0 0x67) = Some m"
    using assms(2) by (simp add: decode_emit_i is_within_range_12b_iff [symmetric] range_defs)
  then show ?thesis using Ret_insn by (intro exI conjI only_emitsI) (auto simp: s_instruction_def)
qed (use assms in simp_all)

lemma meaning_emitted:
  "wf_instruction i \<Longrightarrow> meaning i = Some m \<Longrightarrow> \<exists>w. only_emits i w \<and> rv_decode w = Some m"
  using encoding_emitted meaning_encoding by blast

definition straight_line :: "statement list \<Rightarrow> bool" where
  "straight_line ss \<longleftrightarrow> list_all (\<lambda>i. meaning i \<noteq> None) (concat (map statement_instructions ss))"

text \<open>The text grows by words with the given meanings, and nothing is left pending.\<close>

definition grows :: "sstate \<Rightarrow> rv32i option list \<Rightarrow> sstate \<Rightarrow> bool" where
  "grows s ms t \<longleftrightarrow> (\<exists>ws. o_text (s_obj t) = o_text (s_obj s) @ ws \<and> map rv_decode ws = ms) \<and>
     o_pending (s_obj t) = o_pending (s_obj s)"

lemma grows_trans: "grows s ms t \<Longrightarrow> grows t ns u \<Longrightarrow> grows s (ms @ ns) u"
  unfolding grows_def by fastforce

lemma grows_same: "o_text (s_obj t) = o_text (s_obj s) \<Longrightarrow> o_pending (s_obj t) = o_pending (s_obj s) \<Longrightarrow> grows s [] t"
  by (simp add: grows_def)

lemma grows_instruction:
  assumes "wf_instruction i" and "meaning i \<noteq> None"
  shows "\<exists>t. s_instruction i s = Some t \<and> grows s [meaning i] t"
proof -
  obtain m w where w: "meaning i = Some m" "only_emits i w" "rv_decode w = Some m"
    using assms meaning_emitted [OF assms(1)] by blast
  then show ?thesis
    by (fastforce simp: only_emits_def grows_def s_emit_def spec_add_text_def)
qed

lemma grows_instructions:
  "list_all wf_instruction is \<Longrightarrow> list_all (\<lambda>i. meaning i \<noteq> None) is \<Longrightarrow>
     \<exists>t. s_instructions is s = Some t \<and> grows s (map meaning is) t"
proof (induction "is" arbitrary: s)
  case Nil
  then show ?case by (simp add: grows_same)
next
  case (Cons i "is")
  then obtain t where t: "s_instruction i s = Some t" "grows s [meaning i] t"
    using grows_instruction [of i s] by auto
  moreover obtain u where "s_instructions is t = Some u" "grows t (map meaning is) u"
    using Cons by auto
  ultimately show ?case using grows_trans [OF t(2)] by simp
qed

lemma grows_label: "grows s [] (s_label_here l sec s)"
  by (rule grows_same) (simp_all add: s_label_here_def spec_init_label_def)

lemma grows_directive: "grows s [] (s_directive d s)"
  using grows_label [of s _ "''.text''"] by (cases d) (auto simp: s_directive_def intro: grows_same)

lemma grows_statement:
  assumes "wf_statement x" and "list_all (\<lambda>i. meaning i \<noteq> None) (statement_instructions x)"
  shows "\<exists>t. s_statement x s = Some t \<and> grows s (map meaning (statement_instructions x)) t"
proof (cases x)
  case (Label_insns l "is")
  then obtain t where t: "s_instructions is s = Some t" "grows s (map meaning is) t"
    using assms grows_instructions [of "is" s] by auto
  then show ?thesis
    using Label_insns grows_trans [OF t(2) grows_label] by (simp add: s_statement_def)
next
  case (Label_directive l d)
  have "grows (s_directive d s) [] t" if "s_statement x s = Some t" for t
    using that Label_directive by (intro grows_same) (auto simp: s_statement_def spec_add_data_def Let_def)
  then show ?thesis
    using Label_directive grows_trans [OF grows_directive [of s d]] by (fastforce simp: s_statement_def Let_def)
next
  case (Directive d)
  then show ?thesis using grows_directive by (simp add: s_statement_def)
qed

lemma grows_statements:
  "list_all wf_statement ss \<Longrightarrow> straight_line ss \<Longrightarrow>
     \<exists>t. s_statements ss s = Some t \<and> grows s (map meaning (concat (map statement_instructions ss))) t"
proof (induction ss arbitrary: s)
  case Nil
  then show ?case by (simp add: grows_same)
next
  case (Cons x ss)
  then obtain t where t: "s_statement x s = Some t" "grows s (map meaning (statement_instructions x)) t"
    using grows_statement [of x s] by (auto simp: straight_line_def)
  moreover obtain u where "s_statements ss t = Some u" "grows t (map meaning (concat (map statement_instructions ss))) u"
    using Cons by (auto simp: straight_line_def)
  ultimately show ?case using grows_trans [OF t(2)] by simp
qed

theorem straight_line_program:
  assumes "ss \<noteq> []" and "list_all wf_statement ss" and "list_all names_ok ss" and "straight_line ss"
  shows "\<exists>a. s_program (yylex_all (program_text ss)) = Some (0, Some a) \<and>
    map rv_decode (o_text a) = map meaning (concat (map statement_instructions ss))"
proof -
  obtain t where t: "s_statements ss s_initial = Some t"
      "grows s_initial (map meaning (concat (map statement_instructions ss))) t"
    using grows_statements [OF assms(2,4)] by blast
  have "spec_resolve (s_obj t) = s_obj t"
    using t(2) by (simp add: grows_def spec_resolve_def s_initial_def spec_new_def)
  then show ?thesis
    using t program_text_parses [OF assms(1-3)] by (auto simp: s_program_def grows_def s_initial_def spec_new_def)
qed

section \<open>The bytes of a source\<close>

definition bytes_of :: "string \<Rightarrow> byte list" where
  "bytes_of s = map of_char s"

lemma chars_of_bytes [simp]: "chars_of (bytes_of s) = s"
  by (induction s) (simp_all add: chars_of_def bytes_of_def unat_of_char)

lemma length_chars_of [simp]: "length (chars_of bs) = length bs"
  by (simp add: chars_of_def)

text \<open>Below 128 MiB of source the file stays below 4 GiB, where its offsets are exact.\<close>

lemma small_source:
  assumes "s_program (yylex_all (chars_of src)) = Some (status, Some a)" and "length src \<le> 2 ^ 27"
  shows "length (file_of a) < 2 ^ 32"
  using object_size_bound [OF assms(1)] assms(2) by simp

text \<open>A program that is assembled to an object of that size is listed by \<open>dis\<close>.\<close>

lemma assembled_and_listed:
  assumes "2 \<le> length argv" and "fs (argv ! 1) = Some src"
    and "s_program (yylex_all (chars_of src)) = Some (status, Some a)"
    and "out = (if length argv = 4 then argv ! 3 else generate_dest_filename (argv ! 1))"
    and "writable out" and "length (file_of a) < 2 ^ 32"
  shows "\<exists>fs' front. riscvass_main junk writable argv fs = Inr (0, fs') \<and>
    dis_main [prog, out] fs' = Inr (0, front @ text_section_output (o_text a), [])"
proof -
  have "riscvass_main junk writable argv fs = Inr (0, fs(out \<mapsto> file_of a))"
    using assms by (simp add: riscvass_main_refines s_files_def)
  then show ?thesis
    using dis_main_listing [OF assms(6), of "fs(out \<mapsto> file_of a)" out prog] by simp
qed

end
