(* ===== verification/Control_Flow.thy ===== *)
theory Control_Flow
  imports Whole_Program
begin

text \<open>
  A reference compiler for whole programs with labels, branches and jumps, and the proof that the
  assembler computes it: one pass over the statements gives every label its index, a second one
  the instruction that each line ends as after pending branches have been resolved.
\<close>

section \<open>The reference\<close>

text \<open>
  A label keeps the index it got first; the label of a block is that of the last instruction of
  the block, and \<open>.global\<close> defines its label too, by the instruction before it.
\<close>

definition mark :: "string \<Rightarrow> nat \<Rightarrow> (string \<rightharpoonup> nat) \<Rightarrow> string \<rightharpoonup> nat" where
  "mark l v K = (if K l = None then K(l \<mapsto> v) else K)"

fun mark_directive :: "directive \<Rightarrow> nat \<Rightarrow> (string \<rightharpoonup> nat) \<Rightarrow> string \<rightharpoonup> nat" where
  "mark_directive (Global_dir l) n K = mark l (n - 1) K"
| "mark_directive d n K = K"

fun marks :: "statement list \<Rightarrow> nat \<Rightarrow> (string \<rightharpoonup> nat) \<Rightarrow> string \<rightharpoonup> nat" where
  "marks [] n K = K"
| "marks (Label_insns l is # ss) n K = marks ss (n + length is) (mark l (n + length is - 1) K)"
| "marks (Label_directive l d # ss) n K = marks ss n (mark_directive d n K)"
| "marks (Directive d # ss) n K = marks ss n (mark_directive d n K)"

text \<open>Whether the current section is \<open>.text\<close>: \<open>.text\<close> alone does not select it.\<close>

fun in_text :: "directive \<Rightarrow> bool \<Rightarrow> bool" where
  "in_text Section_text tx = True"
| "in_text Section_data tx = False"
| "in_text Data_dir tx = False"
| "in_text (Ascii_dir v) tx = False"
| "in_text d tx = tx"

text \<open>
  Instruction number \<open>n\<close>, with \<open>A\<close> the index of every label of the program and \<open>K\<close> that of the
  labels known at this point. \<open>None\<close> stands for what is not one well-defined word: see \<open>encoding\<close>,
  and a jump forward.
\<close>

fun encoded :: "(string \<rightharpoonup> nat) \<Rightarrow> bool \<Rightarrow> (string \<rightharpoonup> nat) \<Rightarrow> nat \<Rightarrow> instruction \<Rightarrow> rv32i option" where
  "encoded A tx K n (Branch_insn c a b l) = (case K l of
     Some v \<Rightarrow> Some (Branch C_EQ b a (signed_take_bit 12 (of_nat v AND NOT 1)))
   | None \<Rightarrow> if tx then Some (Branch C_EQ a b (signed_take_bit 12
         (2 * (of_nat (case A l of None \<Rightarrow> 0 | Some v \<Rightarrow> v) - (of_nat n - 1)))))
       else None)"
| "encoded A tx K n (Jump_insn l) = map_option (\<lambda>v. Jal 0 (2 * of_nat v)) (K l)"
| "encoded A tx K n i = encoding i"

fun encoded_block :: "(string \<rightharpoonup> nat) \<Rightarrow> bool \<Rightarrow> (string \<rightharpoonup> nat) \<Rightarrow> nat \<Rightarrow> instruction list \<Rightarrow> rv32i option list" where
  "encoded_block A tx K n [] = []"
| "encoded_block A tx K n (i # is) = encoded A tx K n i # encoded_block A tx K (Suc n) is"

fun compiled :: "(string \<rightharpoonup> nat) \<Rightarrow> bool \<Rightarrow> (string \<rightharpoonup> nat) \<Rightarrow> nat \<Rightarrow> statement list \<Rightarrow> rv32i option list" where
  "compiled A tx K n [] = []"
| "compiled A tx K n (Label_insns l is # ss) = encoded_block A tx K n is @
     compiled A tx (mark l (n + length is - 1) K) (n + length is) ss"
| "compiled A tx K n (Label_directive l d # ss) = compiled A (in_text d tx) (mark_directive d n K) n ss"
| "compiled A tx K n (Directive d # ss) = compiled A (in_text d tx) (mark_directive d n K) n ss"

definition compile :: "statement list \<Rightarrow> rv32i option list" where
  "compile ss = compiled (marks ss 0 Map.empty) False Map.empty 0 ss"

text \<open>The labels that a program defines or refers to; addresses are found by their hashes.\<close>

fun directive_labels :: "directive \<Rightarrow> string list" where
  "directive_labels (Global_dir l) = [l]"
| "directive_labels d = []"

fun statement_labels :: "statement \<Rightarrow> string list" where
  "statement_labels (Label_insns l is) = l # concat (map instruction_names is)"
| "statement_labels (Label_directive l d) = directive_labels d"
| "statement_labels (Directive d) = directive_labels d"

definition program_labels :: "statement list \<Rightarrow> string list" where
  "program_labels ss = concat (map statement_labels ss)"

section \<open>The words that the code will end with\<close>

definition final_word :: "(u32 \<Rightarrow> u32) \<Rightarrow> UnresolvedInst32 list \<Rightarrow> nat \<Rightarrow> u32 \<Rightarrow> u32" where
  "final_word tgt ps k w = (case map_of (map (\<lambda>q. (unat (insn_number q), q)) ps) k of
     None \<Rightarrow> w
   | Some q \<Rightarrow> patch B_TYPE (2 * (tgt (insn_hash q) - pc_insn_number q)) w)"

definition final_view :: "(u32 \<Rightarrow> u32) \<Rightarrow> obj \<Rightarrow> rv32i option list" where
  "final_view tgt a = map (\<lambda>(k, w). rv_decode (final_word tgt (o_pending a) k w)) (enumerate 0 (o_text a))"

text \<open>Every pending entry is a branch at an index of its own, with the hash of a label in \<open>L\<close>.\<close>

definition branches_pending :: "string set \<Rightarrow> obj \<Rightarrow> bool" where
  "branches_pending L a \<longleftrightarrow> distinct (map (\<lambda>q. unat (insn_number q)) (o_pending a)) \<and>
     (\<forall>q \<in> set (o_pending a). unat (insn_number q) < length (o_text a) \<and> insn_type q = B_TYPE \<and> insn_hash q \<in> hasher ` L)"

lemma branches_pendingD: "branches_pending L a \<Longrightarrow> q \<in> set (o_pending a) \<Longrightarrow> insn_hash q \<in> hasher ` L"
  by (simp add: branches_pending_def)

lemma length_final_view [simp]: "length (final_view tgt a) = length (o_text a)"
  by (simp add: final_view_def)

lemma final_view_emit:
  assumes "branches_pending L a" and "o_text b = o_text a @ [w]" and "o_pending b = o_pending a"
  shows "final_view tgt b = final_view tgt a @ [rv_decode w]" and "branches_pending L b"
proof -
  have "map_of (map (\<lambda>q. (unat (insn_number q), q)) (o_pending a)) (length (o_text a)) = None"
    using assms(1) by (auto simp: branches_pending_def map_of_eq_None_iff)
  then show "final_view tgt b = final_view tgt a @ [rv_decode w]"
    using assms(2,3) by (simp add: final_view_def enumerate_append_eq final_word_def)
  show "branches_pending L b" using assms by (auto simp: branches_pending_def)
qed

lemma final_view_wait:
  assumes "branches_pending L a" and "o_text b = o_text a @ [w]" and "o_pending b = o_pending a @ [q]"
    and "unat (insn_number q) = length (o_text a)" and "insn_type q = B_TYPE" and "insn_hash q \<in> hasher ` L"
  shows "final_view tgt b = final_view tgt a @
      [rv_decode (patch B_TYPE (2 * (tgt (insn_hash q) - pc_insn_number q)) w)]" and "branches_pending L b"
proof -
  have "final_word tgt (o_pending b) k v = final_word tgt (o_pending a) k v" if "k < length (o_text a)" for k v
    using that assms(3,4) by (simp add: final_word_def map_add_def split: option.split)
  then have "map (\<lambda>(k, w). rv_decode (final_word tgt (o_pending b) k w)) (enumerate 0 (o_text a)) = final_view tgt a"
    by (auto simp: final_view_def in_set_enumerate_eq)
  moreover have "map_of (map (\<lambda>q. (unat (insn_number q), q)) (o_pending a)) (length (o_text a)) = None"
    using assms(1) by (auto simp: branches_pending_def map_of_eq_None_iff)
  then have "final_word tgt (o_pending b) (length (o_text a)) w = patch B_TYPE (2 * (tgt (insn_hash q) - pc_insn_number q)) w"
    using assms(3,4) by (simp add: final_word_def map_add_def)
  ultimately show "final_view tgt b = final_view tgt a @
      [rv_decode (patch B_TYPE (2 * (tgt (insn_hash q) - pc_insn_number q)) w)]"
    using assms(2) by (simp add: final_view_def [of tgt b] enumerate_append_eq)
  show "branches_pending L b" using assms by (force simp: branches_pending_def)
qed

text \<open>Resolution makes the view real.\<close>

lemma resolved_view:
  assumes "branches_pending L a" and "\<And>q. q \<in> set (o_pending a) \<Longrightarrow> spec_target a q = tgt (insn_hash q)"
  shows "map rv_decode (o_text (spec_resolve a)) = final_view tgt a"
proof (rule nth_equalityI)
  fix k assume k: "k < length (map rv_decode (o_text (spec_resolve a)))"
  let ?m = "map_of (map (\<lambda>q. (unat (insn_number q), q)) (o_pending a))"
  have "o_text (spec_resolve a) ! k = final_word tgt (o_pending a) k (o_text a ! k)"
  proof (cases "?m k")
    case None
    then have "k \<notin> (\<lambda>q. unat (insn_number q)) ` set (o_pending a)" by (simp add: map_of_eq_None_iff image_image)
    then show ?thesis using resolve_frame [of k "o_pending a" a] None by (simp add: spec_resolve_def final_word_def)
  next
    case (Some q)
    then have q: "q \<in> set (o_pending a)" "unat (insn_number q) = k" by (auto dest!: map_of_SomeD)
    have "distinct (map insn_number (o_pending a))"
      using assms(1) by (auto simp: branches_pending_def distinct_map inj_on_def)
    from resolve_patched [OF this q(1), of a] show ?thesis
      using assms q Some k by (simp add: branches_pending_def spec_resolve_def final_word_def patchable_def)
  qed
  then show "map rv_decode (o_text (spec_resolve a)) ! k = final_view tgt a ! k"
    using k by (simp add: final_view_def spec_resolve_def nth_enumerate_eq)
qed (simp add: spec_resolve_def)

section \<open>The assembler follows the reference\<close>

definition follows :: "string set \<Rightarrow> (u32 \<Rightarrow> u32) \<Rightarrow> bool \<Rightarrow> (string \<rightharpoonup> nat) \<Rightarrow> rv32i option list \<Rightarrow> sstate \<Rightarrow> bool" where
  "follows L tgt tx K ms s \<longleftrightarrow> (tx \<longrightarrow> s_section s = ''.text'') \<and> ran K \<subseteq> {..<2 ^ 19} \<and>
     o_labels (s_obj s) = map_option of_nat \<circ> K \<and> (\<forall>l \<in> L. o_addr (s_obj s) (hasher l) = o_labels (s_obj s) l) \<and>
     branches_pending L (s_obj s) \<and> final_view tgt (s_obj s) = ms"

lemma follows_length: "follows L tgt tx K ms s \<Longrightarrow> length (o_text (s_obj s)) = length ms"
  by (auto simp: follows_def)

lemma followsD:
  assumes "follows L tgt tx K ms s"
  shows "l \<in> L \<Longrightarrow> o_addr (s_obj s) (hasher l) = map_option of_nat (K l)"
    and "branches_pending L (s_obj s)" and "final_view tgt (s_obj s) = ms"
  using assms by (simp_all add: follows_def)

lemma follows_emit:
  assumes "follows L tgt tx K ms s"
  shows "follows L tgt tx K (ms @ [rv_decode w]) (s_emit w (s\<lparr>s_label := l\<rparr>))"
  using assms final_view_emit [of L "s_obj s" "spec_add_text w (s_obj s)" w]
  by (simp add: follows_def s_emit_def spec_add_text_def)

lemma follows_emit': "follows L tgt tx K ms s \<Longrightarrow> follows L tgt tx K (ms @ [rv_decode w]) (s_emit w s)"
  using follows_emit [of L tgt tx K ms s w "s_label s"] by simp

text \<open>A jump back: the offset is in range, as the program has at most \<open>2\<^sup>1\<^sup>9\<close> instructions.\<close>

lemma jump_offset:
  assumes "v < 2 ^ 19"
  shows "of_nat v * 2 AND 0x1FFFFF = (2 * of_nat v :: u32)" and "is_within_range_21b (2 * of_nat v)"
    and "rv_decode (emit_j_type_instruction (2 * of_nat v) 0 0x6f) = Some (Jal 0 (2 * of_nat v))"
proof -
  have n: "(2 * of_nat v :: u32) = of_nat (2 * v)" by simp
  have u: "uint (of_nat (2 * v) :: u32) = 2 * int v"
    using assms by (simp only: unsigned_of_nat) (simp add: take_bit_nat_eq_self)
  have s: "sint (of_nat (2 * v) :: u32) = 2 * int v"
    using assms unfolding sint_uint u by (simp add: signed_take_bit_int_eq_self)
  have "(0x1FFFFF :: u32) = mask 21" by (simp add: mask_eq_exp_minus_1)
  then have "of_nat (2 * v) AND 0x1FFFFF = (take_bit 21 (of_nat (2 * v)) :: u32)" by (simp only: take_bit_eq_mask)
  also have "\<dots> = of_nat (2 * v)"
    using assms by (simp only: take_bit_of_nat) (simp add: take_bit_nat_eq_self)
  finally show "of_nat v * 2 AND 0x1FFFFF = (2 * of_nat v :: u32)" unfolding n by (simp add: mult.commute)
  have "sint (2 * of_nat v :: u32) = 2 * int v" unfolding n by (rule s)
  then show "is_within_range_21b (2 * of_nat v)" using assms by (simp add: range_defs)
  have "signed_take_bit 20 (2 * of_nat v :: u32) = 2 * of_nat v"
    using assms \<open>sint (2 * of_nat v :: u32) = 2 * int v\<close> by (intro signed_take_bit_word_self) simp_all
  then show "rv_decode (emit_j_type_instruction (2 * of_nat v) 0 0x6f) = Some (Jal 0 (2 * of_nat v))"
    by (simp add: decode_emit_j even_offset)
qed

lemma decode_patched_branch:
  "rv_decode (patch B_TYPE (2 * x) (emit_b_type_instruction h a b 0 0x63)) =
     Some (Branch C_EQ (take_bit 5 a) (take_bit 5 b) (signed_take_bit 12 (2 * x)))"
  by (simp add: patch_def emit_b_fields decode_emit_b even_offset)

lemma branch_opcode: "in_table opcode_branch c \<Longrightarrow> funct3 c = 0 \<and> opc c = 0x63"
  using key_of_table(1) [of opcode_branch c] by (auto simp: opcode_branch_def opcode_init_def opcodes split: if_splits)

lemma follows_instruction:
  assumes f: "follows L tgt tx K ms s" and wf: "wf_instruction i" and L: "set (instruction_names i) \<subseteq> L"
    and m: "encoded A tx K (length ms) i = Some m" and n: "length ms < 2 ^ 19"
    and tgt: "\<And>l. l \<in> L \<Longrightarrow> tgt (hasher l) = of_nat (case A l of None \<Rightarrow> 0 | Some v \<Rightarrow> v)"
  shows "\<exists>t. s_instruction i s = Some t \<and> follows L tgt tx K (ms @ [Some m]) t"
proof (cases "encoding i")
  case (Some m')
  then have "m' = m" using m by (cases i) auto
  then show ?thesis
    using encoding_emitted [OF wf Some] follows_emit [OF f] unfolding only_emits_def by metis
next
  case None
  then consider (branch) c a b l where "i = Branch_insn c a b l" | (jump) l where "i = Jump_insn l"
    using m by (cases i) auto
  then show ?thesis
  proof cases
    case (branch c a b l)
    then have c: "funct3 c = 0" "opc c = 0x63" and r: "a < 32" "b < 32" using wf branch_opcode [of c] by auto
    show ?thesis
    proof (cases "K l")
      case (Some v)
      then have "o_labels (s_obj s) l = Some (of_nat v)" using f by (simp add: follows_def)
      then show ?thesis
        using follows_emit' [OF f, of "emit_b_type_instruction (of_nat v) a b 0 0x63"] branch m Some c r
        by (simp add: s_instruction_def s_branch_def decode_emit_b)
    next
      case (None)
      then have tx: "tx" and m': "m = Branch C_EQ a b (signed_take_bit 12
          (2 * (of_nat (case A l of None \<Rightarrow> 0 | Some v \<Rightarrow> v) - (of_nat (length ms) - 1))))"
        using m branch by (auto split: if_splits)
      have o: "o_labels (s_obj s) l = None" using f None by (simp add: follows_def)
      have sn: "s_next (s_want l s) = of_nat (length ms)"
        using f tx o follows_length [OF f] by (simp add: s_next_def s_want_def follows_def spec_resolve_label_def)
      let ?q = "\<lparr>insn_number = of_nat (length ms), pc_insn_number = of_nat (length ms) - 1, insn_type = B_TYPE, insn_hash = hasher l\<rparr>"
      let ?w = "emit_b_type_instruction (hasher l) a b 0 0x63"
      let ?t = "s_emit ?w (s_wait B_TYPE l (s_want l s))"
      have l: "l \<in> L" using L branch by simp
      have t: "o_text (s_obj ?t) = o_text (s_obj s) @ [?w]" "o_pending (s_obj ?t) = o_pending (s_obj s) @ [?q]"
          "o_labels (s_obj ?t) = o_labels (s_obj s)" "o_addr (s_obj ?t) = o_addr (s_obj s)" "s_section ?t = s_section s"
        using o sn by (simp_all add: s_emit_def s_wait_def s_want_def spec_add_text_def spec_add_pending_def spec_resolve_label_def)
      have num: "unat (insn_number ?q) = length (o_text (s_obj s))"
        using n follows_length [OF f] by (simp add: unat_of_nat take_bit_nat_eq_self)
      have bp: "branches_pending L (s_obj s)" and "insn_type ?q = B_TYPE" and "insn_hash ?q \<in> hasher ` L"
        using f l by (simp_all add: follows_def)
      note w = final_view_wait [OF bp t(1,2) num this(2,3)]
      have "rv_decode (patch B_TYPE (2 * (tgt (insn_hash ?q) - pc_insn_number ?q)) ?w) = Some m"
        unfolding decode_patched_branch m' by (simp add: tgt [OF l] r)
      then have "final_view tgt (s_obj ?t) = ms @ [Some m]" "branches_pending L (s_obj ?t)"
        using w f by (simp_all only: follows_def)
      then have "follows L tgt tx K (ms @ [Some m]) ?t" using f t(3-5) unfolding follows_def by metis
      then show ?thesis using branch c o by (simp add: s_instruction_def s_branch_def)
    qed
  next
    case (jump l)
    then obtain v where v: "K l = Some v" "m = Jal 0 (2 * of_nat v)" using m by auto
    then have "o_labels (s_obj s) l = Some (of_nat v)" "v < 2 ^ 19" using f ranI [of K l v] by (auto simp: follows_def)
    then show ?thesis
      using follows_emit' [OF f, of "emit_j_type_instruction (2 * of_nat v) 0 0x6f"] jump_offset [of v] jump v
      by (simp add: s_instruction_def s_jump_def Let_def)
  qed
qed

lemma follows_block:
  assumes tgt: "\<And>l. l \<in> L \<Longrightarrow> tgt (hasher l) = of_nat (case A l of None \<Rightarrow> 0 | Some v \<Rightarrow> v)"
  shows "follows L tgt tx K ms s \<Longrightarrow> list_all wf_instruction is \<Longrightarrow> set (concat (map instruction_names is)) \<subseteq> L \<Longrightarrow>
    None \<notin> set (encoded_block A tx K (length ms) is) \<Longrightarrow> length ms + length is \<le> 2 ^ 19 \<Longrightarrow>
    \<exists>t. s_instructions is s = Some t \<and> follows L tgt tx K (ms @ encoded_block A tx K (length ms) is) t"
proof (induction "is" arbitrary: ms s)
  case (Cons i "is")
  obtain m where m: "encoded A tx K (length ms) i = Some m" using Cons.prems(4) by fastforce
  obtain t where t: "s_instruction i s = Some t" "follows L tgt tx K (ms @ [Some m]) t"
    using follows_instruction [OF Cons.prems(1) _ _ m _ tgt] Cons.prems(2,3,5) by fastforce
  show ?case using Cons.IH [OF t(2)] Cons.prems(2-5) t(1) m by simp
qed simp

text \<open>Labels and directives change nothing but the indices.\<close>

lemma follows_label:
  assumes f: "follows L tgt tx K ms s" and n: "length ms \<le> 2 ^ 19" and l: "l \<in> L" and inj: "inj_on hasher L"
  shows "follows L tgt tx (mark l (length ms - 1) K) ms (s_label_here l sec s)"
proof (cases "K l")
  case None
  let ?v = "of_nat (length ms - 1) :: u32" and ?t = "s_label_here l sec s"
  have t: "o_labels (s_obj ?t) = (o_labels (s_obj s))(l \<mapsto> ?v)" "o_addr (s_obj ?t) = (o_addr (s_obj s))(hasher l \<mapsto> ?v)"
      "o_text (s_obj ?t) = o_text (s_obj s)" "o_pending (s_obj ?t) = o_pending (s_obj s)" "s_section ?t = s_section s"
    using f None follows_length [OF f]
    by (simp_all add: s_label_here_def spec_init_label_def spec_last_def follows_def)
  have "\<forall>k \<in> L. o_addr (s_obj ?t) (hasher k) = o_labels (s_obj ?t) k"
    using f t(1,2) l inj by (auto simp: follows_def inj_on_def)
  moreover have "length ms - 1 < 2 ^ 19" using n by simp
  then have "ran (mark l (length ms - 1) K) \<subseteq> {..<2 ^ 19}"
    using f None by (auto simp: follows_def mark_def ran_def)
  moreover have "final_view tgt (s_obj ?t) = final_view tgt (s_obj s)" "branches_pending L (s_obj ?t) = branches_pending L (s_obj s)"
    using t(3,4) by (simp_all add: final_view_def branches_pending_def)
  ultimately show ?thesis
    using f t None by (auto simp: follows_def mark_def fun_eq_iff)
next
  case (Some v)
  then have "s_label_here l sec s = s" using f by (simp add: s_label_here_def spec_init_label_def follows_def)
  then show ?thesis using f Some by (simp add: mark_def)
qed

lemma follows_same:
  assumes "follows L tgt tx K ms s" and "o_text (s_obj t) = o_text (s_obj s)" and "o_pending (s_obj t) = o_pending (s_obj s)"
    and "o_labels (s_obj t) = o_labels (s_obj s)" and "o_addr (s_obj t) = o_addr (s_obj s)"
    and "tx' \<longrightarrow> s_section t = ''.text''"
  shows "follows L tgt tx' K ms t"
  using assms by (simp add: follows_def final_view_def branches_pending_def)

lemma follows_directive:
  assumes f: "follows L tgt tx K ms s" and "length ms \<le> 2 ^ 19" and "set (directive_labels d) \<subseteq> L" and "inj_on hasher L"
  shows "follows L tgt (in_text d tx) (mark_directive d (length ms) K) ms (s_directive d s)"
proof (cases d)
  case (Global_dir l)
  then show ?thesis using follows_label [OF f, of l "''.text''"] assms by (simp add: s_directive_def)
qed (use f in \<open>auto simp: s_directive_def elim!: follows_same simp: follows_def\<close>)

lemma follows_statement_directive:
  assumes f: "follows L tgt tx K ms s" and "length ms \<le> 2 ^ 19" and "set (directive_labels d) \<subseteq> L" and "inj_on hasher L"
    and x: "x = Directive d \<or> x = Label_directive l d"
  shows "\<exists>t. s_statement x s = Some t \<and> follows L tgt (in_text d tx) (mark_directive d (length ms) K) ms t"
proof -
  have d: "follows L tgt (in_text d tx) (mark_directive d (length ms) K) ms (s_directive d s)"
    by (rule follows_directive [OF assms(1-4)])
  have "follows L tgt (in_text d tx) (mark_directive d (length ms) K) ms t" if "s_statement x s = Some t" for t
    by (rule follows_same [OF d])
      (use that x d in \<open>auto simp: s_statement_def Let_def spec_add_data_def follows_def split: if_splits\<close>)
  then show ?thesis using x by (auto simp: s_statement_def Let_def)
qed

lemma follows_statements:
  assumes tgt: "\<And>l. l \<in> L \<Longrightarrow> tgt (hasher l) = of_nat (case A l of None \<Rightarrow> 0 | Some v \<Rightarrow> v)" and inj: "inj_on hasher L"
  shows "follows L tgt tx K ms s \<Longrightarrow> list_all wf_statement ss \<Longrightarrow> set (program_labels ss) \<subseteq> L \<Longrightarrow>
    None \<notin> set (compiled A tx K (length ms) ss) \<Longrightarrow> length ms + length (compiled A tx K (length ms) ss) \<le> 2 ^ 19 \<Longrightarrow>
    \<exists>t tx'. s_statements ss s = Some t \<and>
      follows L tgt tx' (marks ss (length ms) K) (ms @ compiled A tx K (length ms) ss) t"
proof (induction ss arbitrary: tx K ms s)
  case Nil
  then show ?case by auto
next
  case (Cons x ss)
  have labels: "set (statement_labels x) \<subseteq> L" "set (program_labels ss) \<subseteq> L"
    using Cons.prems(3) by (simp_all add: program_labels_def)
  have directive: ?case if d: "x = Directive d \<or> x = Label_directive l d" for l d
  proof -
    have "set (directive_labels d) \<subseteq> L" "length ms \<le> 2 ^ 19" using d labels Cons.prems(5) by auto
    then obtain t where t: "s_statement x s = Some t"
        "follows L tgt (in_text d tx) (mark_directive d (length ms) K) ms t"
      using follows_statement_directive [OF Cons.prems(1) _ _ inj d] by blast
    then show ?thesis using Cons.IH [OF t(2)] Cons.prems(2,4,5) labels d by auto
  qed
  show ?case
  proof (cases x)
    case (Label_insns l "is")
    let ?b = "encoded_block A tx K (length ms) is" and ?n = "length ms + length is"
    have b: "length (encoded_block A tx K n is) = length is" for n by (induction "is" arbitrary: n) simp_all
    obtain t where t: "s_instructions is s = Some t" "follows L tgt tx K (ms @ ?b) t"
      using follows_block [OF tgt Cons.prems(1), of "is"] Cons.prems(2,4,5) Label_insns labels(1) b by auto
    have "follows L tgt tx (mark l (?n - 1) K) (ms @ ?b) (s_label_here l (s_section t) t)"
      using follows_label [OF t(2) _ _ inj, of l "s_section t"] labels(1) Label_insns b Cons.prems(5) by simp
    from Cons.IH [OF this] show ?thesis
      using Cons.prems(2,4,5) labels(2) Label_insns t(1) b by (simp add: s_statement_def)
  qed (use directive in blast)+
qed

theorem compiled_program:
  assumes "ss \<noteq> []" and "list_all wf_statement ss" and "list_all names_ok ss" and "None \<notin> set (compile ss)"
    and "length (compile ss) \<le> 2 ^ 19" and "inj_on hasher (set (program_labels ss))"
  shows "\<exists>a. s_program (yylex_all (program_text ss)) = Some (0, Some a) \<and> map rv_decode (o_text a) = compile ss"
proof -
  define L where "L = set (program_labels ss)"
  define A where "A = marks ss 0 Map.empty"
  define tgt where "tgt h = (of_nat (case A (inv_into L hasher h) of None \<Rightarrow> 0 | Some v \<Rightarrow> v) :: u32)" for h
  have inj: "inj_on hasher L" using assms(6) by (simp add: L_def)
  then have tgt: "\<And>l. l \<in> L \<Longrightarrow> tgt (hasher l) = of_nat (case A l of None \<Rightarrow> 0 | Some v \<Rightarrow> v)"
    by (simp add: tgt_def)
  have start: "follows L tgt False Map.empty [] s_initial"
    by (simp add: follows_def s_initial_def spec_new_def branches_pending_def final_view_def fun_eq_iff)
  have c: "compile ss = compiled A False Map.empty (length ([] :: rv32i option list)) ss"
    by (simp add: compile_def A_def)
  obtain t tx where t: "s_statements ss s_initial = Some t"
      "follows L tgt tx (marks ss (length ([] :: rv32i option list)) Map.empty) ([] @ compile ss) t"
  proof -
    have "set (program_labels ss) \<subseteq> L" by (simp add: L_def)
    moreover have "None \<notin> set (compiled A False Map.empty (length ([] :: rv32i option list)) ss)"
      using assms(4) c by simp
    moreover have "length ([] :: rv32i option list) + length (compiled A False Map.empty (length ([] :: rv32i option list)) ss) \<le> 2 ^ 19"
      using assms(5) unfolding c by simp
    ultimately show ?thesis
      using follows_statements [OF tgt inj start assms(2)] that unfolding c by blast
  qed
  let ?a = "s_obj t"
  note f = followsD [OF t(2)]
  have target: "spec_target ?a q = tgt (insn_hash q)" if q: "q \<in> set (o_pending ?a)" for q
  proof -
    obtain l where l: "l \<in> L" "insn_hash q = hasher l" using branches_pendingD [OF f(2) q] by auto
    then have "o_addr ?a (insn_hash q) = map_option of_nat (A l)" using f(1) [OF l(1)] by (simp add: A_def)
    then show ?thesis using tgt [OF l(1)] l(2) by (simp add: spec_target_def split: option.split)
  qed
  have "map rv_decode (o_text (spec_resolve ?a)) = compile ss"
    using resolved_view [OF f(2) target] f(3) by simp
  then show ?thesis
    using t(1) program_text_parses [OF assms(1-3)] by (simp add: s_program_def)
qed

end
