(* ===== verification/Run_Trace.thy ===== *)
theory Run_Trace
  imports Parse_Progress Assembler_Refine
begin

text \<open>
  The instructions of a program in the order in which their actions run, each with the state of the
  parser in which it starts. The list ends with the instruction that exits, if one does.
\<close>

fun insn_trace :: "instruction list \<Rightarrow> pstate \<Rightarrow> (instruction \<times> pstate) list" where
  "insn_trace [] p = []"
| "insn_trace (i # is) p = (i, p) # (case exec_instruction i p of Inl e \<Rightarrow> [] | Inr p' \<Rightarrow> insn_trace is p')"

fun program_trace :: "statement list \<Rightarrow> instruction list \<Rightarrow> pstate \<Rightarrow> (instruction \<times> pstate) list" where
  "program_trace [] rest p = insn_trace rest p"
| "program_trace (s # ss) rest p = insn_trace (statement_instructions s) p @
     (case exec_statement s p of Inl e \<Rightarrow> [] | Inr p' \<Rightarrow> program_trace ss rest p')"

text \<open>The trace of a source file, including the instructions of a statement that is not finished.\<close>

definition run_trace :: "byte list \<Rightarrow> (instruction \<times> pstate) list" where
  "run_trace src = (case (ELF32_new, parse_statements (yylex_all (chars_of src))) of
     (Inr e, (ss, rest, _)) \<Rightarrow> program_trace ss rest (initial_pstate e)
   | _ \<Rightarrow> [])"

lemma insn_trace_all: "exec_instructions is p = Inr q \<Longrightarrow> map fst (insn_trace is p) = is"
  by (induction "is" arbitrary: p) (auto elim!: andThen_InrE)

text \<open>In a run without an exit every instruction of the program runs.\<close>

lemma program_trace_all:
  "exec_statements ss p = Inr q \<Longrightarrow> map fst (program_trace ss [] p) = concat (map statement_instructions ss)"
proof (induction ss arbitrary: p)
  case (Cons s ss)
  then obtain p' where p': "exec_statement s p = Inr p'" "exec_statements ss p' = Inr q"
    by (auto elim: andThen_InrE)
  have "map fst (insn_trace (statement_instructions s) p) = statement_instructions s"
  proof (cases s)
    case (Label_insns l "is")
    then obtain u where "exec_instructions is p = Inr u" using p'(1) by (auto simp: exec_statement_def elim: andThen_InrE)
    then show ?thesis using insn_trace_all Label_insns by simp
  qed simp_all
  then show ?case using Cons.IH [OF p'(2)] p'(1) by simp
qed simp

end
