(* ===== verification/Label_Use.thy ===== *)
theory Label_Use
  imports Control_Flow Run_Trace
begin

text \<open>
  Which labels are known and which are still wanted when a program has been read, and the pending
  entries: one for each branch or jump whose label was not known when its action ran.
\<close>

fun instruction_refs :: "instruction \<Rightarrow> string set" where
  "instruction_refs (Branch_insn c a b l) = {l}"
| "instruction_refs (Jump_insn l) = {l}"
| "instruction_refs _ = {}"

text \<open>
  A label is defined by the label of a block of instructions, and by \<open>.global\<close>, whose action calls
  \<open>init_label\<close> too. The label in front of a directive names a datum: it gets a symbol, but no
  branch or jump finds it.
\<close>

fun statement_defines :: "statement \<Rightarrow> string set" where
  "statement_defines (Label_insns l is) = {l}"
| "statement_defines (Label_directive l d) = set (directive_labels d)"
| "statement_defines (Directive d) = set (directive_labels d)"

definition defined_labels :: "statement list \<Rightarrow> string set" where
  "defined_labels ss = \<Union> (set (map statement_defines ss))"

definition referenced_labels :: "statement list \<Rightarrow> string set" where
  "referenced_labels ss = \<Union> (set (map (\<lambda>x. \<Union> (set (map instruction_refs (statement_instructions x)))) ss))"

definition uses :: "string set \<Rightarrow> string set \<Rightarrow> sstate \<Rightarrow> bool" where
  "uses D R s \<longleftrightarrow> dom (o_labels (s_obj s)) = D \<and> dom (o_wanted (s_obj s)) = R - D"

text \<open>Emitting, waiting and recording a symbol leave the labels alone; a reference adds a wanted one.\<close>

lemma uses_same:
  "uses D R s \<Longrightarrow> o_labels (s_obj t) = o_labels (s_obj s) \<Longrightarrow> o_wanted (s_obj t) = o_wanted (s_obj s) \<Longrightarrow> uses D R t"
  by (simp add: uses_def)

lemma uses_emit: "uses D R s \<Longrightarrow> uses D R (s_emit w s)"
  by (erule uses_same) (simp_all add: s_emit_def spec_add_text_def)

lemma uses_wait: "uses D R s \<Longrightarrow> uses D R (s_wait ty l s)"
  by (erule uses_same) (simp_all add: s_wait_def spec_add_pending_def)

lemma uses_want: "uses D R s \<Longrightarrow> o_labels (s_obj s) l = None \<Longrightarrow> uses D (insert l R) (s_want l s)"
  by (auto simp: uses_def s_want_def spec_resolve_label_def)

lemma uses_known: "uses D R s \<Longrightarrow> o_labels (s_obj s) l = Some v \<Longrightarrow> uses D (insert l R) s"
  by (auto simp: uses_def)

lemma uses_immediate: "uses D R s \<Longrightarrow> s_immediate c d a i s = Some t \<Longrightarrow> uses D R t"
  by (erule uses_same) (auto simp: s_immediate_def s_emit_def spec_add_text_def spec_add_symbol_def
      split: immediate.splits option.splits if_splits)

lemma uses_instruction:
  assumes u: "uses D R s" and t: "s_instruction i s = Some t"
  shows "uses D (R \<union> instruction_refs i) t"
proof (cases i)
  case (Imm_insn c d a j)
  then show ?thesis using uses_immediate [OF u] t by (simp add: s_instruction_def)
next
  case (Branch_insn c a b l)
  then show ?thesis
    using t uses_emit [OF uses_known [OF u, of l]] uses_emit [OF uses_wait [OF uses_want [OF u, of l]]]
    by (auto simp: s_instruction_def s_branch_def split: option.splits)
next
  case (Jump_insn l)
  then show ?thesis
    using t uses_emit [OF uses_known [OF u, of l]] uses_wait [OF uses_want [OF u, of l]]
    by (auto simp: s_instruction_def s_jump_def Let_def split: option.splits if_splits)
qed (use t uses_emit [OF u] u in \<open>auto simp: s_instruction_def\<close>)

lemma uses_instructions:
  "uses D R s \<Longrightarrow> s_instructions is s = Some t \<Longrightarrow> uses D (R \<union> \<Union> (set (map instruction_refs is))) t"
proof (induction "is" arbitrary: R s)
  case (Cons i "is")
  then obtain u where u: "s_instruction i s = Some u" "s_instructions is u = Some t" by (auto split: option.splits)
  then show ?case using Cons.IH [OF uses_instruction [OF Cons.prems(1) u(1)] u(2)] by (simp add: Un_assoc)
qed simp

lemma uses_label: "uses D R s \<Longrightarrow> uses (insert l D) R (s_label_here l sec s)"
  by (auto simp: uses_def s_label_here_def spec_init_label_def dom_def set_eq_iff)

lemma uses_directive: "uses D R s \<Longrightarrow> uses (D \<union> set (directive_labels d)) R (s_directive d s)"
  using uses_label [of D R s _ "''.text''"] by (cases d) (auto simp: s_directive_def uses_def)

lemma uses_statement:
  assumes "uses D R s" and "s_statement x s = Some t"
  shows "uses (D \<union> statement_defines x) (R \<union> \<Union> (set (map instruction_refs (statement_instructions x)))) t"
proof (cases x)
  case (Label_insns l "is")
  then obtain u where "s_instructions is s = Some u" "t = s_label_here l (s_section u) u"
    using assms(2) by (auto simp: s_statement_def)
  then show ?thesis using uses_label [OF uses_instructions [OF assms(1)]] Label_insns by auto
next
  case (Label_directive l d)
  have "o_labels (s_obj t) = o_labels (s_obj (s_directive d s))" "o_wanted (s_obj t) = o_wanted (s_obj (s_directive d s))"
    using assms(2) Label_directive by (auto simp: s_statement_def Let_def spec_add_data_def)
  then show ?thesis using uses_directive [OF assms(1), of d] Label_directive by (simp add: uses_def)
next
  case (Directive d)
  then show ?thesis using uses_directive [OF assms(1), of d] assms(2) by (simp add: s_statement_def)
qed

lemma uses_statements:
  "uses D R s \<Longrightarrow> s_statements ss s = Some t \<Longrightarrow> uses (D \<union> defined_labels ss) (R \<union> referenced_labels ss) t"
proof (induction ss arbitrary: D R s)
  case Nil
  then show ?case by (simp add: defined_labels_def referenced_labels_def)
next
  case (Cons x ss)
  then obtain u where u: "s_statement x s = Some u" "s_statements ss u = Some t" by (auto split: option.splits)
  then show ?case
    using Cons.IH [OF uses_statement [OF Cons.prems(1) u(1)] u(2)]
    by (simp add: Un_assoc defined_labels_def referenced_labels_def)
qed

section \<open>The pending entries\<close>

definition entries_of :: "instruction \<times> pstate \<Rightarrow> UnresolvedInst32 list" where
  "entries_of ip = (case ip of
     (Branch_insn c a b l, p) \<Rightarrow> if map_find (resolved_labels (elf p)) l = None then [entry_for B_TYPE l p] else []
   | (Jump_insn l, p) \<Rightarrow> if map_find (resolved_labels (elf p)) l = None then [entry_for J_TYPE l p] else []
   | _ \<Rightarrow> [])"

lemma instruction_entries:
  assumes p: "prep p s" and t: "s_instruction i s = Some t"
  shows "o_pending (s_obj t) = o_pending (s_obj s) @ entries_of (i, p)"
proof -
  have k: "map_find (resolved_labels (elf p)) l = o_labels (s_obj s) l" for l
    using p by (simp add: prep_def elf_rep_def)
  show ?thesis
    using t entry_for_rep [OF p]
    by (auto simp: s_instruction_def s_immediate_def s_branch_def s_jump_def s_emit_def s_wait_def s_want_def
        spec_add_text_def spec_add_pending_def spec_resolve_label_def spec_add_symbol_def entries_of_def k Let_def s_next_def
        split: instruction.splits immediate.splits option.splits if_splits)
qed

lemma instructions_entries:
  "prep p s \<Longrightarrow> s_instructions is s = Some t \<Longrightarrow>
     o_pending (s_obj t) = o_pending (s_obj s) @ concat (map entries_of (insn_trace is p))"
proof (induction "is" arbitrary: p s)
  case (Cons i "is")
  then obtain u where u: "s_instruction i s = Some u" "s_instructions is u = Some t" by (auto split: option.splits)
  then obtain q where q: "exec_instruction i p = Inr q" "prep q u"
    using instruction_refines [OF Cons.prems(1), of i] by (auto simp: refines_def)
  show ?case
    using Cons.IH [OF q(2) u(2)] instruction_entries [OF Cons.prems(1) u(1)] q(1) by simp
qed simp

lemma pending_directive: "o_pending (s_obj (s_directive d s)) = o_pending (s_obj s)"
  by (cases d) (simp_all add: s_directive_def s_label_here_def spec_init_label_def)

lemma statement_entries:
  assumes p: "prep p s" and t: "s_statement x s = Some t"
  shows "o_pending (s_obj t) = o_pending (s_obj s) @ concat (map entries_of (insn_trace (statement_instructions x) p))"
proof (cases x)
  case (Label_insns l "is")
  then obtain u where "s_instructions is s = Some u" "t = s_label_here l (s_section u) u"
    using t by (auto simp: s_statement_def)
  then show ?thesis
    using instructions_entries [OF p] Label_insns by (simp add: s_label_here_def spec_init_label_def)
qed (use t pending_directive in \<open>auto simp: s_statement_def spec_add_data_def Let_def\<close>)

lemma statements_entries:
  "prep p s \<Longrightarrow> s_statements ss s = Some t \<Longrightarrow>
     o_pending (s_obj t) = o_pending (s_obj s) @ concat (map entries_of (program_trace ss [] p))"
proof (induction ss arbitrary: p s)
  case (Cons x ss)
  then obtain u where u: "s_statement x s = Some u" "s_statements ss u = Some t" by (auto split: option.splits)
  then obtain q where q: "exec_statement x p = Inr q" "prep q u"
    using statement_refines [OF Cons.prems(1), of x] by (auto simp: refines_def)
  show ?case
    using Cons.IH [OF q(2) u(2)] statement_entries [OF Cons.prems(1) u(1)] q(1) by simp
qed simp

theorem label_use:
  assumes "ELF32_new = Inr e" and "exec_statements ss (initial_pstate e) = Inr q"
  shows "dom (map_find (resolved_labels (elf q))) = defined_labels ss"
    and "dom (map_find (unresolved_labels (elf q))) = referenced_labels ss - defined_labels ss"
    and "unresolved_instructions (elf q) = concat (map entries_of (program_trace ss [] (initial_pstate e)))"
    and "hasher ` defined_labels ss \<subseteq> dom (map_find (label_to_addr (elf q)))"
proof -
  have "elf_rep e spec_new" using ELF32_new_refines assms(1) by (metis Inr_inject)
  then have p: "prep (initial_pstate e) s_initial" by (rule prep_initial)
  from statements_refine [OF p, of ss] obtain t where t: "s_statements ss s_initial = Some t" "prep q t"
    using assms(2) by (auto simp: refines_def split: option.splits)
  have "uses {} {} s_initial" by (simp add: uses_def s_initial_def spec_new_def)
  from uses_statements [OF this t(1)] show known:
      "dom (map_find (resolved_labels (elf q))) = defined_labels ss" and
      "dom (map_find (unresolved_labels (elf q))) = referenced_labels ss - defined_labels ss"
    using t(2) by (simp_all add: uses_def prep_def elf_rep_def)
  show "unresolved_instructions (elf q) = concat (map entries_of (program_trace ss [] (initial_pstate e)))"
    using statements_entries [OF p t(1)] t(2) by (simp add: prep_def elf_rep_def s_initial_def spec_new_def)
  have "obj_ok (s_obj t)" "map_find (resolved_labels (elf q)) = o_labels (s_obj t)"
      "map_find (label_to_addr (elf q)) = o_addr (s_obj t)"
    using t(2) by (simp_all add: prep_def elf_rep_def)
  then show "hasher ` defined_labels ss \<subseteq> dom (map_find (label_to_addr (elf q)))"
    unfolding known [symmetric] using obj_okD(3) by fastforce
qed

end
