(* ===== verification/Diagnostics.thy ===== *)
theory Diagnostics
  imports Run_Trace
begin

text \<open>
  The last line that the assembler writes to standard output when it exits after a failed range
  check: the message of \<open>exit_with_message\<close>, with the line counter of the scanner and the text that
  the actions of the grammar collect. The counter is that of the token shifted last: the actions
  that can exit are reduced without a lookahead token.
\<close>

section \<open>Lines\<close>

text \<open>
  The two rules that increment \<open>linenum\<close>: the second class matches a backslash or the letter n.
  The counter starts at 0 and is read after the \<open>k\<close>-th token.
\<close>

definition counts_line :: "string \<Rightarrow> bool" where
  "counts_line yytext \<longleftrightarrow> yytext \<in> {[newline_char], [CHR 0x5C], ''n''}"

fun linenum :: "nat \<Rightarrow> (rule \<times> string) list \<Rightarrow> nat" where
  "linenum k [] = 0"
| "linenum k ((r, yytext) # ls) =
     (if k = 0 then 0
      else if snd r yytext = None then (if counts_line yytext then 1 else 0) + linenum k ls
      else linenum (k - 1) ls)"

section \<open>What the message is made of\<close>

text \<open>
  \<open>current_stmt\<close>: the prefix that the productions of \<open>opcode_immediate\<close> assign, and the operands the
  action appends; the third is the number of the \<open>imm_kind\<close>.
\<close>

definition mnemonic_prefix :: "keyword \<Rightarrow> string" where
  "mnemonic_prefix k = (if k = K_ADDI then ''addi '' else if k = K_SLTI then ''slti'' else if k = K_ORI then ''ori ''
     else if k = K_XORI then ''xori '' else if k = K_ANDI then ''andi '' else [])"

definition imm_kind_number :: "immediate \<Rightarrow> nat" where
  "imm_kind_number i = (case i of IMM_INT v \<Rightarrow> 1 | IMM_SYMBOL l \<Rightarrow> 2 | MODIFIER_ABS_HI l \<Rightarrow> 3)"

definition immediate_stmt :: "opcode_t \<Rightarrow> u32 \<Rightarrow> u32 \<Rightarrow> immediate \<Rightarrow> string" where
  "immediate_stmt c d a i = mnemonic_prefix (key_of opcode_immediate c) @ ''x'' @ show_int (sint d) @
     '', x'' @ show_int (sint a) @ '', '' @ digits 10 (imm_kind_number i)"

text \<open>The value and the statement that the action of an instruction hands to \<open>exit_with_message\<close>.\<close>

definition offending :: "instruction \<Rightarrow> pstate \<Rightarrow> string \<times> string" where
  "offending i p = (case i of
     Imm_insn c d a (IMM_INT v) \<Rightarrow> (show_int (sint v), immediate_stmt c d a (IMM_INT v))
   | Jump_insn l \<Rightarrow> (digits 10 (unat (push_bit 1 (fst (snd (resolve_label l (elf p)))) AND 0x1FFFFF)), ''j label'')
   | _ \<Rightarrow> ([], []))"

text \<open>
  The line number is printed in the base that is set: a branch and a jump to a known label leave
  \<open>std::cout\<close> in hexadecimal.
\<close>

definition leaves_hex :: "instruction \<Rightarrow> pstate \<Rightarrow> bool" where
  "leaves_hex i p = (case i of Branch_insn c a b l \<Rightarrow> True | Jump_insn l \<Rightarrow> label_exists l (elf p) | _ \<Rightarrow> False)"

record report =
  rp_tokens :: nat
  rp_hex :: bool
  rp_what :: "string \<times> string"

definition exit_message_text :: "string \<Rightarrow> nat \<Rightarrow> bool \<Rightarrow> string \<times> string \<Rightarrow> string" where
  "exit_message_text source_filename line_no hex what =
     source_filename @ '':'' @ digits (if hex then 16 else 10) line_no @ '':'' @ '' '' @
     ''value is out of the acceptable range'' @ '' '' @ fst what @ '' in '' @ snd what @ [newline_char]"

section \<open>Where the run stops\<close>

text \<open>
  A reading of the run, without a counterpart in the source: the actions in order up to the one that
  exits, with the number of tokens taken by then, on which \<open>linenum\<close> depends, and the base of \<open>std::cout\<close>.
\<close>

fun instructions_report :: "instruction list \<Rightarrow> pstate \<Rightarrow> nat \<Rightarrow> bool \<Rightarrow> report option" where
  "instructions_report [] p n h = None"
| "instructions_report (i # is) p n h =
     (let n = n + length (instruction_tokens i) in
      case exec_instruction i p of
        Inl e \<Rightarrow> Some \<lparr>rp_tokens = n, rp_hex = h, rp_what = offending i p\<rparr>
      | Inr p' \<Rightarrow> instructions_report is p' n (h \<or> leaves_hex i p))"

fun instructions_hex :: "instruction list \<Rightarrow> pstate \<Rightarrow> bool" where
  "instructions_hex [] p = False"
| "instructions_hex (i # is) p =
     (leaves_hex i p \<or> (case exec_instruction i p of Inl e \<Rightarrow> False | Inr p' \<Rightarrow> instructions_hex is p'))"

fun statements_report :: "statement list \<Rightarrow> instruction list \<Rightarrow> pstate \<Rightarrow> nat \<Rightarrow> bool \<Rightarrow> report option" where
  "statements_report [] rest p n h = instructions_report rest p (n + 2) h"
| "statements_report (s # ss) rest p n h =
     (case exec_statement s p of
        Inl e \<Rightarrow> instructions_report (statement_instructions s) p (n + 2) h
      | Inr p' \<Rightarrow> statements_report ss rest p' (n + length (statement_tokens s)) (h \<or> instructions_hex (statement_instructions s) p))"

text \<open>The source name is not set when an output name is given.\<close>

definition exit_message :: "string list \<Rightarrow> byte list \<Rightarrow> string option" where
  "exit_message argv src =
    (let s = chars_of src in
     case (ELF32_new, parse_statements (yylex_all s)) of
       (Inr e, (ss, rest, _)) \<Rightarrow>
         map_option (\<lambda>r. exit_message_text (if length argv = 4 then [] else argv ! 1)
             (linenum (rp_tokens r) (lexemes s)) (rp_hex r) (rp_what r))
           (statements_report ss rest (initial_pstate e) 0 False)
     | _ \<Rightarrow> None)"

section \<open>The message is written exactly when the run stops\<close>

lemma instructions_report_None: "instructions_report is p n h = None \<longleftrightarrow> (\<exists>q. exec_instructions is p = Inr q)"
  by (induction "is" arbitrary: p n h) (auto simp: Let_def split: sum.splits)

lemma block_stops:
  assumes p: "prep p s" and e: "exec_statement x p = Inl e"
  shows "\<not> (\<exists>q. exec_instructions (statement_instructions x) p = Inr q)"
proof (cases x)
  case (Label_insns l "is")
  show ?thesis
  proof
    assume "\<exists>q. exec_instructions (statement_instructions x) p = Inr q"
    then obtain q where q: "exec_instructions is p = Inr q" using Label_insns by auto
    then obtain t where "prep q t"
      using instructions_refine [OF p, of "is"] by (auto simp: refines_def split: option.splits)
    then have "refines (exec_statement x p) (Some (s_label_here l (s_section t) t))"
      using label_here_refines [of q t l False] q Label_insns by (simp add: exec_statement_def)
    then show False using e by (simp add: refines_def)
  qed
next
  case (Label_directive l d)
  then show ?thesis using statement_refines [OF p, of x] e by (auto simp: refines_def s_statement_def Let_def)
next
  case (Directive d)
  then show ?thesis using statement_refines [OF p, of x] e by (auto simp: refines_def s_statement_def)
qed

lemma statements_report_None:
  "prep p s \<Longrightarrow> statements_report ss rest p n h = None \<longleftrightarrow>
     (\<exists>q r. exec_statements ss p = Inr q \<and> exec_instructions rest q = Inr r)"
proof (induction ss arbitrary: p s n h)
  case Nil
  then show ?case by (simp add: instructions_report_None)
next
  case (Cons x ss)
  show ?case
  proof (cases "exec_statement x p")
    case (Inl e)
    then show ?thesis using block_stops [OF Cons.prems Inl] by (simp add: instructions_report_None)
  next
    case (Inr p')
    then obtain s' where "prep p' s'"
      using statement_refines [OF Cons.prems, of x] by (auto simp: refines_def split: option.splits)
    then show ?thesis using Inr Cons.IH by simp
  qed
qed

lemma program_runs:
  assumes "prep p s_initial" and "parse_statements ts = (ss, rest, oc)"
  shows "(\<exists>q r. exec_statements ss p = Inr q \<and> exec_instructions rest q = Inr r) \<longleftrightarrow> s_program ts \<noteq> None"
proof (cases "s_statements ss s_initial")
  case None
  then show ?thesis
    using statements_refine [OF assms(1), of ss] assms(2) by (simp add: refines_def s_program_def)
next
  case (Some t)
  then obtain q where q: "exec_statements ss p = Inr q" "prep q t"
    using statements_refine [OF assms(1), of ss] by (auto simp: refines_def)
  then show ?thesis
    using instructions_refine [OF q(2), of rest] assms(2) Some
    by (auto simp: refines_def s_program_def split: option.splits)
qed

theorem exit_message_iff:
  assumes "2 \<le> length argv" and "fs (argv ! 1) = Some src"
  shows "riscvass_main junk writable argv fs = Inl (Exit 1) \<longleftrightarrow> exit_message argv src \<noteq> None"
proof -
  obtain e where e: "ELF32_new = Inr e" "elf_rep e spec_new" using ELF32_new_refines by blast
  obtain ss rest oc where st: "parse_statements (yylex_all (chars_of src)) = (ss, rest, oc)"
    by (cases "parse_statements (yylex_all (chars_of src))") auto
  have p: "prep (initial_pstate e) s_initial" by (rule prep_initial [OF e(2)])
  have "exit_message argv src = None \<longleftrightarrow> s_program (yylex_all (chars_of src)) \<noteq> None"
    using statements_report_None [OF p] program_runs [OF p st] st by (simp add: exit_message_def e(1) Let_def)
  then show ?thesis
    using assms by (auto simp: riscvass_main_refines split: option.splits)
qed


section \<open>The message points at the literal or label that is at fault\<close>

definition culprit :: "token \<Rightarrow> string \<times> string \<Rightarrow> bool" where
  "culprit t what = (case t of
     T_IMM v \<Rightarrow> \<not> is_within_range_12b v \<and> fst what = show_int (sint v)
   | T_SYMBOL l \<Rightarrow> snd what = ''j label''
   | _ \<Rightarrow> False)"

lemma stops_at:
  assumes p: "prep p s" and e: "exec_instruction i p = Inl e" and g: "g_instruction us i"
  shows "e = Exit 1 \<and> us \<noteq> [] \<and> culprit (last us) (offending i p)"
proof -
  have "e = Exit 1" "s_instruction i s = None"
    using instruction_refines [OF p, of i] e by (auto simp: refines_def split: option.splits)
  then consider (imm) c d a v where "i = Imm_insn c d a (IMM_INT v)" "\<not> is_within_range_12b v"
    | (jump) l where "i = Jump_insn l"
    by (auto simp: s_instruction_def s_immediate_def split: instruction.splits immediate.splits if_splits)
  then show ?thesis
  proof cases
    case imm
    then obtain k where "us = [Key k, T_REG d, Key K_COMMA, T_REG a, Key K_COMMA] @ [T_IMM v]"
      using g by (auto elim!: g_instruction.cases g_immediate.cases)
    then show ?thesis using imm \<open>e = Exit 1\<close> by (simp add: culprit_def offending_def)
  next
    case jump
    then have "us = [Key K_JUMP] @ [T_SYMBOL l]" using g by (auto elim: g_instruction.cases)
    then show ?thesis using jump \<open>e = Exit 1\<close> by (simp add: culprit_def offending_def)
  qed
qed

text \<open>Whether one of the actions that have run has left \<open>std::cout\<close> in hexadecimal.\<close>

definition left_hex :: "(instruction \<times> pstate) list \<Rightarrow> bool" where
  "left_hex tr \<longleftrightarrow> list_ex (\<lambda>(i, p). leaves_hex i p) tr"

lemma left_hex_simps [simp]:
  "\<not> left_hex []" "left_hex (x # tr) \<longleftrightarrow> leaves_hex (fst x) (snd x) \<or> left_hex tr" "left_hex (tr @ tr') \<longleftrightarrow> left_hex tr \<or> left_hex tr'"
  by (auto simp: left_hex_def)

lemma instructions_left_hex:
  "exec_instructions is p = Inr q \<Longrightarrow> left_hex (insn_trace is p) \<longleftrightarrow> instructions_hex is p"
  by (induction "is" arbitrary: p) (auto elim!: andThen_InrE)

lemma statement_left_hex:
  "exec_statement x p = Inr q \<Longrightarrow>
     left_hex (insn_trace (statement_instructions x) p) \<longleftrightarrow> instructions_hex (statement_instructions x) p"
  using instructions_left_hex by (cases x) (fastforce simp: exec_statement_def elim!: andThen_InrE)+

text \<open>
  The instruction at which the run stops: the last of the trace, with its tokens \<open>us\<close> between \<open>u\<close> and
  \<open>v\<close> in the input.
\<close>

definition stops_with :: "(instruction \<times> pstate) list \<Rightarrow> token list \<Rightarrow> nat \<Rightarrow> bool \<Rightarrow> report \<Rightarrow> bool" where
  "stops_with trace ts n h r \<longleftrightarrow> (\<exists>tr i q u us v. trace = tr @ [(i, q)] \<and> exec_instruction i q = Inl (Exit 1) \<and>
     ts = u @ us @ v \<and> g_instruction us i \<and> us \<noteq> [] \<and> culprit (last us) (offending i q) \<and>
     r = \<lparr>rp_tokens = n + length u + length us, rp_hex = (h \<or> left_hex tr), rp_what = offending i q\<rparr>)"

lemma stops_with_shift:
  assumes "stops_with trace ts (n + length w) (h \<or> left_hex tr0) r"
  shows "stops_with (tr0 @ trace) (w @ ts @ z) n h r"
proof -
  obtain tr i q u us v where s: "trace = tr @ [(i, q)]" "exec_instruction i q = Inl (Exit 1)" "ts = u @ us @ v"
      "g_instruction us i" "us \<noteq> []" "culprit (last us) (offending i q)"
      "r = \<lparr>rp_tokens = n + length w + length u + length us, rp_hex = ((h \<or> left_hex tr0) \<or> left_hex tr), rp_what = offending i q\<rparr>"
    using assms unfolding stops_with_def by blast
  show ?thesis
    unfolding stops_with_def
    by (intro exI [of _ "tr0 @ tr"] exI [of _ i] exI [of _ q] exI [of _ "w @ u"] exI [of _ us] exI [of _ "v @ z"])
      (use s in simp)
qed

lemma instructions_report_points:
  "list_all2 g_instruction uss is \<Longrightarrow> prep p s \<Longrightarrow> instructions_report is p n h = Some r \<Longrightarrow>
     stops_with (insn_trace is p) (concat uss) n h r"
proof (induction arbitrary: p s n h rule: list_all2_induct)
  case (Cons us uss i "is")
  note len = instruction_length [OF Cons.hyps(1)]
  show ?case
  proof (cases "exec_instruction i p")
    case (Inl e)
    then show ?thesis
      using Cons.prems(2) stops_at [OF Cons.prems(1) Inl Cons.hyps(1)] Cons.hyps(1) len
      unfolding stops_with_def
      by (intro exI [of _ "[]"] exI [of _ i] exI [of _ p] exI [of _ us] exI [of _ "concat uss"]) (auto simp: Let_def)
  next
    case (Inr p')
    then obtain s' where s': "prep p' s'"
      using instruction_refines [OF Cons.prems(1), of i] by (auto simp: refines_def split: option.splits)
    have "stops_with (insn_trace is p') (concat uss) (n + length us) (h \<or> left_hex [(i, p)]) r"
      using Cons.IH [OF s'] Cons.prems(2) Inr len by (simp add: Let_def)
    from stops_with_shift [OF this, of "[]"] show ?thesis using Inr by simp
  qed
qed simp

lemma statements_report_points:
  "parse_statements ts = (ss, rest, oc) \<Longrightarrow> prep p s \<Longrightarrow> statements_report ss rest p n h = Some r \<Longrightarrow>
     stops_with (program_trace ss rest p) ts n h r"
proof (induction ts arbitrary: ss rest oc p s n h rule: parse_statements.induct)
  case (1 ts)
  have block: "stops_with (insn_trace js p) ts n h r"
    if q: "instructions_report js p (n + 2) h = Some r" and ts: "ts = t # t' # concat uss @ w" "list_all2 g_instruction uss js"
    for js t t' uss w
    using stops_with_shift [of "insn_trace js p" "concat uss" n "[t, t']" h "[]" r w]
      instructions_report_points [OF ts(2) "1.prems"(2) q] ts(1) by simp
  show ?case
  proof (cases "parse_statement ts")
    case (Inl js)
    then have e: "ss = []" "rest = js" using "1.prems"(1) by (simp_all add: parse_statements.simps [of ts])
    then have q: "instructions_report js p (n + 2) h = Some r" using "1.prems"(3) by simp
    then have "js \<noteq> []" by auto
    then obtain t t' uss w where "ts = t # t' # concat uss @ w" "list_all2 g_instruction uss js"
      using unfinished_tokens [OF Inl] by blast
    then show ?thesis using block [OF q] e by simp
  next
    case (Inr y)
    then obtain x w where x: "parse_statement ts = Inr (x, w)" by (cases y) auto
    obtain us where us: "ts = us @ w" "length us = length (statement_tokens x)"
        "statement_instructions x \<noteq> [] \<longrightarrow> (\<exists>t t' uss. us = t # t' # concat uss \<and> list_all2 g_instruction uss (statement_instructions x))"
      using block_tokens [OF x] by blast
    obtain zs zrest zoc where ss: "ss = x # zs" and tail: "zs \<noteq> [] \<or> rest \<noteq> [] \<Longrightarrow>
        starts_statement w \<and> w \<noteq> [] \<and> parse_statements w = (zs, rest, zoc)"
      using "1.prems"(1) x by (auto simp: parse_statements.simps [of ts] split: if_splits prod.splits)
    show ?thesis
    proof (cases "exec_statement x p")
      case (Inl e)
      then have q: "instructions_report (statement_instructions x) p (n + 2) h = Some r" using "1.prems"(3) ss by simp
      then have "statement_instructions x \<noteq> []" by auto
      then obtain t t' uss where "us = t # t' # concat uss" "list_all2 g_instruction uss (statement_instructions x)"
        using us(3) by blast
      then show ?thesis using block [OF q, of t t' uss w] us(1) ss Inl by simp
    next
      case (Inr p')
      then obtain s' where s': "prep p' s'"
        using statement_refines [OF "1.prems"(2), of x] by (auto simp: refines_def split: option.splits)
      let ?h = "left_hex (insn_trace (statement_instructions x) p)"
      have q: "statements_report zs rest p' (n + length us) (h \<or> ?h) = Some r"
        using "1.prems"(3) ss Inr us(2) statement_left_hex [OF Inr] by simp
      then have "zs \<noteq> [] \<or> rest \<noteq> []" by auto
      then have "stops_with (program_trace zs rest p') w (n + length us) (h \<or> ?h) r"
        using tail "1.IH" [OF x refl _ _ _ s' q] by blast
      from stops_with_shift [OF this, of "[]"] show ?thesis using us(1) ss Inr by simp
    qed
  qed
qed

section \<open>Where the message says that the run stopped\<close>

text \<open>
  The tokens of a list of lexemes, and the number of lexemes among those that the scanner skips which
  its two line rules match: line breaks, and a backslash or an n on its own. A line break inside a
  string is none of them.
\<close>

definition tokens_of :: "(rule \<times> string) list \<Rightarrow> token list" where
  "tokens_of ls = List.map_filter (\<lambda>l. snd (fst l) (snd l)) ls"

definition skipped_lines :: "(rule \<times> string) list \<Rightarrow> nat" where
  "skipped_lines ls = length (filter (\<lambda>l. snd (fst l) (snd l) = None \<and> counts_line (snd l)) ls)"

lemma tokens_of_simps [simp]:
  "tokens_of [] = []" "tokens_of (ls @ ls') = tokens_of ls @ tokens_of ls'"
  "snd (fst l) (snd l) = None \<Longrightarrow> tokens_of (l # ls) = tokens_of ls"
  "snd (fst l) (snd l) = Some t \<Longrightarrow> tokens_of (l # ls) = t # tokens_of ls"
  by (simp_all add: tokens_of_def List.map_filter_def)

lemma linenum_at:
  "tokens_of ls = u @ t # v \<Longrightarrow>
     \<exists>pre l post. ls = pre @ l # post \<and> tokens_of pre = u \<and> tokens_of [l] = [t] \<and>
       linenum (Suc (length u)) ls = skipped_lines pre"
proof (induction ls arbitrary: u)
  case Nil
  then show ?case by simp
next
  case (Cons l ls)
  obtain r w where l: "l = (r, w)" by (cases l) auto
  show ?case
  proof (cases "snd r w")
    case None
    then have "tokens_of ls = u @ t # v" using Cons.prems l by simp
    from Cons.IH [OF this] obtain pre m post where "ls = pre @ m # post" "tokens_of pre = u" "tokens_of [m] = [t]"
        "linenum (Suc (length u)) ls = skipped_lines pre" by blast
    then show ?thesis
      using l None by (intro exI [of _ "l # pre"] exI [of _ m] exI [of _ post]) (auto simp: skipped_lines_def)
  next
    case (Some t')
    show ?thesis
    proof (cases u)
      case Nil
      have "linenum 0 ls = 0" by (cases ls) auto
      then show ?thesis
        using Nil Some Cons.prems l
        by (intro exI [of _ "[]"] exI [of _ l] exI [of _ ls]) (simp add: skipped_lines_def)
    next
      case (Cons t'' u')
      then have t: "t'' = t'" "tokens_of ls = u' @ t # v" using Cons.prems l Some by simp_all
      from Cons.IH [OF t(2)] obtain pre m post where "ls = pre @ m # post" "tokens_of pre = u'" "tokens_of [m] = [t]"
          "linenum (Suc (length u')) ls = skipped_lines pre" by blast
      then show ?thesis
        using l Some Cons t(1) by (intro exI [of _ "l # pre"] exI [of _ m] exI [of _ post]) (simp add: skipped_lines_def)
    qed
  qed
qed

text \<open>For an ordinary source that is the number of line breaks, one less than the number of the line.\<close>

definition ordinary_lines :: "(rule \<times> string) list \<Rightarrow> bool" where
  "ordinary_lines ls \<longleftrightarrow> list_all (\<lambda>(r, w). w \<noteq> [CHR 0x5C] \<and> w \<noteq> ''n'' \<and> (newline_char \<in> set w \<longrightarrow> w = [newline_char])) ls"

lemma newline_rules:
  assumes "r \<in> set rules" and "matches (fst r) [newline_char]"
  shows "snd r w = None"
proof -
  have "nullable (deriv newline_char (fst r))"
    using assms(2) by (simp add: matches_deriv flip: matches_nil)
  with assms(1) show ?thesis
    by (auto simp: rules_def rules_defs skip_def one_of_def newline_char_def alnum_def between_def plus_def opt_def
        digits_class_def)
qed

lemma skipped_lines_newlines:
  assumes "set ls \<subseteq> set (lexemes s)" and "ordinary_lines ls"
  shows "skipped_lines ls = count_list (concat (map snd ls)) newline_char"
  using assms
proof (induction ls)
  case (Cons l ls)
  obtain r w where l: "l = (r, w)" by (cases l) auto
  have "(r, w) \<in> set (lexemes s)" using Cons.prems(1) l by simp
  then have rw: "r \<in> set rules" "matches (fst r) w" using lexemes_matches by blast+
  show ?case
  proof (cases "w = [newline_char]")
    case True
    then show ?thesis using Cons l rw newline_rules [of r w]
      by (simp add: ordinary_lines_def skipped_lines_def counts_line_def)
  next
    case False
    then have "newline_char \<notin> set w" "\<not> counts_line w" using Cons.prems(2) l by (auto simp: ordinary_lines_def counts_line_def)
    then show ?thesis using Cons l by (simp add: ordinary_lines_def skipped_lines_def count_list_0_iff)
  qed
qed (simp add: skipped_lines_def)

lemma yylex_all_tokens: "yylex_all s = tokens_of (lexemes s)"
  by (simp add: yylex_all_def tokens_of_def case_prod_beta')

theorem exit_message_points:
  assumes "exit_message argv src = Some m"
  shows "\<exists>tr i q us pre l post u. run_trace src = tr @ [(i, q)] \<and> exec_instruction i q = Inl (Exit 1) \<and>
    lexemes (chars_of src) = pre @ l # post \<and> tokens_of (pre @ [l]) = u @ us \<and> g_instruction us i \<and>
    culprit (last us) (offending i q) \<and>
    m = exit_message_text (if length argv = 4 then [] else argv ! 1) (skipped_lines pre) (left_hex tr) (offending i q)"
proof -
  let ?s = "chars_of src"
  obtain e where e: "ELF32_new = Inr e" "elf_rep e spec_new" using ELF32_new_refines by blast
  obtain ss rest oc where st: "parse_statements (yylex_all ?s) = (ss, rest, oc)"
    by (cases "parse_statements (yylex_all ?s)") auto
  obtain r where r: "statements_report ss rest (initial_pstate e) 0 False = Some r" and
      m: "m = exit_message_text (if length argv = 4 then [] else argv ! 1)
             (linenum (rp_tokens r) (lexemes ?s)) (rp_hex r) (rp_what r)"
    using assms by (auto simp: exit_message_def e(1) st Let_def)
  from statements_report_points [OF st prep_initial [OF e(2)] r]
  obtain tr i q u us v where t: "program_trace ss rest (initial_pstate e) = tr @ [(i, q)]" "exec_instruction i q = Inl (Exit 1)"
      "yylex_all ?s = u @ us @ v" "g_instruction us i" "us \<noteq> []" "culprit (last us) (offending i q)"
      and rr: "rp_tokens r = length u + length us" "rp_hex r = left_hex tr" "rp_what r = offending i q"
    by (auto simp: stops_with_def)
  have us: "us = butlast us @ [last us]" using t(5) by simp
  then have "tokens_of (lexemes ?s) = (u @ butlast us) @ last us # v"
    using t(3) by (metis yylex_all_tokens append_Cons append_assoc append_Nil)
  from linenum_at [OF this] obtain pre l post where p: "lexemes ?s = pre @ l # post" "tokens_of pre = u @ butlast us"
      "tokens_of [l] = [last us]" "linenum (Suc (length (u @ butlast us))) (lexemes ?s) = skipped_lines pre"
    by blast
  have "rp_tokens r = Suc (length (u @ butlast us))" using rr(1) t(5) by (cases us) auto
  then have m': "m = exit_message_text (if length argv = 4 then [] else argv ! 1) (skipped_lines pre) (left_hex tr) (offending i q)"
    using m p(4) rr(2,3) by (simp only:)
  have toks: "tokens_of (pre @ [l]) = u @ us" using p(2,3) us by simp
  have run: "run_trace src = tr @ [(i, q)]" by (simp add: run_trace_def e(1) st t(1))
  show ?thesis using run t(2) p(1) toks t(4,6) m' by blast
qed

end
