(* ===== verification/Console.thy ===== *)
theory Console
  imports Diagnostics Dis_Reader
begin

text \<open>
  Everything that the assembler writes to standard output and standard error. An action prints
  when it is reduced, the scanner when it fetches a token; the two are interleaved by the number
  of tokens fetched, the end of the input counted as one. Standard output keeps its base from one
  line to the next: after the first \<open>std::hex\<close> all numbers are hexadecimal.
\<close>

section \<open>What the operations of the object print\<close>

abbreviation nl :: item where
  "nl \<equiv> Str newline"

definition init_label_items :: "string \<Rightarrow> string \<Rightarrow> ELF32 \<Rightarrow> item list" where
  "init_label_items the_label sect e =
     (if label_exists the_label e then []
      else [Str ''init_label: '', Str the_label, Str '', section: '', Str sect, nl])"

definition visibility_items :: "string \<Rightarrow> ELF32 \<Rightarrow> item list" where
  "visibility_items l e =
     (if label_exists l e
      then [Str (''(NYI) go find the label in symtab and update it'' @ [CHR 0x27] @ ''s visibility''), nl]
      else init_label_items l ''.text'' e)"

definition resolve_label_items :: "string \<Rightarrow> ELF32 \<Rightarrow> item list" where
  "resolve_label_items l e = [Str ''resolve_label('', Str l, Str '')'', nl] @
     (if map_count (resolved_labels e) l > 0
      then [Str ''found a resolved label: '', Num (unat (fst (map_subscript 0 l (resolved_labels e)))), nl] else [])"

text \<open>The loop over \<open>resolved_labels\<close> at the start of the resolution.\<close>

definition resolution_items :: "ELF32 \<Rightarrow> item list" where
  "resolution_items e = concat (map (\<lambda>(l, v). [Str l, Str '': '', Hex, Num (unat v), nl]) (resolved_labels e))"

fun sections_items :: "section_ref list \<Rightarrow> ELF32 \<Rightarrow> ostream \<Rightarrow> item list" where
  "sections_items [] e os = []"
| "sections_items (it # its) e os =
     (let pos = tellp os; os = section_serialize it LE e os
      in [Str ''position after section: '', Num pos, nl] @ sections_items its e os)"

fun headers_items :: "nat \<Rightarrow> hptr list \<Rightarrow> ELF32 \<Rightarrow> item list" where
  "headers_items i [] e = []"
| "headers_items i (it # its) e =
     (case hdr_get (Some it) (hdr_store e) of
        Inl u \<Rightarrow> []
      | Inr h \<Rightarrow>
          [Str ''sh_name: '', Num (unat (sh_name h)), Str '', sh_size: '', Num (unat (sh_size h)),
           Str '', sh_offset: '', Hex, Num (unat (sh_offset h)), nl] @
          (if sh_type h = SHT_STRTAB \<and> Some it = header_shstrtab e
           then [Str ''e_shstrndx: '', Num (unat (of_nat i :: u16)), nl] else []) @
          headers_items (Suc i) its e)"

text \<open>\<open>Symtab::serialize\<close> prints with \<open>printf\<close>, which has no base to keep.\<close>

definition symtab_items :: "Symtab \<Rightarrow> item list" where
  "symtab_items s = (if length (data s) > 0 then [Str ''size of symtab: '', Str (digits 10 (length (data s))), nl] else [])"

definition serialize_items :: "ELF32 \<Rightarrow> ostream \<Rightarrow> item list" where
  "serialize_items e os =
    (let os = Elf32_Ehdr_serialize (elf_header e) os in
     [Str ''# of sections: '', Num (length (sections e)), nl] @ sections_items (sections e) e os @
     (case serialize_sections (sections e) e os of Inl u \<Rightarrow> [] | Inr (e, os) \<Rightarrow>
     (case StringTable_serialize (strtab e) (hdr_store e) os of Inl u \<Rightarrow> [] | Inr (hp, os) \<Rightarrow>
     (case StringTable_serialize (shstrtab e) hp os of Inl u \<Rightarrow> [] | Inr (hp, os) \<Rightarrow>
     symtab_items (symtab e) @
     (case Symtab_serialize LE (symtab e) hp os of Inl u \<Rightarrow> [] | Inr (hp, os) \<Rightarrow>
     [Str ''beginning of the section header here: '', Num (tellp os), nl,
      Str ''# of section headers: '', Num (length (section_headers e)), nl,
      Str ''serializing the headers'', nl] @
     headers_items 0 (section_headers e) (e\<lparr>hdr_store := hp\<rparr>))))))"

text \<open>\<open>write_elf\<close> on standard output; the write succeeds once the file is open, as in \<open>Elf_File\<close>.\<close>

definition success_message :: string where
  "success_message = ''ELF file written successfully.'' @ newline"

definition write_elf_items :: "(string \<Rightarrow> bool) \<Rightarrow> string \<Rightarrow> ELF32 \<Rightarrow> item list" where
  "write_elf_items writable filename e =
     serialize_items e os_empty @ (if writable filename then [Str success_message] else [])"

section \<open>What the actions print\<close>

text \<open>A register and an immediate are values of type \<open>int\<close>.\<close>

definition immediate_items :: "immediate \<Rightarrow> pstate \<Rightarrow> item list" where
  "immediate_items i p = (case i of
     IMM_INT v \<Rightarrow> [Str ''I-type'', nl]
   | IMM_SYMBOL l \<Rightarrow> [Str ''a symbol'', nl, Str ''I-type'', nl] @
       (if \<not> symbol_exists l (elf p) then [Str ''Symbol not found'', nl] else [])
   | MODIFIER_ABS_HI l \<Rightarrow> [Str ''a modifier'', nl, Str ''I-type'', nl, Str ''%hi() modifier NYI'', nl])"

definition no_address_items :: "u32 \<Rightarrow> item list" where
  "no_address_items offset = [Str ''no valid address found: '', Num (unat offset), nl]"

definition temp_inst_items :: "u32 \<Rightarrow> item list" where
  "temp_inst_items temp_inst = [Str ''temp_inst: '', Hex, Num (unat temp_inst), nl]"

definition branch_items :: "opcode_t \<Rightarrow> u32 \<Rightarrow> u32 \<Rightarrow> string \<Rightarrow> pstate \<Rightarrow> item list" where
  "branch_items c a b l p =
    (let (op_status, offset, e) = resolve_label l (elf p) in
     [Str ''B-type'', nl, Str ''r'', Sint a, Str '', r'', Sint b, Str '', '', Str l, nl] @
     resolve_label_items l (elf p) @ (if op_status = - 1 then no_address_items offset else []) @
     temp_inst_items (emit_b_type_instruction offset a b (funct3 c) (opc c)))"

text \<open>After a failed range check the action prints nothing more but the message.\<close>

definition jump_items :: "string \<Rightarrow> pstate \<Rightarrow> item list" where
  "jump_items l p =
    (let (op_status, offset, e) = resolve_label l (elf p);
         psuedo = [Str ''psuedo-instruction'', nl]
     in [Str ''j '', Str l, nl] @ resolve_label_items l (elf p) @
        (if op_status = - 1 then no_address_items offset @ psuedo
         else let offset = push_bit 1 offset; offset = offset AND 0x1FFFFF
              in if \<not> is_within_range_21b offset then []
                 else temp_inst_items (emit_j_type_instruction offset 0 JAL_32) @ psuedo))"

definition instruction_items :: "instruction \<Rightarrow> pstate \<Rightarrow> item list" where
  "instruction_items i p = (case i of
     Reg_insn c d a b \<Rightarrow> [Str ''r'', Sint d, Str '', r'', Sint a, Str '', r'', Sint b, nl]
   | Imm_insn c d a i \<Rightarrow> immediate_items i p
   | Mem_insn c d i a \<Rightarrow> [Str ''r'', Sint d, Str '' '', Sint i, Str ''(r'', Sint a, Str '')'', nl]
   | Branch_insn c a b l \<Rightarrow> branch_items c a b l p
   | Bare_insn c \<Rightarrow> [Str ''ecall /syscall'', nl]
   | La_insn d l \<Rightarrow> [Str ''la x'', Sint d, Str '' '', Str l, nl, Str ''psuedo-instruction'', nl]
   | Jump_insn l \<Rightarrow> jump_items l p
   | Mov_insn d a \<Rightarrow> [Str ''mv x'', Sint d, Str '', x'', Sint a, nl, Str ''psuedo-instruction'', nl]
   | Ret_insn \<Rightarrow> [Str ''jalr x0, x1, x0 [ret]'', nl, Str ''psuedo-instruction'', nl])"

definition directive_items :: "directive \<Rightarrow> pstate \<Rightarrow> item list" where
  "directive_items d p = (case d of
     Text_dir \<Rightarrow> [Str ''.text'', nl]
   | Global_dir l \<Rightarrow> visibility_items l (elf p)
   | Ascii_dir s \<Rightarrow> [Str ''.ascii STRING: '', Str s, Str '' will be stored to '', Str ''.data'', nl]
   | _ \<Rightarrow> [])"

text \<open>\<open>exit_with_message\<close>, with the line counter and the two strings of the call.\<close>

definition exit_items :: "string \<Rightarrow> nat \<Rightarrow> string \<times> string \<Rightarrow> item list" where
  "exit_items source_filename line_no what =
     [Str source_filename, Str '':'', Num line_no, Str '':'', Str '' '',
      Str ''value is out of the acceptable range'', Str '' '',
      Str (fst what), Str '' in '', Str (snd what), nl]"

section \<open>Events\<close>

text \<open>
  An event is what one action prints, with the number of tokens fetched by then. An opcode on its
  own, a block of instructions and the program are reduced only when the next token is known.
  The last event of a run that exits ends with the message; \<open>msg\<close> gives the message after so many
  tokens.
\<close>

type_synonym event = "nat \<times> item list"

definition lookahead :: "instruction \<Rightarrow> nat" where
  "lookahead i = (case i of Bare_insn c \<Rightarrow> 1 | _ \<Rightarrow> 0)"

fun instructions_events ::
    "(nat \<Rightarrow> string \<times> string \<Rightarrow> item list) \<Rightarrow> nat \<Rightarrow> instruction list \<Rightarrow> pstate \<Rightarrow> event list" where
  "instructions_events msg n [] p = []"
| "instructions_events msg n (i # is) p =
     (let n = n + length (instruction_tokens i) in
      case exec_instruction i p of
        Inl e \<Rightarrow> [(n + lookahead i, instruction_items i p @ msg n (offending i p))]
      | Inr p' \<Rightarrow> (n + lookahead i, instruction_items i p) # instructions_events msg n is p')"

definition statement_events ::
    "(nat \<Rightarrow> string \<times> string \<Rightarrow> item list) \<Rightarrow> nat \<Rightarrow> statement \<Rightarrow> pstate \<Rightarrow> event list" where
  "statement_events msg n s p = (case s of
     Label_insns l is \<Rightarrow> instructions_events msg (n + 2) is p @
       (case exec_instructions is p of
          Inl e \<Rightarrow> []
        | Inr p \<Rightarrow> [(n + length (statement_tokens s) + 1, init_label_items l (currentSection p) (elf p))])
   | Label_directive l d \<Rightarrow>
       [(n + length (statement_tokens s), directive_items d p @ [Str ''SYMBOL: directive '', nl])]
   | Directive d \<Rightarrow> [(n + length (statement_tokens s), directive_items d p)])"

fun statements_events ::
    "(nat \<Rightarrow> string \<times> string \<Rightarrow> item list) \<Rightarrow> nat \<Rightarrow> statement list \<Rightarrow> instruction list \<Rightarrow> pstate \<Rightarrow> event list" where
  "statements_events msg n [] rest p = instructions_events msg (n + 2) rest p"
| "statements_events msg n (s # ss) rest p = statement_events msg n s p @
     (case exec_statement s p of
        Inl e \<Rightarrow> []
      | Inr p' \<Rightarrow> statements_events msg (n + length (statement_tokens s)) ss rest p')"

text \<open>
  The message for a character that no other rule matches; \<open>charnum\<close> is never incremented. Blanks,
  comments and the two line rules are the other lexemes that are no tokens.
\<close>

definition unknown_lexeme :: "string \<Rightarrow> bool" where
  "unknown_lexeme yytext \<longleftrightarrow>
     \<not> counts_line yytext \<and> yytext \<notin> {[CHR 0x09], [CHR '' '']} \<and> take 1 yytext \<noteq> ''#''"

fun scan_events :: "nat \<Rightarrow> nat \<Rightarrow> (rule \<times> string) list \<Rightarrow> event list" where
  "scan_events k line [] = []"
| "scan_events k line ((r, yytext) # ls) =
     (if snd r yytext \<noteq> None then scan_events (Suc k) line ls
      else if counts_line yytext then scan_events k (Suc line) ls
      else if unknown_lexeme yytext
      then (Suc k, [Str ''Line: '', Num line, Str '': ('', Num 0, Str ''), unknown token. ('', Str (c_str yytext), Str '')'', nl])
             # scan_events k line ls
      else scan_events k line ls)"

text \<open>
  A token is fetched before the actions that need it. A run that exits fetches no more; otherwise
  the parser or the loop in \<open>main\<close> fetches the rest.
\<close>

fun interleave :: "bool \<Rightarrow> event list \<Rightarrow> event list \<Rightarrow> item list" where
  "interleave stop ms [] = (if stop then [] else concat (map snd ms))"
| "interleave stop [] ((t, a) # as) = a @ interleave stop [] as"
| "interleave stop ((k, m) # ms) ((t, a) # as) =
     (if k \<le> t then m @ interleave stop ms ((t, a) # as) else a @ interleave stop ((k, m) # ms) as)"

section \<open>The console\<close>

record console =
  con_out :: string
  con_err :: string

definition render :: "item list \<Rightarrow> string" where
  "render is = co_out (put_all is cout_new)"

definition fetched :: "statement list \<Rightarrow> nat" where
  "fetched ss = length (program_tokens ss) + 1"

text \<open>
  \<open>yyparse\<close> and the loop after it: the items on standard output, and standard error, with the
  message of bison's parser for a refused token.
\<close>

definition yyparse_console ::
    "(nat \<Rightarrow> u32) \<Rightarrow> (string \<Rightarrow> bool) \<Rightarrow> string \<Rightarrow> string \<Rightarrow> string \<Rightarrow> pstate \<Rightarrow> item list \<times> string" where
  "yyparse_console junk writable source_filename out_filename s p =
    (let ls = lexemes s;
         msg = (\<lambda>n. exit_items source_filename (linenum n ls));
         (ss, is, outcome) = parse_statements (yylex_all s);
         evs = statements_events msg 0 ss is p
     in case andThen (exec_statements ss p) (exec_instructions is) of
          Inl u \<Rightarrow> (interleave True (scan_events 0 0 ls) evs, [])
        | Inr p \<Rightarrow>
            let last_events = (if outcome = Refused then []
                  else [(fetched ss, resolution_items (elf p) @
                     write_elf_items writable out_filename (resolve_unresolved_instructions junk (elf p)))])
            in (interleave False (scan_events 0 0 ls) (evs @ last_events),
                (if outcome \<noteq> Refused \<and> \<not> writable out_filename then ''Unable to open file for writing.'' @ newline else []) @
                (if outcome \<noteq> Accepted then ''Error: syntax error'' @ newline else [])))"

text \<open>
  \<open>main\<close>, and before it the constructor of the global \<open>elf\<close>, which prints two line breaks. The
  first argument is the program's name.
\<close>

definition console_of ::
    "(nat \<Rightarrow> u32) \<Rightarrow> (string \<Rightarrow> bool) \<Rightarrow> string list \<Rightarrow> files \<Rightarrow> console" where
  "console_of junk writable argv fs =
    (let start = [Str (newline @ newline)] in
     case ELF32_new of
       Inl u \<Rightarrow> \<lparr>con_out = [], con_err = []\<rparr>
     | Inr e \<Rightarrow>
         if length argv < 2
         then \<lparr>con_out = render (start @ [Str (''No source file passed'' @ newline), nl, Str ''Usage: '', Str (argv ! 0),
                  Str '' file.s -o out.o'', nl]), con_err = []\<rparr>
         else (case fs (argv ! 1) of
           None \<Rightarrow> \<lparr>con_out = render (start @ [Str ''Error: Cannot open file '', Str (argv ! 1), nl]), con_err = []\<rparr>
         | Some src \<Rightarrow>
             let (source_filename, out_filename) =
                   (if length argv = 4 then ([], argv ! 3) else (argv ! 1, generate_dest_filename (argv ! 1)));
                 (out, err) = yyparse_console junk writable source_filename out_filename (chars_of src) (initial_pstate e)
             in \<lparr>con_out = render (start @ out), con_err = err\<rparr>))"

section \<open>Rendering\<close>

text \<open>No action sets a width or a fill character or goes back to decimal.\<close>

definition plain :: "item list \<Rightarrow> bool" where
  "plain is \<longleftrightarrow> list_all (\<lambda>i. case i of Setw w \<Rightarrow> False | Setfill c \<Rightarrow> False | Dec \<Rightarrow> False | _ \<Rightarrow> True) is"

lemma plain_simps [simp]:
  "plain []" "plain (i # is) \<longleftrightarrow> (case i of Setw w \<Rightarrow> False | Setfill c \<Rightarrow> False | Dec \<Rightarrow> False | _ \<Rightarrow> True) \<and> plain is"
  "plain (is @ js) \<longleftrightarrow> plain is \<and> plain js" "plain (concat iss) \<longleftrightarrow> (\<forall>is \<in> set iss. plain is)"
  by (auto simp: plain_def list_all_iff)

lemma put_all_plain:
  "plain is \<Longrightarrow> co_width c = 0 \<Longrightarrow> co_width (put_all is c) = 0 \<and> (co_hex (put_all is c) \<longleftrightarrow> co_hex c \<or> Hex \<in> set is)"
proof (induction "is" arbitrary: c)
  case (Cons i "is")
  then show ?case by (cases i) (auto simp: put_all_def put_padded_def)
qed (simp add: put_all_def)

lemma render_exit_items:
  assumes "plain is"
  shows "render (is @ exit_items f n what) = render is @ exit_message_text f n (Hex \<in> set is) what"
proof -
  have c: "co_width (put_all is cout_new) = 0" "co_hex (put_all is cout_new) \<longleftrightarrow> Hex \<in> set is"
    using put_all_plain [OF assms, of cout_new] by (simp_all add: cout_new_def)
  have "put_all (is @ exit_items f n what) cout_new = put_all (exit_items f n what) (put_all is cout_new)"
    by (simp add: put_all_def)
  also have "co_out \<dots> = co_out (put_all is cout_new) @ exit_message_text f n (Hex \<in> set is) what"
    using c by (simp add: put_all_def exit_items_def put_padded_def exit_message_text_def newline_def newline_char_def)
  finally show ?thesis by (simp add: render_def)
qed

lemma render_Str: "plain is \<Longrightarrow> render (is @ [Str s]) = render is @ s"
  using put_all_plain [of "is" cout_new] by (simp add: render_def put_all_def put_padded_def cout_new_def)

lemma instruction_items_plain: "plain (instruction_items i p)"
  by (auto simp: instruction_items_def immediate_items_def branch_items_def jump_items_def resolve_label_items_def
      no_address_items_def temp_inst_items_def Let_def split: instruction.splits immediate.splits prod.splits)

lemma init_label_items_plain: "plain (init_label_items l sect e)"
  by (simp add: init_label_items_def)

lemma directive_items_plain: "plain (directive_items d p)"
  by (auto simp: directive_items_def visibility_items_def init_label_items_plain split: directive.splits)

lemma sections_items_plain: "plain (sections_items its e os)"
  by (induction its arbitrary: os) (simp_all add: Let_def)

lemma headers_items_plain: "plain (headers_items i its e)"
  by (induction its arbitrary: i) (simp_all split: sum.splits)

lemma serialize_items_plain: "plain (serialize_items e os)"
  by (auto simp: serialize_items_def sections_items_plain headers_items_plain symtab_items_def Let_def
      split: sum.splits prod.splits)

section \<open>The base\<close>

lemma push_insn_no_exit: "push_insn w q \<noteq> Inl (Exit c)"
  by (simp add: push_insn_def add_to_text_def Text_push_def hdr_update_def Let_def split: option.splits)

text \<open>Before the message of an action that exits nothing changes the base.\<close>

lemma exit_no_hex: "exec_instruction i p = Inl (Exit c) \<Longrightarrow> Hex \<notin> set (instruction_items i p)"
  by (auto simp: exec_instruction_def instruction_items_def immediate_items_def exec_branch_def exec_jump_def jump_items_def
      resolve_label_items_def no_address_items_def push_insn_no_exit Let_def
      split: instruction.splits immediate.splits prod.splits if_splits)

lemma jump_hex:
  assumes "exec_jump l p = Inr q"
  shows "Hex \<in> set (jump_items l p) \<longleftrightarrow> label_exists l (elf p)"
proof -
  obtain st off e where r: "resolve_label l (elf p) = (st, off, e)" by (cases "resolve_label l (elf p)") auto
  have "label_exists l (elf p) \<longleftrightarrow> st \<noteq> - 1"
    using r by (auto simp: label_exists_def resolve_label_def Let_def split: prod.splits if_splits)
  then show ?thesis
    using assms r by (auto simp: exec_jump_def jump_items_def resolve_label_items_def no_address_items_def
        temp_inst_items_def exit_with_message_def Let_def split: if_splits)
qed

lemma branch_hex: "Hex \<in> set (branch_items c a b l p)"
  by (cases "resolve_label l (elf p)") (simp add: branch_items_def temp_inst_items_def)

lemma no_exit_hex: "exec_instruction i p = Inr q \<Longrightarrow> Hex \<in> set (instruction_items i p) \<longleftrightarrow> leaves_hex i p"
  using jump_hex branch_hex by (cases i) (auto simp: exec_instruction_def instruction_items_def immediate_items_def
      leaves_hex_def split: immediate.splits)

section \<open>What is printed last\<close>

abbreviation items_of :: "event list \<Rightarrow> item list" where
  "items_of evs \<equiv> concat (map snd evs)"

definition hexed :: "event list \<Rightarrow> bool" where
  "hexed evs \<longleftrightarrow> Hex \<in> set (items_of evs)"

definition tidy :: "event list \<Rightarrow> bool" where
  "tidy evs \<longleftrightarrow> plain (items_of evs)"

lemma hexed_simps [simp]:
  "\<not> hexed []" "hexed (x # evs) \<longleftrightarrow> Hex \<in> set (snd x) \<or> hexed evs" "hexed (evs @ evs') \<longleftrightarrow> hexed evs \<or> hexed evs'"
  by (auto simp: hexed_def)

lemma tidy_simps [simp]:
  "tidy []" "tidy (x # evs) \<longleftrightarrow> plain (snd x) \<and> tidy evs" "tidy (evs @ evs') \<longleftrightarrow> tidy evs \<and> tidy evs'"
  by (auto simp: tidy_def)

lemma interleave_one:
  "stop \<or> (\<forall>m \<in> set ms. fst m \<le> t) \<Longrightarrow>
     \<exists>pre. interleave stop ms [(t, b)] = pre @ b \<and> set pre \<subseteq> set (items_of ms)"
proof (induction ms)
  case (Cons m ms)
  then obtain k its where m: "m = (k, its)" by (cases m) auto
  obtain pre where pre: "interleave stop ms [(t, b)] = pre @ b" "set pre \<subseteq> set (items_of ms)"
    using Cons by auto
  show ?case
  proof (cases "k \<le> t")
    case True
    then show ?thesis using pre m by (intro exI [of _ "its @ pre"]) auto
  next
    case False
    then show ?thesis using Cons.prems m by (intro exI [of _ "[]"]) auto
  qed
qed auto

lemma interleave_last:
  "stop \<or> (\<forall>m \<in> set ms. fst m \<le> t) \<Longrightarrow>
     \<exists>pre. interleave stop ms (evs @ [(t, b)]) = pre @ b \<and> set pre \<subseteq> set (items_of ms) \<union> set (items_of evs) \<and>
       set (items_of evs) \<subseteq> set pre"
proof (induction stop ms evs rule: interleave.induct)
  case (1 stop ms)
  then show ?case using interleave_one [of stop ms t b] by auto
next
  case (2 stop k a as)
  then obtain pre where "interleave stop [] (as @ [(t, b)]) = pre @ b" "set pre \<subseteq> set (items_of as)"
      "set (items_of as) \<subseteq> set pre"
    by auto
  then show ?case by (intro exI [of _ "a @ pre"]) auto
next
  case (3 stop k m ms j a as)
  show ?case
  proof (cases "k \<le> j")
    case True
    then obtain pre where "interleave stop ms (((j, a) # as) @ [(t, b)]) = pre @ b"
        "set pre \<subseteq> set (items_of ms) \<union> set (items_of ((j, a) # as))" "set (items_of ((j, a) # as)) \<subseteq> set pre"
      using 3 by fastforce
    then show ?thesis using True by (intro exI [of _ "m @ pre"]) auto
  next
    case False
    then obtain pre where "interleave stop ((k, m) # ms) (as @ [(t, b)]) = pre @ b"
        "set pre \<subseteq> set (items_of ((k, m) # ms)) \<union> set (items_of as)" "set (items_of as) \<subseteq> set pre"
      using 3 by fastforce
    then show ?thesis using False by (intro exI [of _ "a @ pre"]) auto
  qed
qed

lemma scan_events_items: "tidy (scan_events k n ls)" "\<not> hexed (scan_events k n ls)"
  by (induction k n ls rule: scan_events.induct) simp_all

lemma instructions_tidy: "\<forall>n. \<forall>w. plain (msg n w) \<Longrightarrow> tidy (instructions_events msg n is p)"
  by (induction msg n "is" p rule: instructions_events.induct)
    (simp_all add: Let_def instruction_items_plain del: split_paired_All split: sum.split)

lemma statement_tidy: "\<forall>n. \<forall>w. plain (msg n w) \<Longrightarrow> tidy (statement_events msg n x p)"
  using instructions_tidy [of msg]
  by (cases x) (simp_all add: statement_events_def directive_items_plain init_label_items_plain
      del: split_paired_All split: sum.split)

lemma statements_tidy: "\<forall>n. \<forall>w. plain (msg n w) \<Longrightarrow> tidy (statements_events msg n ss rest p)"
  by (induction msg n ss rest p rule: statements_events.induct)
    (simp_all add: statement_tidy instructions_tidy del: split_paired_All split: sum.split)

lemma instructions_hexed:
  "exec_instructions is p = Inr q \<Longrightarrow> hexed (instructions_events msg n is p) \<longleftrightarrow> instructions_hex is p"
proof (induction "is" arbitrary: p n)
  case (Cons i "is")
  then obtain p' where p': "exec_instruction i p = Inr p'" "exec_instructions is p' = Inr q"
    by (auto elim: andThen_InrE)
  show ?case using Cons.IH [OF p'(2)] no_exit_hex [OF p'(1)] p'(1) by (simp add: Let_def)
qed simp

lemma statement_hexed:
  assumes "exec_statement x p = Inr q"
  shows "hexed (statement_events msg n x p) \<longleftrightarrow> instructions_hex (statement_instructions x) p"
proof (cases x)
  case (Label_insns l "is")
  then obtain p' where p': "exec_instructions is p = Inr p'"
    using assms by (auto simp: exec_statement_def elim: andThen_InrE)
  then show ?thesis
    using instructions_hexed [OF p', of msg "n + 2"] Label_insns by (simp add: statement_events_def init_label_items_def)
qed (auto simp: statement_events_def directive_items_def visibility_items_def init_label_items_def split: directive.splits)

text \<open>The events of a run that exits end with the message that \<open>Diagnostics\<close> reports.\<close>

definition ends_with :: "event list \<Rightarrow> item list \<Rightarrow> bool \<Rightarrow> bool" where
  "ends_with evs b hex \<longleftrightarrow> (\<exists>evs' t a. evs = evs' @ [(t, a @ b)] \<and> (hex \<longleftrightarrow> hexed evs' \<or> Hex \<in> set a))"

lemma ends_with_last: "Hex \<notin> set a \<Longrightarrow> ends_with [(t, a @ b)] b False"
  unfolding ends_with_def by (intro exI [of _ "[]"] exI [of _ t] exI [of _ a]) simp

lemma ends_with_append:
  assumes "ends_with evs b hex"
  shows "ends_with (evs0 @ evs) b (hexed evs0 \<or> hex)"
proof -
  obtain evs' t a where "evs = evs' @ [(t, a @ b)]" "hex \<longleftrightarrow> hexed evs' \<or> Hex \<in> set a"
    using assms by (auto simp: ends_with_def)
  then show ?thesis unfolding ends_with_def by (intro exI [of _ "evs0 @ evs'"] exI [of _ t] exI [of _ a]) auto
qed

lemma instructions_end:
  "prep p s \<Longrightarrow> instructions_report is p n h = Some r \<Longrightarrow>
     \<exists>hex. ends_with (instructions_events msg n is p) (msg (rp_tokens r) (rp_what r)) hex \<and> (rp_hex r \<longleftrightarrow> h \<or> hex)"
proof (induction "is" arbitrary: p s n h)
  case (Cons i "is")
  let ?n = "n + length (instruction_tokens i)"
  show ?case
  proof (cases "exec_instruction i p")
    case (Inl e)
    then have "e = Exit 1"
      using instruction_refines [OF Cons.prems(1), of i] by (auto simp: refines_def split: option.splits)
    then show ?thesis
      using Cons.prems(2) Inl ends_with_last exit_no_hex [of i p 1] by (intro exI [of _ False]) (auto simp: Let_def)
  next
    case (Inr p')
    then obtain s' where s': "prep p' s'"
      using instruction_refines [OF Cons.prems(1), of i] by (auto simp: refines_def split: option.splits)
    obtain hex where hex: "ends_with (instructions_events msg ?n is p') (msg (rp_tokens r) (rp_what r)) hex"
        "rp_hex r \<longleftrightarrow> (h \<or> leaves_hex i p) \<or> hex"
      using Cons.IH [OF s', of ?n "h \<or> leaves_hex i p"] Cons.prems(2) Inr by (auto simp: Let_def)
    show ?thesis
      using ends_with_append [OF hex(1), of "[(?n + lookahead i, instruction_items i p)]"] hex(2) Inr no_exit_hex [OF Inr]
      by (intro exI [of _ "leaves_hex i p \<or> hex"]) (simp add: Let_def)
  qed
qed simp

lemma statements_end:
  "prep p s \<Longrightarrow> statements_report ss rest p n h = Some r \<Longrightarrow>
     \<exists>hex. ends_with (statements_events msg n ss rest p) (msg (rp_tokens r) (rp_what r)) hex \<and> (rp_hex r \<longleftrightarrow> h \<or> hex)"
proof (induction ss arbitrary: p s n h)
  case Nil
  then show ?case using instructions_end [of p s rest "n + 2" h r msg] by simp
next
  case (Cons x ss)
  show ?case
  proof (cases "exec_statement x p")
    case (Inl e)
    then have rep: "instructions_report (statement_instructions x) p (n + 2) h = Some r" using Cons.prems(2) by simp
    then obtain l js where x: "x = Label_insns l js" by (cases x) auto
    then obtain e' where "exec_instructions js p = Inl e'"
      using rep instructions_report_None [of js p "n + 2" h] by (cases "exec_instructions js p") auto
    then show ?thesis
      using instructions_end [OF Cons.prems(1) rep, of msg] x Inl by (simp add: statement_events_def)
  next
    case (Inr p')
    then obtain s' where s': "prep p' s'"
      using statement_refines [OF Cons.prems(1), of x] by (auto simp: refines_def split: option.splits)
    let ?n = "n + length (statement_tokens x)" and ?b = "instructions_hex (statement_instructions x) p"
    obtain hex where hex: "ends_with (statements_events msg ?n ss rest p') (msg (rp_tokens r) (rp_what r)) hex"
        "rp_hex r \<longleftrightarrow> (h \<or> ?b) \<or> hex"
      using Cons.IH [OF s', of ?n "h \<or> ?b"] Cons.prems(2) Inr by auto
    show ?thesis
      using ends_with_append [OF hex(1), of "statement_events msg n x p"] hex(2) Inr statement_hexed [OF Inr, of msg n]
      by (intro exI [of _ "?b \<or> hex"]) simp
  qed
qed

section \<open>The console tells how the run ended\<close>

lemma exit_items_plain: "plain (exit_items f n w)"
  by (simp add: exit_items_def)

lemma plain_subset: "set is \<subseteq> set js \<Longrightarrow> plain js \<Longrightarrow> plain is"
  by (auto simp: plain_def list_all_iff)

theorem console_exit:
  assumes argv: "2 \<le> length argv" and src: "fs (argv ! 1) = Some src" and m: "exit_message argv src = Some m"
  shows "con_err (console_of junk writable argv fs) = [] \<and> (\<exists>front. con_out (console_of junk writable argv fs) = front @ m)"
proof -
  let ?s = "chars_of src" and ?f = "if length argv = 4 then [] else argv ! 1"
  let ?ms = "scan_events 0 0 (lexemes ?s)" and ?start = "[Str (newline @ newline)]"
  obtain e where e: "ELF32_new = Inr e" "elf_rep e spec_new" using ELF32_new_refines by blast
  obtain ss rest oc where st: "parse_statements (yylex_all ?s) = (ss, rest, oc)"
    by (cases "parse_statements (yylex_all ?s)") auto
  have p: "prep (initial_pstate e) s_initial" by (rule prep_initial [OF e(2)])
  obtain r where r: "statements_report ss rest (initial_pstate e) 0 False = Some r" and
      m: "m = exit_message_text ?f (linenum (rp_tokens r) (lexemes ?s)) (rp_hex r) (rp_what r)"
    using m by (auto simp: exit_message_def e(1) st Let_def)
  let ?msg = "\<lambda>n. exit_items ?f (linenum n (lexemes ?s))"
  obtain evs t a where evs: "statements_events ?msg 0 ss rest (initial_pstate e) =
        evs @ [(t, a @ ?msg (rp_tokens r) (rp_what r))]" "rp_hex r \<longleftrightarrow> hexed evs \<or> Hex \<in> set a"
    using statements_end [OF p r, of ?msg] unfolding ends_with_def by blast
  have pl: "tidy evs" "plain a"
    using statements_tidy [of ?msg 0 ss rest "initial_pstate e"] evs(1) by (simp_all add: exit_items_plain)
  obtain pre where pre: "interleave True ?ms (evs @ [(t, a @ ?msg (rp_tokens r) (rp_what r))]) =
      pre @ a @ ?msg (rp_tokens r) (rp_what r)" "set pre \<subseteq> set (items_of ?ms) \<union> set (items_of evs)"
      "set (items_of evs) \<subseteq> set pre"
    using interleave_last [of True ?ms t evs] by blast
  have "plain pre" 
    using plain_subset [of pre "items_of ?ms @ items_of evs"] pre(2) pl(1) scan_events_items(1) [of 0 0 "lexemes ?s"]
    by (simp add: tidy_def)
  then have "plain (?start @ pre @ a)" using pl by simp
  moreover have "Hex \<in> set (?start @ pre @ a) \<longleftrightarrow> rp_hex r"
    using pre(2,3) evs(2) scan_events_items(2) [of 0 0 "lexemes ?s"] by (auto simp: hexed_def)
  ultimately have out: "render (?start @ pre @ a @ ?msg (rp_tokens r) (rp_what r)) = render (?start @ pre @ a) @ m"
    using render_exit_items [of "?start @ pre @ a"] m by simp
  obtain u where "andThen (exec_statements ss (initial_pstate e)) (exec_instructions rest) = Inl u"
    using statements_report_None [OF p, of ss rest 0 False] r
    by (cases "andThen (exec_statements ss (initial_pstate e)) (exec_instructions rest)") (auto simp: andThen_Inr_iff)
  then have "yyparse_console junk writable ?f out ?s (initial_pstate e) =
      (pre @ a @ ?msg (rp_tokens r) (rp_what r), [])" for out
    using st evs(1) pre(1) by (simp add: yyparse_console_def Let_def)
  then show ?thesis
    using argv src out by (auto simp: console_of_def e(1) Let_def split: prod.splits)
qed

text \<open>The message of the scanner is about one character.\<close>

lemma silent_rules:
  "r \<in> set (rules_mnemonics @ rules_numbers @ rules_registers) \<Longrightarrow> snd r w \<noteq> None"
  by (auto simp: rules_mnemonics_def rules_numbers_def rules_registers_def ret_def)

lemma unknown_lexeme_single:
  assumes "(r, w) \<in> set (lexemes s)" and "snd r w = None" and "unknown_lexeme w"
  shows "length w = 1"
proof -
  have "r \<in> set rules" "matches (fst r) w" using lexemes_matches [OF assms(1)] by simp_all
  then have "r \<in> set rules_blank \<union> set rules_names" "matches (fst r) w"
    using silent_rules [of r w] assms(2) by (auto simp: rules_def)
  then show ?thesis
    using assms(2,3)
    by (auto simp: rules_blank_def rules_names_def ret_def skip_def unknown_lexeme_def matches_simps one_of_def)
qed

lemma scan_events_bound:
  "m \<in> set (scan_events k n ls) \<Longrightarrow> fst m \<le> k + length (List.map_filter (\<lambda>l. snd (fst l) (snd l)) ls) + 1"
proof (induction k n ls rule: scan_events.induct)
  case (2 k line r w ls)
  then show ?case by (cases "snd r w") (auto split: if_splits)
qed simp

lemma accepted_length: "parse_statements ts = (ss, is, Accepted) \<Longrightarrow> length (program_tokens ss) = length ts \<and> is = []"
proof (induction ts arbitrary: ss "is" rule: parse_statements.induct)
  case (1 ts)
  then obtain x w where x: "parse_statement ts = Inr (x, w)"
    by (auto simp: parse_statements.simps [of ts] split: sum.splits)
  obtain us where us: "ts = us @ w" "length us = length (statement_tokens x)" using block_tokens [OF x] by blast
  show ?case
  proof (cases "w = []")
    case True
    then have "ss = [x]" "is = []" using "1.prems" x by (simp_all add: parse_statements.simps [of ts])
    then show ?thesis using us True by (simp add: program_tokens_def)
  next
    case False
    then obtain zs where "starts_statement w" "parse_statements w = (zs, is, Accepted)" "ss = x # zs"
      using "1.prems" x by (auto simp: parse_statements.simps [of ts] split: if_splits prod.splits)
    then show ?thesis using "1.IH" [OF x refl False] us by (simp add: program_tokens_def)
  qed
qed

lemma success_last:
  assumes "parse_statements (yylex_all s) = (ss, is, Accepted)" and "exec_statements ss p = Inr q" and "writable out"
  shows "\<exists>front. yyparse_console junk writable f out s p = (front @ [Str success_message], []) \<and> plain front"
proof -
  let ?ls = "lexemes s" and ?q = "resolve_unresolved_instructions junk (elf q)"
  let ?ms = "scan_events 0 0 ?ls" and ?msg = "\<lambda>n. exit_items f (linenum n ?ls)"
  let ?evs = "statements_events ?msg 0 ss is p" and ?b = "resolution_items (elf q) @ serialize_items ?q os_empty"
  have "is = []" "fetched ss = length (yylex_all s) + 1" using accepted_length [OF assms(1)] by (simp_all add: fetched_def)
  then have "\<forall>m \<in> set ?ms. fst m \<le> fetched ss"
    using scan_events_bound [of _ 0 0 ?ls] by (auto simp: yylex_all_def case_prod_beta')
  then obtain pre where pre: "interleave False ?ms (?evs @ [(fetched ss, ?b @ [Str success_message])]) = pre @ ?b @ [Str success_message]"
      "set pre \<subseteq> set (items_of ?ms) \<union> set (items_of ?evs)"
    using interleave_last [of False ?ms "fetched ss" ?evs "?b @ [Str success_message]"] by blast
  have "plain pre"
    using plain_subset [of pre "items_of ?ms @ items_of ?evs"] pre(2) scan_events_items(1) [of 0 0 ?ls]
      statements_tidy [of ?msg 0 ss "is" p]
    by (simp add: tidy_def exit_items_plain)
  moreover have "plain ?b" by (simp add: resolution_items_def serialize_items_plain split: prod.splits)
  ultimately show ?thesis
    using pre(1) assms \<open>is = []\<close> by (intro exI [of _ "pre @ ?b"]) (simp add: yyparse_console_def write_elf_items_def Let_def)
qed

theorem console_end:
  assumes argv: "2 \<le> length argv" and src: "fs (argv ! 1) = Some src"
    and run: "riscvass_main junk writable argv fs = Inr (0, fs')"
  defines "out \<equiv> if length argv = 4 then argv ! 3 else generate_dest_filename (argv ! 1)"
    and "c \<equiv> console_of junk writable argv fs"
  shows "(con_err c = [] \<longleftrightarrow> writable out \<and> (\<exists>ss. g_statements (yylex_all (chars_of src)) ss)) \<and>
    (con_err c = [] \<longrightarrow> (\<exists>front. con_out c = front @ success_message) \<and> (\<exists>bs. fs' = fs(out \<mapsto> bs)))"
proof -
  let ?s = "chars_of src" and ?f = "if length argv = 4 then [] else argv ! 1"
  obtain e where e: "ELF32_new = Inr e" using ELF32_new_refines by blast
  obtain ss rest oc where st: "parse_statements (yylex_all ?s) = (ss, rest, oc)"
    by (cases "parse_statements (yylex_all ?s)") auto
  obtain status where "yyparse junk writable out (yylex_all ?s) (initial_pstate e) fs = Inr (status, fs')"
    using run argv src by (auto simp: riscvass_main_def e out_def Let_def andThen_Inr_iff split: if_splits)
  then obtain p q where p: "exec_statements ss (initial_pstate e) = Inr p" "exec_instructions rest p = Inr q"
      and w: "oc \<noteq> Refused \<Longrightarrow> \<exists>e'. write_elf writable out (resolve_unresolved_instructions junk (elf q)) fs = Inr (e', fs')"
    by (auto simp: yyparse_def st andThen_Inr_iff split: if_splits)
  have c: "con_out c = render ([Str (newline @ newline)] @ fst (yyparse_console junk writable ?f out ?s (initial_pstate e)))"
      "con_err c = snd (yyparse_console junk writable ?f out ?s (initial_pstate e))"
    using argv src by (auto simp: c_def out_def console_of_def e Let_def split: prod.splits)
  have err: "con_err c = [] \<longleftrightarrow> writable out \<and> oc = Accepted"
    by (auto simp: c yyparse_console_def st p Let_def newline_def)
  moreover have "oc = Accepted \<longleftrightarrow> (\<exists>ss. g_statements (yylex_all ?s) ss)"
    using st statements_accepts [of "yylex_all ?s"] accepted_length [of "yylex_all ?s" ss rest] by auto
  moreover have "\<exists>front. con_out c = front @ success_message" if acc: "writable out" "oc = Accepted"
  proof -
    have st': "parse_statements (yylex_all ?s) = (ss, rest, Accepted)" using st acc(2) by simp
    obtain front where "yyparse_console junk writable ?f out ?s (initial_pstate e) = (front @ [Str success_message], [])" "plain front"
      using success_last [where junk = junk and f = ?f and writable = writable and out = out, OF st' p(1) acc(1)] by blast
    then show ?thesis using render_Str [of "Str (newline @ newline) # front" success_message] by (auto simp: c)
  qed
  moreover have "\<exists>bs. fs' = fs(out \<mapsto> bs)" if "writable out" "oc = Accepted"
    using w that by (auto simp: write_elf_def andThen_Inr_iff split: if_splits)
  ultimately show ?thesis by blast
qed

end
