(* ===== verification/Numerals.thy ===== *)
theory Numerals
  imports Scan_Print
begin

text \<open>
  The three kinds of numerals: what a string of digits scans to, whatever its length and value.
\<close>

definition hex_class :: string where
  "hex_class = digits_class @ ''abcdefABCDEF''"

definition numeral_value :: "nat \<Rightarrow> string \<Rightarrow> nat" where
  "numeral_value base w = foldl (\<lambda>a c. a * base + digit_value c) 0 w"

definition literal :: "nat \<Rightarrow> string \<Rightarrow> token" where
  "literal base w = T_IMM (word_of_int (clamp_long (int (numeral_value base w))))"

lemma digit_bounds:
  "set w \<subseteq> set digits_class \<Longrightarrow> \<forall>c \<in> set w. digit_value c < 10"
  "set w \<subseteq> set hex_class \<Longrightarrow> \<forall>c \<in> set w. digit_value c < 16"
  "set w \<subseteq> set ''01'' \<Longrightarrow> \<forall>c \<in> set w. digit_value c < 2"
  by (fastforce simp: digits_class_def hex_class_def digit_value_def Let_def)+

lemma hex_no_sign: "c \<in> set hex_class \<Longrightarrow> c \<noteq> CHR ''-'' \<and> c \<noteq> CHR ''+''"
  by (auto simp: hex_class_def digits_class_def)

lemma strtol_value:
  assumes "\<forall>c \<in> set w. digit_value c < base" and "set w \<subseteq> set hex_class"
  shows "strtol base w = clamp_long (int (numeral_value base w))"
  using assms hex_no_sign strtol_digits_all [of w base 0]
  by (cases w) (auto simp: strtol_def numeral_value_def)

lemma decimal_numeral: "w \<noteq> [] \<Longrightarrow> set w \<subseteq> set digits_class \<Longrightarrow> yylex_all w = [literal 10 w]"
  by (simp add: decimal_scan literal_def numeral_value_def)

text \<open>The rules before those of prefixed numerals.\<close>

lemma prefixed_other:
  assumes "q \<in> set (rules_blank @ rules_mnemonics @ [number_rule])" and "x \<in> set ''xXbB''"
  shows "\<not> matches (fst q) (CHR ''0'' # x # w)"
proof (cases "q = number_rule")
  case True
  then have "avoids x (fst q)"
    using assms(2) by (auto simp: number_rule_def opt_def plus_def one_of_def digits_class_def)
  then show ?thesis using avoids_matches [of "fst q" "CHR ''0'' # x # w" x] by auto
next
  case False
  then show ?thesis
    using assms(1) by (auto simp: rules_blank_def rules_mnemonics_def matches_simps one_of_def newline_char_def)
qed

lemma prefixed_matches:
  assumes "w \<noteq> []" and "set w \<subseteq> set ds" and "x \<in> set xs"
  shows "matches (Seq (lit ''0'') (Seq (one_of xs) (plus (one_of ds)))) (CHR ''0'' # x # w)"
proof -
  have "list_all (\<lambda>c. c \<in> set ds) w" using assms(2) by (auto simp: list_all_iff)
  then have "matches (plus (one_of ds)) w" using assms(1) by (simp add: one_of_def matches_plus_cls)
  moreover have "matches (one_of xs) [x]" using assms(3) by (simp add: one_of_def matches_simps)
  ultimately have "matches (Seq (one_of xs) (plus (one_of ds))) ([x] @ w)" by (rule matches.seq [rotated])
  moreover have "matches (lit ''0'') ''0''" by (simp only: matches_lit)
  ultimately show ?thesis using matches.seq [of "lit ''0''" "''0''"] by fastforce
qed

lemma hex_numeral:
  assumes "w \<noteq> []" and "set w \<subseteq> set hex_class" and "x \<in> set ''xX''"
  shows "yylex_all (CHR ''0'' # x # w) = [literal 16 w]"
proof -
  let ?r = "rules_numbers ! 1"
  have "yylex_all (CHR ''0'' # x # w) = (case snd ?r (CHR ''0'' # x # w) of None \<Rightarrow> [] | Some t \<Rightarrow> [t])"
  proof (rule single_lexeme)
    show "(rules_blank @ rules_mnemonics @ [number_rule]) @ ?r # (drop 2 rules_numbers @ rules_registers @ rules_names) = rules"
      by (simp add: rules_def rules_numbers_def number_rule_def)
    show "matches (fst ?r) (CHR ''0'' # x # w)"
      using prefixed_matches [OF assms] by (simp add: rules_numbers_def hex_class_def)
    show "\<forall>q \<in> set (rules_blank @ rules_mnemonics @ [number_rule]). \<not> matches (fst q) (CHR ''0'' # x # w)"
      using assms(3) by (intro ballI prefixed_other) auto
  qed simp
  then show ?thesis
    using strtol_value [OF digit_bounds(2) [OF assms(2)] assms(2)] by (simp add: rules_numbers_def literal_def)
qed

lemma binary_numeral:
  assumes "w \<noteq> []" and "set w \<subseteq> set ''01''" and "x \<in> set ''bB''"
  shows "yylex_all (CHR ''0'' # x # w) = [literal 2 w]"
proof -
  let ?r = "rules_numbers ! 2"
  have hex: "set w \<subseteq> set hex_class" using assms(2) by (auto simp: hex_class_def digits_class_def)
  have "yylex_all (CHR ''0'' # x # w) = (case snd ?r (CHR ''0'' # x # w) of None \<Rightarrow> [] | Some t \<Rightarrow> [t])"
  proof (rule single_lexeme)
    show "(rules_blank @ rules_mnemonics @ take 2 rules_numbers) @ ?r # (rules_registers @ rules_names) = rules"
      by (simp add: rules_def rules_numbers_def)
    show "matches (fst ?r) (CHR ''0'' # x # w)"
      using prefixed_matches [OF assms] by (simp add: rules_numbers_def)
    have "\<not> matches (fst (rules_numbers ! 1)) (CHR ''0'' # x # w)"
      using assms(3) by (auto simp: rules_numbers_def matches_simps one_of_def)
    moreover have "take 2 rules_numbers = [number_rule, rules_numbers ! 1]" by (simp add: rules_numbers_def number_rule_def)
    ultimately show "\<forall>q \<in> set (rules_blank @ rules_mnemonics @ take 2 rules_numbers). \<not> matches (fst q) (CHR ''0'' # x # w)"
      using prefixed_other [of _ x w] assms(3) by (intro ballI) auto
  qed simp
  then show ?thesis
    using strtol_value [OF digit_bounds(3) [OF assms(2)] hex] by (simp add: rules_numbers_def literal_def)
qed

end
