(* ===== verification/Elf_Constants.thy ===== *)
theory Elf_Constants
  imports Elf_Types
begin

text \<open>
  The rest of \<open>src/defs.h\<close>: its families of constants as tables from names to values, and the
  structures that the assembler does not write. The constants the program uses have definitions of
  their own in \<open>Elf_Types\<close>; they agree with the tables.
\<close>

section \<open>Families of constants\<close>

definition PT_constants :: "(string \<times> u32) list" where
  "PT_constants =
    [(''PT_NULL'', 0), (''PT_LOAD'', 1), (''PT_DYNAMIC'', 2), (''PT_INTERP'', 3), (''PT_NOTE'', 4),
     (''PT_SHLIB'', 5), (''PT_PHDR'', 6), (''PT_TLS'', 7), (''PT_LOOS'', 0x60000000),
     (''PT_HIOS'', 0x6fffffff), (''PT_LOPROC'', 0x70000000), (''PT_HIPROC'', 0x7fffffff),
     (''PT_GNU_EH_FRAME'', 0x60000000 + 0x474e550), (''PT_GNU_STACK'', 0x60000000 + 0x474e551),
     (''PT_GNU_RELRO'', 0x60000000 + 0x474e552), (''PT_GNU_PROPERTY'', 0x60000000 + 0x474e553)]"

definition ET_constants :: "(string \<times> u16) list" where
  "ET_constants =
    [(''ET_NONE'', 0), (''ET_REL'', 1), (''ET_EXEC'', 2), (''ET_DYN'', 3), (''ET_CORE'', 4),
     (''ET_LOOS'', 0xfe00), (''ET_HIOS'', 0xfeff), (''ET_LOPROC'', 0xff00), (''ET_HIPROC'', 0xffff)]"

definition EI_constants :: "(string \<times> nat) list" where
  "EI_constants =
    [(''EI_MAG0'', 0), (''EI_MAG1'', 1), (''EI_MAG2'', 2), (''EI_MAG3'', 3), (''EI_CLASS'', 4),
     (''EI_DATA'', 5), (''EI_VERSION'', 6), (''EI_OSABI'', 7), (''EI_ABIVERSION'', 8),
     (''EI_PAD'', 9), (''EI_NIDENT'', 16)]"

definition PF_constants :: "(string \<times> u32) list" where
  "PF_constants =
    [(''PF_X'', 1), (''PF_W'', 2), (''PF_R'', 4), (''PF_MASKOS'', 0x0ff00000),
     (''PF_MASKPROC'', 0xf0000000)]"

definition SHT_constants :: "(string \<times> u32) list" where
  "SHT_constants =
    [(''SHT_NULL'', 0), (''SHT_PROGBITS'', 1), (''SHT_SYMTAB'', 2), (''SHT_STRTAB'', 3),
     (''SHT_RELA'', 4), (''SHT_HASH'', 5), (''SHT_DYNAMIC'', 6), (''SHT_NOTE'', 7),
     (''SHT_NOBITS'', 8), (''SHT_REL'', 9), (''SHT_SHLIB'', 10), (''SHT_DYNSYM'', 11),
     (''SHT_INIT_ARRAY'', 14), (''SHT_FINI_ARRAY'', 15), (''SHT_PREINIT_ARRAY'', 16),
     (''SHT_GROUP'', 17), (''SHT_SYMTAB_SHNDX'', 18), (''SHT_NUM'', 19), (''SHT_LOOS'', 0x60000000),
     (''SHT_GNU_ATTRIBUTES'', 0x6ffffff5), (''SHT_GNU_HASH'', 0x6ffffff6),
     (''SHT_GNU_LIBLIST'', 0x6ffffff7), (''SHT_CHECKSUM'', 0x6ffffff8),
     (''SHT_LOSUNW'', 0x6ffffffa), (''SHT_SUNW_move'', 0x6ffffffa),
     (''SHT_SUNW_COMDAT'', 0x6ffffffb), (''SHT_SUNW_syminfo'', 0x6ffffffc),
     (''SHT_GNU_verdef'', 0x6ffffffd), (''SHT_GNU_verneed'', 0x6ffffffe),
     (''SHT_GNU_versym'', 0x6fffffff), (''SHT_HISUNW'', 0x6fffffff), (''SHT_HIOS'', 0x6fffffff),
     (''SHT_LOPROC'', 0x70000000), (''SHT_HIPROC'', 0x7fffffff), (''SHT_LOUSER'', 0x80000000),
     (''SHT_HIUSER'', 0x8fffffff)]"

definition SHF_constants :: "(string \<times> u32) list" where
  "SHF_constants =
    [(''SHF_WRITE'', push_bit 0 1), (''SHF_ALLOC'', push_bit 1 1),
     (''SHF_EXECINSTR'', push_bit 2 1), (''SHF_MERGE'', push_bit 4 1),
     (''SHF_STRINGS'', push_bit 5 1), (''SHF_INFO_LINK'', push_bit 6 1),
     (''SHF_LINK_ORDER'', push_bit 7 1), (''SHF_OS_NONCONFORMING'', push_bit 8 1),
     (''SHF_GROUP'', push_bit 9 1), (''SHF_TLS'', push_bit 10 1),
     (''SHF_COMPRESSED'', push_bit 11 1), (''SHF_MASKOS'', 0x0ff00000),
     (''SHF_MASKPROC'', 0xf0000000), (''SHF_ORDERED'', push_bit 30 1),
     (''SHF_EXCLUDE'', push_bit 31 1)]"

definition SHN_constants :: "(string \<times> u16) list" where
  "SHN_constants =
    [(''SHN_UNDEF'', 0), (''SHN_LORESERVE'', 0xff00), (''SHN_LOPROC'', 0xff00),
     (''SHN_BEFORE'', 0xff00), (''SHN_AFTER'', 0xff01), (''SHN_HIPROC'', 0xff1f),
     (''SHN_LOOS'', 0xff20), (''SHN_HIOS'', 0xff3f), (''SHN_ABS'', 0xfff1),
     (''SHN_COMMON'', 0xfff2), (''SHN_XINDEX'', 0xffff), (''SHN_HIRESERVE'', 0xffff)]"

definition STB_constants :: "(string \<times> int) list" where
  "STB_constants =
    [(''STB_LOCAL'', 0), (''STB_GLOBAL'', 1), (''STB_WEAK'', 2), (''STB_HIPROC'', 13),
     (''STB_LOPROC'', 15)]"

definition STT_constants :: "(string \<times> int) list" where
  "STT_constants =
    [(''STT_NOTYPE'', 0), (''STT_OBJECT'', 1), (''STT_FUNC'', 2), (''STT_SECTION'', 3),
     (''STT_FILE'', 4), (''STT_COMMON'', 5), (''STT_TLS'', 6), (''STT_LOOS'', 10),
     (''STT_HIOS'', 12), (''STT_LOPROC'', 13), (''STT_HIPROC'', 15)]"

lemma used_constants_agree:
  "map_of ET_constants ''ET_REL'' = Some ET_REL"
  "map_of EI_constants ''EI_NIDENT'' = Some EI_NIDENT"
  "map_of SHT_constants ''SHT_PROGBITS'' = Some SHT_PROGBITS"
  "map_of SHT_constants ''SHT_SYMTAB'' = Some SHT_SYMTAB"
  "map_of SHT_constants ''SHT_STRTAB'' = Some SHT_STRTAB"
  "map_of SHF_constants ''SHF_WRITE'' = Some SHF_WRITE"
  "map_of SHF_constants ''SHF_ALLOC'' = Some SHF_ALLOC"
  "map_of SHF_constants ''SHF_EXECINSTR'' = Some SHF_EXECINSTR"
  "map_of SHN_constants ''SHN_UNDEF'' = Some SHN_UNDEF"
  "map_of STB_constants ''STB_LOCAL'' = Some STB_LOCAL"
  "map_of STB_constants ''STB_GLOBAL'' = Some STB_GLOBAL"
  by (simp_all add: ET_constants_def ET_REL_def EI_constants_def EI_NIDENT_def SHT_constants_def SHT_PROGBITS_def
      SHT_SYMTAB_def SHT_STRTAB_def SHF_constants_def SHF_WRITE_def SHF_ALLOC_def SHF_EXECINSTR_def
      SHN_constants_def SHN_UNDEF_def STB_constants_def STB_LOCAL_def STB_GLOBAL_def)

section \<open>Structures that are not written\<close>

record Elf32_Phdr =
  p32_type :: u32
  p32_offset :: u32
  p32_vaddr :: u32
  p32_paddr :: u32
  p32_filesz :: u32
  p32_memsz :: u32
  p32_flags :: u32
  p32_align :: u32

text \<open>The members have the types of the 32-bit header, also the three that are 64 bits wide in ELF64.\<close>

record Elf64_Ehdr =
  e64_ident :: "byte list"
  e64_type :: u16
  e64_machine :: u16
  e64_version :: u32
  e64_entry :: u32
  e64_phoff :: u32
  e64_shoff :: u32
  e64_flags :: u32
  e64_ehsize :: u16
  e64_phentsize :: u16
  e64_phnum :: u16
  e64_shentsize :: u16
  e64_shnum :: u16
  e64_shstrndx :: u16

record Elf64_Phdr =
  p64_type :: u32
  p64_flags :: u32
  p64_offset :: u64
  p64_vaddr :: u64
  p64_paddr :: u64
  p64_filesz :: u64
  p64_memsz :: u64
  p64_align :: u64

record Elf64_Sym =
  s64_name :: u32
  s64_info :: byte
  s64_other :: byte
  s64_shndx :: u16
  s64_value :: u64
  s64_size :: u64

end
