(* ===== verification/Elf_Public.thy ===== *)
theory Elf_Public
  imports Elf_File
begin

text \<open>
  Class \<open>ELF32\<close> towards any client: what holds of an object after an arbitrary sequence of calls of
  its public members, also those that only the class itself makes in this program. The parser's own
  use of the class, for which more can be said, is in \<open>Elf_Invariant\<close>.
\<close>

section \<open>The public members\<close>

text \<open>
  One rule for each public member that changes the object. \<open>label_exists\<close>, \<open>symbol_exists\<close>,
  \<open>get_section_idx\<close> and \<open>get_next_insn_number\<close> only read it; \<open>sections_count\<close>,
  \<open>section_headers_count\<close> and \<open>deserialize\<close> are declared without a definition; \<open>get_elf_header\<close> hands out a
  reference, which nothing uses.
\<close>

inductive public_step :: "ELF32 \<Rightarrow> ELF32 \<Rightarrow> bool" where
  label: "init_label l g sec e = Inr e' \<Longrightarrow> public_step e e'"
| visibility: "update_label_visibility l g e = Inr e' \<Longrightarrow> public_step e e'"
| regular_string: "store_regular_string str e = Inr (off, e') \<Longrightarrow> public_step e e'"
| section_name: "store_section_name str e = Inr (off, e') \<Longrightarrow> public_step e e'"
| reference: "resolve_label l e = (st, h, e') \<Longrightarrow> public_step e e'"
| symbol: "public_step e (add_symbol l i off t r b e)"
| lookup: "resolve_symbol l e = (found, s, e') \<Longrightarrow> public_step e e'"
| query: "symbol_resolved l e = (res, e') \<Longrightarrow> public_step e e'"
| resolve: "public_step e (resolve_unresolved_instructions junk e)"
| pending: "public_step e (add_to_unresolved_insns n ty h pc e)"
| code: "add_to_text w e = Inr e' \<Longrightarrow> public_step e e'"
| program_data: "add_program_data n v sec e = Inr e' \<Longrightarrow> public_step e e'"
| written: "ELF32_serialize e os = Inr (e', os') \<Longrightarrow> public_step e e'"

inductive public_reachable :: "ELF32 \<Rightarrow> bool" where
  start: "ELF32_new = Inr e \<Longrightarrow> public_reachable e"
| step: "public_reachable e \<Longrightarrow> public_step e e' \<Longrightarrow> public_reachable e'"

section \<open>The invariant\<close>

text \<open>Code, labels and symbols of an object; the string tables and the pending entries are left out.\<close>

definition o_view :: "ELF32 \<Rightarrow> obj" where
  "o_view e = \<lparr>o_text = data (sec_text e), o_data = data (sec_data e), o_syms = [],
     o_labels = map_find (resolved_labels e), o_wanted = map_find (unresolved_labels e),
     o_addr = map_find (label_to_addr e), o_index = map_find (section_to_idx e),
     o_symbols = map_find (symbols e), o_pending = []\<rparr>"

text \<open>
  Pointers and sizes are those of the header table, the maps are sorted, the string tables hold a
  list of strings, the symbol table starts with the null entry, and of the clauses of \<open>obj_ok\<close> all hold
  that do not speak of pending entries.
\<close>

definition elf_sound :: "ELF32 \<Rightarrow> bool" where
  "elf_sound e \<longleftrightarrow> hdrs_ok e \<and> maps_ok e \<and> ehdr_rep (elf_header e) \<and>
     (\<exists>ns. strtab_rep (strtab e) ns) \<and> (\<exists>ns. strtab_rep (shstrtab e) (section_names @ ns)) \<and>
     (\<exists>ys. data (symtab e) = zero_Sym # ys) \<and> obj_ok (o_view e)"

lemma elf_soundI:
  assumes "hdrs_ok e" "maps_ok e" "ehdr_rep (elf_header e)" "strtab_rep (strtab e) ns"
    "strtab_rep (shstrtab e) (section_names @ ms)" "data (symtab e) = zero_Sym # ys" "obj_ok (o_view e)"
  shows "elf_sound e"
  using assms by (auto simp: elf_sound_def)

lemma elf_soundE:
  assumes "elf_sound e"
  obtains ns ms ys where "hdrs_ok e" "maps_ok e" "ehdr_rep (elf_header e)" "strtab_rep (strtab e) ns"
    "strtab_rep (shstrtab e) (section_names @ ms)" "data (symtab e) = zero_Sym # ys" "obj_ok (o_view e)"
  using assms by (auto simp: elf_sound_def)

lemma sound_initial: "elf_sound ELF32_initial"
proof -
  have "o_view ELF32_initial = spec_new"
    using elf_rep_initial by (simp add: o_view_def elf_rep_def spec_new_def)
  then show ?thesis
    using elf_rep_initial obj_ok_new by (intro elf_soundI [where ms = "[]"]) (auto simp: elf_rep_def)
qed

lemma obj_ok_syms [simp]: "obj_ok (a\<lparr>o_syms := ys\<rparr>) = obj_ok a"
  by (simp add: obj_ok_def)

text \<open>Where the pointers of the headers lead.\<close>

lemma hdrs_ok_pointers:
  assumes "hdrs_ok e"
  shows "header (strtab e) = Some 1" "header (shstrtab e) = Some 2" "header (symtab e) = Some 3"
    "header (sec_text e) = Some 4" "header (sec_data e) = Some 5" "length (hdr_store e) = 6"
  using assms hdrs_ok_length [OF assms] by (simp_all add: hdrs_ok_def)

section \<open>Every public member keeps it, and none fails\<close>

lemma sound_add_to_text:
  assumes "elf_sound e"
  shows "\<exists>e'. add_to_text w e = Inr e' \<and> elf_sound e'"
proof -
  obtain ns ms ys where s: "hdrs_ok e" "maps_ok e" "ehdr_rep (elf_header e)" "strtab_rep (strtab e) ns"
    "strtab_rep (shstrtab e) (section_names @ ms)" "data (symtab e) = zero_Sym # ys" "obj_ok (o_view e)"
    using assms by (rule elf_soundE)
  note h = hdrs_ok_pointers [OF s(1)]
  obtain t hp where t: "add_to_text w e = Inr (e\<lparr>sec_text := t, hdr_store := hp\<rparr>)"
      "data t = data (sec_text e) @ [w]" "hdrs_ok (e\<lparr>sec_text := t, hdr_store := hp\<rparr>)"
    using s(1) h by (simp add: add_to_text_def Text_push_def Let_def hdrs_ok_def hdr_sizes_def
        Text_size_in_bytes_def eval_nat_numeral)
  have "o_view (e\<lparr>sec_text := t, hdr_store := hp\<rparr>) = spec_add_text w (o_view e)"
    by (simp add: o_view_def spec_add_text_def t(2))
  then show ?thesis
    using s t obj_ok_add_text [OF s(7), of w] by (auto simp: maps_ok_def intro!: elf_soundI)
qed

lemma sound_store_regular_string:
  assumes "elf_sound e"
  shows "\<exists>off e'. store_regular_string str e = Inr (off, e') \<and> elf_sound e'"
proof -
  obtain ns ms ys where s: "hdrs_ok e" "maps_ok e" "ehdr_rep (elf_header e)" "strtab_rep (strtab e) ns"
    "strtab_rep (shstrtab e) (section_names @ ms)" "data (symtab e) = zero_Sym # ys" "obj_ok (o_view e)"
    using assms by (rule elf_soundE)
  obtain t hp where t: "store_regular_string str e = Inr (strtab_offset ns, e\<lparr>strtab := t, hdr_store := hp\<rparr>)"
      "strtab_rep t (ns @ [c_str str])" "hdrs_ok (e\<lparr>strtab := t, hdr_store := hp\<rparr>)"
    using store_regular_string_hdrs [OF s(1,4)] by metis
  have "o_view (e\<lparr>strtab := t, hdr_store := hp\<rparr>) = o_view e" by (simp add: o_view_def)
  then show ?thesis using s t by (auto simp: maps_ok_def intro!: elf_soundI)
qed

lemma sound_store_section_name:
  assumes "elf_sound e"
  shows "\<exists>off e'. store_section_name str e = Inr (off, e') \<and> elf_sound e'"
proof -
  obtain ns ms ys where s: "hdrs_ok e" "maps_ok e" "ehdr_rep (elf_header e)" "strtab_rep (strtab e) ns"
    "strtab_rep (shstrtab e) (section_names @ ms)" "data (symtab e) = zero_Sym # ys" "obj_ok (o_view e)"
    using assms by (rule elf_soundE)
  note h = hdrs_ok_pointers [OF s(1)]
  obtain off t where t: "add_string (Some str) (shstrtab e) (hdr_store e) =
      Inr (off, t, (hdr_store e)[2 := (hdr_store e ! 2)\<lparr>sh_size := of_nat (StringTable_size_in_bytes t)\<rparr>])"
    and r: "strtab_rep t (section_names @ ms @ [c_str str])" and ht: "header t = Some 2"
    using add_string_refines [OF s(5) h(2), where hp = "hdr_store e" and str = str] h(6) by auto
  let ?e = "e\<lparr>shstrtab := t, hdr_store := (hdr_store e)[2 := (hdr_store e ! 2)\<lparr>sh_size := of_nat (StringTable_size_in_bytes t)\<rparr>]\<rparr>"
  have "hdrs_ok ?e" using s(1) ht by (simp add: hdrs_ok_def hdr_sizes_def list_update_code eval_nat_numeral)
  moreover have "o_view ?e = o_view e" by (simp add: o_view_def)
  ultimately have "elf_sound ?e" using s r by (auto simp: maps_ok_def intro!: elf_soundI)
  then show ?thesis using t by (simp add: store_section_name_def)
qed

lemma sound_init_label:
  assumes "elf_sound e"
  shows "\<exists>e'. init_label l g sec e = Inr e' \<and> elf_sound e'"
proof (cases "label_exists l e")
  case True
  then show ?thesis using assms by (simp add: init_label_def)
next
  case False
  obtain ns ms ys where s: "hdrs_ok e" "maps_ok e" "ehdr_rep (elf_header e)" "strtab_rep (strtab e) ns"
    "strtab_rep (shstrtab e) (section_names @ ms)" "data (symtab e) = zero_Sym # ys" "obj_ok (o_view e)"
    using assms by (rule elf_soundE)
  obtain t hp where st: "store_regular_string l e = Inr (strtab_offset ns, e\<lparr>strtab := t, hdr_store := hp\<rparr>)"
      and t: "strtab_rep t (ns @ [c_str l])" and ok: "hdrs_ok (e\<lparr>strtab := t, hdr_store := hp\<rparr>)" and len: "length hp = 6"
    using store_regular_string_hdrs [OF s(1,4)] by metis
  let ?e1 = "e\<lparr>strtab := t, hdr_store := hp\<rparr>"
  let ?sm = "zero_Sym\<lparr>st_name := of_nat (strtab_offset ns), st_shndx := pick_section sec ?e1\<rparr>"
  obtain y hp' where push: "Symtab_push ?sm (symtab ?e1)
      (hp[3 := (hp ! 3)\<lparr>sh_size := sh_size (hp ! 3) + of_nat sizeof_Sym\<rparr>]) = Inr (y, hp')"
    and y: "data y = data (symtab ?e1) @ [?sm]" and ok': "hdrs_ok (?e1\<lparr>symtab := y, hdr_store := hp'\<rparr>)"
    using Symtab_push_hdrs [OF ok, where x = "sh_size (hp ! 3) + of_nat sizeof_Sym" and sm = ?sm] by auto
  let ?e2 = "e\<lparr>strtab := t, unresolved_labels := erase_present l (unresolved_labels e),
      resolved_labels := map_set l (of_nat (last_index (sec_text e))) (resolved_labels e),
      label_to_addr := map_set (hasher l) (of_nat (last_index (sec_text e))) (label_to_addr e),
      symtab := y, hdr_store := hp'\<rparr>"
  note m = s(2) [unfolded maps_ok_def]
  have init: "init_label l g sec e = Inr ?e2"
    using push len hdrs_ok_pointers [OF s(1)] by (simp add: init_label_new [OF False st] Let_def)
  have new: "o_labels (o_view e) l = None"
    using False by (simp add: o_view_def label_exists_def map_count_pos)
  have "(spec_init_label l sec (o_view e))\<lparr>o_syms := []\<rparr> = o_view ?e2"
    using new m erase_if_present [of "unresolved_labels e" l]
    by (simp add: spec_init_label_def o_view_def spec_last_def last_index_def smap.find_set)
  then have "obj_ok (o_view ?e2)" using obj_ok_init_label [OF s(7), of l sec] obj_ok_syms by metis
  moreover have "maps_ok ?e2" using m erase_if_present [of "unresolved_labels e" l] by (simp add: maps_ok_def smap.ok_set)
  moreover have "hdrs_ok ?e2" using ok' by (simp add: hdrs_ok_def hdr_sizes_def)
  ultimately show ?thesis using init s t y by (auto intro!: elf_soundI)
qed

lemma sound_visibility:
  assumes "elf_sound e"
  shows "\<exists>e'. update_label_visibility l g e = Inr e' \<and> elf_sound e'"
  using sound_init_label [OF assms] assms by (simp add: update_label_visibility_def)

lemma sound_add_program_data:
  assumes "elf_sound e"
  shows "\<exists>e'. add_program_data n v sec e = Inr e' \<and> elf_sound e'"
proof -
  obtain ns ms ys where s: "hdrs_ok e" "maps_ok e" "ehdr_rep (elf_header e)" "strtab_rep (strtab e) ns"
    "strtab_rep (shstrtab e) (section_names @ ms)" "data (symtab e) = zero_Sym # ys" "obj_ok (o_view e)"
    using assms by (rule elf_soundE)
  obtain t hp where st: "store_regular_string n e = Inr (strtab_offset ns, e\<lparr>strtab := t, hdr_store := hp\<rparr>)"
      and t: "strtab_rep t (ns @ [c_str n])" and ok: "hdrs_ok (e\<lparr>strtab := t, hdr_store := hp\<rparr>)"
    using store_regular_string_hdrs [OF s(1,4)] by metis
  note m = s(2) [unfolded maps_ok_def]
  obtain i m' where sub: "map_subscript 0 sec (section_to_idx e) = (i, m')" by (cases "map_subscript 0 sec (section_to_idx e)")
  have i: "i = (case o_index (o_view e) sec of None \<Rightarrow> 0 | Some i \<Rightarrow> i)"
    using fst_map_subscript [of 0 sec "section_to_idx e"] sub by (simp add: o_view_def)
  have m': "map_find m' = (map_find (section_to_idx e))(sec \<mapsto> i)" "map_ok m'"
    using map_subscript_index [of "section_to_idx e" 0 sec] map_ok_subscript [of "section_to_idx e" 0 sec] sub m by simp_all
  let ?e1 = "e\<lparr>strtab := t, hdr_store := hp, section_to_idx := m'\<rparr>"
  obtain d hp' where d: "Data_push_string v (sec_data ?e1) (hdr_store ?e1) = Inr (length (data (sec_data ?e1)), d, hp')"
    "data d = data (sec_data ?e1) @ map of_char v" and okd: "hdrs_ok (?e1\<lparr>sec_data := d, hdr_store := hp'\<rparr>)"
    using Data_push_hdrs [of ?e1 v] ok by (auto simp: hdrs_ok_def hdr_sizes_def)
  let ?e2 = "?e1\<lparr>sec_data := d, hdr_store := hp'\<rparr>"
  let ?sm = "zero_Sym\<lparr>st_name := of_nat (strtab_offset ns), st_value := of_nat (length (data (sec_data e))), st_shndx := ucast i\<rparr>"
  obtain y hp'' where push: "Symtab_push ?sm (symtab ?e2) (hdr_store ?e2) = Inr (y, hp'')"
    and y: "data y = data (symtab ?e2) @ [?sm]" and ok': "hdrs_ok (?e2\<lparr>symtab := y, hdr_store := hp''\<rparr>)"
    using Symtab_push_hdrs [OF okd, where x = "sh_size (hdr_store ?e2 ! 3)" and sm = ?sm and hp = "hdr_store ?e2"]
    by auto
  let ?e3 = "?e2\<lparr>symtab := y, hdr_store := hp''\<rparr>"
  have run: "add_program_data n v sec e = Inr ?e3"
    using d push by (simp add: add_program_data_def st Let_def sub zero_Sym_id)
  have "(spec_add_data n v sec (o_view e))\<lparr>o_syms := []\<rparr> = o_view ?e3"
    using m' d(2) i by (simp add: spec_add_data_def o_view_def Let_def)
  then have "obj_ok (o_view ?e3)" using obj_ok_add_data [OF s(7), of n v sec] obj_ok_syms by metis
  moreover have "maps_ok ?e3" using m m' by (simp add: maps_ok_def)
  ultimately show ?thesis using run s t y ok' by (auto intro!: elf_soundI)
qed

text \<open>Members that leave headers, sections and string tables alone.\<close>

lemma sound_maps:
  assumes "elf_sound e" and "maps_ok e'" and "obj_ok (o_view e')"
    and "hdr_store e' = hdr_store e" "section_headers e' = section_headers e" "header_shstrtab e' = header_shstrtab e"
      "sections e' = sections e" "elf_header e' = elf_header e"
    and "strtab e' = strtab e" "shstrtab e' = shstrtab e" "symtab e' = symtab e" "sec_data e' = sec_data e"
    and "header (sec_text e') = header (sec_text e)" "length (data (sec_text e')) = length (data (sec_text e))"
  shows "elf_sound e'"
  using assms by (simp add: elf_sound_def hdrs_ok_def hdr_sizes_def Text_size_in_bytes_def)

lemma sound_resolve_label:
  assumes e: "elf_sound e" and r: "resolve_label l e = (st, h, e')"
  shows "elf_sound e'"
proof -
  have m: "map_ok (resolved_labels e)" "map_ok (unresolved_labels e)" and ok: "maps_ok e" "obj_ok (o_view e)"
    using e by (auto simp: elf_sound_def maps_ok_def)
  show ?thesis
  proof (cases "map_find (resolved_labels e) l")
    case None
    then have e': "e' = e\<lparr>unresolved_labels := map_set l (hasher l) (unresolved_labels e)\<rparr>"
      using r m by (auto simp: resolve_label_def map_count_pos Let_def map_subscript_Some smap.find_set smap.ok_set)
    have v: "o_view e' = snd (snd (spec_resolve_label l (o_view e)))"
      using None m by (simp add: e' o_view_def spec_resolve_label_def smap.find_set)
    have "obj_ok (o_view e')"
      using obj_ok_resolve_label [OF ok(2)] v by (cases "spec_resolve_label l (o_view e)") auto
    moreover have "maps_ok e'" using ok(1) m by (simp add: e' maps_ok_def smap.ok_set)
    ultimately show ?thesis by (intro sound_maps [OF e]) (simp_all add: e')
  next
    case (Some v)
    then have "e' = e" using r by (simp add: resolve_label_def map_count_pos map_subscript_Some)
    then show ?thesis using e by simp
  qed
qed

lemma sound_add_symbol:
  assumes e: "elf_sound e"
  shows "elf_sound (add_symbol l i off t r b e)"
proof (rule sound_maps [OF e])
  show "maps_ok (add_symbol l i off t r b e)"
    using e by (simp add: elf_sound_def maps_ok_def add_symbol_def smap.ok_set)
  show "obj_ok (o_view (add_symbol l i off t r b e))"
    using e by (simp add: elf_sound_def o_view_def add_symbol_def obj_ok_def)
qed (simp_all add: add_symbol_def)

lemma symbol_lookups:
  assumes "maps_ok e"
  shows "resolve_symbol l e = (found, s, e') \<Longrightarrow> e' = e" "symbol_resolved l e = (res, e') \<Longrightarrow> e' = e"
  by (auto simp: resolve_symbol_def symbol_resolved_def symbol_exists_def map_subscript_Some Let_def
      split: if_splits)

lemma sound_pending:
  assumes e: "elf_sound e"
  shows "elf_sound (add_to_unresolved_insns n ty h pc e)"
  by (rule sound_maps [OF e]) (use e in \<open>simp_all add: add_to_unresolved_insns_def elf_sound_def maps_ok_def o_view_def\<close>)

lemma sound_resolve_entry:
  assumes e: "elf_sound e"
  shows "elf_sound (resolve_entry junk p e)"
proof (cases "patchable (insn_type p)")
  case False
  then show ?thesis using e by (simp add: resolve_entry_eq)
next
  case True
  have m: "map_ok (label_to_addr e)" and ok: "maps_ok e" "obj_ok (o_view e)"
    using e by (auto simp: elf_sound_def maps_ok_def)
  obtain t m' where sub: "map_subscript 0 (insn_hash p) (label_to_addr e) = (t, m')"
    by (cases "map_subscript 0 (insn_hash p) (label_to_addr e)")
  have t: "t = spec_target (o_view e) p"
    using fst_map_subscript [of 0 "insn_hash p" "label_to_addr e"] sub by (simp add: spec_target_def o_view_def)
  have m': "map_find m' = (map_find (label_to_addr e))(insn_hash p \<mapsto> t)" "map_ok m'"
    using map_subscript_index [OF m, of 0 "insn_hash p"] map_ok_subscript [OF m, of 0 "insn_hash p"] sub by simp_all
  let ?e = "resolve_entry junk p e"
  have v: "o_view ?e = spec_resolve_entry p (o_view e)"
    using True m'(1) t
    by (simp add: resolve_entry_eq sub Let_def o_view_def spec_resolve_entry_def get_entry_def data_update_entry
        list_update_beyond)
  show ?thesis
  proof (rule sound_maps [OF e])
    show "obj_ok (o_view ?e)" unfolding v by (rule obj_ok_resolve_entry [OF ok(2)])
    show "maps_ok ?e" using ok(1) m'(2) True by (simp add: resolve_entry_eq sub Let_def maps_ok_def)
  qed (simp_all add: True resolve_entry_eq sub Let_def)
qed

lemma sound_resolve: "elf_sound e \<Longrightarrow> elf_sound (resolve_unresolved_instructions junk e)"
proof -
  have "elf_sound e \<Longrightarrow> elf_sound (resolve_entries junk ps e)" for ps
    by (induction ps arbitrary: junk e) (simp_all add: sound_resolve_entry)
  then show "elf_sound e \<Longrightarrow> elf_sound (resolve_unresolved_instructions junk e)"
    by (simp add: resolve_unresolved_instructions_def)
qed

text \<open>Writing: offsets and sizes go into the headers, and three members of the ELF header are set.\<close>

lemma serialize_headers_result:
  assumes "\<forall>p \<in> set ps. p < length (hdr_store e)"
  shows "\<exists>x os'. serialize_headers i ps bo e os = Inr (e\<lparr>elf_header := (elf_header e)\<lparr>e_shstrndx := x\<rparr>\<rparr>, os')"
  using assms
proof (induction ps arbitrary: i e os)
  case Nil
  then show ?case by (intro exI [of _ "e_shstrndx (elf_header e)"]) simp
next
  case (Cons p ps)
  define e1 where "e1 = (if sh_type (hdr_store e ! p) = SHT_STRTAB \<and> Some p = header_shstrtab e
    then e\<lparr>elf_header := (elf_header e)\<lparr>e_shstrndx := of_nat i\<rparr>\<rparr> else e)"
  have e1: "e1\<lparr>elf_header := (elf_header e1)\<lparr>e_shstrndx := x\<rparr>\<rparr> = e\<lparr>elf_header := (elf_header e)\<lparr>e_shstrndx := x\<rparr>\<rparr>"
    "hdr_store e1 = hdr_store e" for x
    by (simp_all add: e1_def)
  obtain x os' where "serialize_headers (Suc i) ps bo e1 (Elf32_Shdr_serialize (hdr_store e ! p) bo os) =
      Inr (e1\<lparr>elf_header := (elf_header e1)\<lparr>e_shstrndx := x\<rparr>\<rparr>, os')"
    using Cons.IH [of e1 "Suc i" "Elf32_Shdr_serialize (hdr_store e ! p) bo os"] Cons.prems e1(2) by auto
  then show ?case
    using Cons.prems by (intro exI [of _ x] exI [of _ os']) (simp add: Let_def e1(1) flip: e1_def)
qed

lemma ehdr_rep_fields: "ehdr_rep h \<Longrightarrow> ehdr_rep (h\<lparr>e_shoff := x, e_shnum := y, e_shstrndx := z\<rparr>)"
  by (simp add: ehdr_rep_def strip_ehdr_def)

lemma sound_serialize:
  assumes "elf_sound e"
  shows "\<exists>e' os'. ELF32_serialize e os = Inr (e', os') \<and> elf_sound e'"
proof -
  obtain ns ms ys where s: "hdrs_ok e" "maps_ok e" "ehdr_rep (elf_header e)" "strtab_rep (strtab e) ns"
    "strtab_rep (shstrtab e) (section_names @ ms)" "data (symtab e) = zero_Sym # ys" "obj_ok (o_view e)"
    using assms by (rule elf_soundE)
  note h = hdrs_ok_pointers [OF s(1)]
  obtain h0 h1 h2 h3 h4 h5 where hp: "hdr_store e = [h0, h1, h2, h3, h4, h5]" using list6E h(6) by blast
  have tabs: "section_headers e = [0, 1, 2, 3, 4, 5]" "sections e = [Text_section, Data_section]"
    using s(1) by (simp_all add: hdrs_ok_def)
  let ?z1 = "of_nat (StringTable_size_in_bytes (strtab e))" and ?z2 = "of_nat (StringTable_size_in_bytes (shstrtab e))"
    and ?z3 = "of_nat (Symtab_size_in_bytes (symtab e))"
  define hpA where "hpA x4 x5 = [h0, h1, h2, h3, h4\<lparr>sh_offset := x4\<rparr>, h5\<lparr>sh_offset := x5\<rparr>]" for x4 x5
  define hpB where "hpB x4 x5 x1 = (hpA x4 x5)[1 := h1\<lparr>sh_offset := x1, sh_size := ?z1\<rparr>]" for x4 x5 x1
  define hpC where "hpC x4 x5 x1 x2 = (hpB x4 x5 x1)[2 := h2\<lparr>sh_offset := x2, sh_size := ?z2\<rparr>]" for x4 x5 x1 x2
  define hpD where "hpD x4 x5 x1 x2 x3 = (hpC x4 x5 x1 x2)[3 := h3\<lparr>sh_offset := x3, sh_size := ?z3\<rparr>]" for x4 x5 x1 x2 x3
  note hps = hpA_def hpB_def hpC_def hpD_def
  obtain x4 x5 os1 where S1: "serialize_sections (sections e) e (Elf32_Ehdr_serialize (elf_header e) os) =
      Inr (e\<lparr>hdr_store := hpA x4 x5\<rparr>, os1)"
    using h hp tabs by (simp add: section_header_def Let_def hps eval_nat_numeral)
  obtain x1 os2 where S2: "StringTable_serialize (strtab e) (hpA x4 x5) os1 = Inr (hpB x4 x5 x1, os2)"
    using h by (simp add: StringTable_serialize_def Let_def hps)
  obtain x2 os3 where S3: "StringTable_serialize (shstrtab e) (hpB x4 x5 x1) os2 = Inr (hpC x4 x5 x1 x2, os3)"
    using h by (simp add: StringTable_serialize_def Let_def hps eval_nat_numeral)
  obtain x3 os4 where S4: "Symtab_serialize LE (symtab e) (hpC x4 x5 x1 x2) os3 = Inr (hpD x4 x5 x1 x2 x3, os4)"
    using h s(6) by (simp add: Symtab_serialize_def Let_def hps eval_nat_numeral)
  define e1 where "e1 = e\<lparr>hdr_store := hpD x4 x5 x1 x2 x3, elf_header := (elf_header e)
    \<lparr>e_shoff := of_nat (tellp os4), e_shnum := of_nat (length (section_headers e))\<rparr>\<rparr>"
  have "\<forall>p \<in> set (section_headers e). p < length (hdr_store e1)" using tabs by (simp add: e1_def hps)
  then obtain x os5 where S5: "serialize_headers 0 (section_headers e) LE e1 os4 =
      Inr (e1\<lparr>elf_header := (elf_header e1)\<lparr>e_shstrndx := x\<rparr>\<rparr>, os5)"
    using serialize_headers_result [of "section_headers e" e1 0 LE os4] by blast
  define e2 where "e2 = e1\<lparr>elf_header := (elf_header e1)\<lparr>e_shstrndx := x\<rparr>\<rparr>"
  have run: "\<exists>os'. ELF32_serialize e os = Inr (e2, os')"
    using S5 by (simp add: ELF32_serialize_def Let_def S1 S2 S3 S4 e1_def e2_def)
  have "map strip (hdr_store e2) = map strip (hdr_store e)" "map sh_offset (hdr_store e2) ! 0 = sh_offset h0"
    "map sh_size (hdr_store e2) = [sh_size h0, ?z1, ?z2, ?z3, sh_size h4, sh_size h5]"
    by (simp_all add: e2_def e1_def hps hp strip_def eval_nat_numeral)
  moreover have "map sh_size (hdr_store e) = map of_nat (hdr_sizes e)" "hdr_sizes e2 = hdr_sizes e"
    using s(1) by (simp_all add: hdrs_ok_def e2_def e1_def hdr_sizes_def)
  ultimately have "hdrs_ok e2" using s(1) hp by (simp add: hdrs_ok_def hdr_sizes_def e2_def e1_def)
  moreover have "ehdr_rep (elf_header e2)" using ehdr_rep_fields [OF s(3)] by (simp add: e2_def e1_def)
  moreover have "o_view e2 = o_view e" by (simp add: o_view_def e2_def e1_def)
  moreover have "maps_ok e2" using s(2) by (simp add: maps_ok_def e2_def e1_def)
  ultimately have "elf_sound e2" using s(4-7) by (intro elf_soundI) (simp_all add: e2_def e1_def)
  then show ?thesis using run by blast
qed

section \<open>Reachable objects\<close>

lemma public_step_sound:
  assumes "public_step e e'" and e: "elf_sound e"
  shows "elf_sound e'"
  using assms
proof (induction rule: public_step.induct)
  case (label l g sec e e')
  then show ?case using sound_init_label [of e l g sec] by auto
next
  case (visibility l g e e')
  then show ?case using sound_visibility [of e l g] by auto
next
  case (regular_string str e off e')
  then show ?case using sound_store_regular_string [of e str] by auto
next
  case (section_name str e off e')
  then show ?case using sound_store_section_name [of e str] by auto
next
  case (reference l e st h e')
  then show ?case using sound_resolve_label by blast
next
  case (lookup l e found s e')
  then show ?case using symbol_lookups(1) by (metis elf_sound_def)
next
  case (query l e res e')
  then show ?case using symbol_lookups(2) by (metis elf_sound_def)
next
  case (code w e e')
  then show ?case using sound_add_to_text [of e w] by auto
next
  case (program_data n v sec e e')
  then show ?case using sound_add_program_data [of e n v sec] by auto
next
  case (written e os e' os')
  then show ?case using sound_serialize [of e os] by auto
qed (simp_all add: sound_add_symbol sound_resolve sound_pending)

theorem public_reachable_sound: "public_reachable e \<Longrightarrow> elf_sound e"
proof (induction rule: public_reachable.induct)
  case (start e)
  then show ?case using ELF32_new_initial sound_initial by (metis Inr_inject)
next
  case (step e e')
  then show ?case using public_step_sound by blast
qed

text \<open>What the parser can reach is among it.\<close>

lemma parser_steps: "elf_step e e' \<Longrightarrow> public_step e e' \<or> (\<exists>m. public_step e m \<and> public_step m e')"
proof (induction rule: elf_step.induct)
  case (pending l e h e' n ty pc)
  then show ?case using public_step.reference public_step.pending by blast
qed (auto intro: public_step.intros)

lemma reachable_public: "elf_reachable e \<Longrightarrow> public_reachable e"
proof (induction rule: elf_reachable.induct)
  case (start e)
  then show ?case by (rule public_reachable.start)
next
  case (step e e')
  then show ?case using parser_steps [OF step.hyps(2)] public_reachable.step by blast
qed

end
