(* ===== verification/Spec2Isabelle.thy ===== *)
theory Spec2Isabelle
  imports Label_Use Console Numerals Elf_Constants Elf_Public
begin

text \<open>
  A model of the RISC-V assembler \<open>riscvass\<close> and of its companion \<open>dis\<close>, with the theorems that say
  what they compute. Paths are those of the repository.

  \<^bold>\<open>The program.\<close> \<open>main\<close> (\<open>riscvass.y\<close>) opens the source, lets the bison parser pull tokens from the
  flex scanner (\<open>riscvass.l\<close>), and the actions of the grammar build a global object \<open>elf\<close> of class
  \<open>ELF32\<close> (\<open>src/elf.cc\<close>): instructions are encoded (\<open>src/encoding.cc\<close>) and appended to the text section,
  labels and data get symbols and names in the string table, and references to labels that are not
  known yet become pending entries. When the parser has reduced the whole program it resolves the
  pending entries and \<open>write_elf\<close> writes a relocatable file. \<open>tools/dis.cc\<close> reads such a file back.

  \<^bold>\<open>Theories.\<close> In the order in which they build on each other:
  \<^item> \<open>Prelude\<close>: names for the machine integers, the ways a run can stop (\<open>stop\<close>: \<open>exit\<close>, an exception,
    undefined behaviour such as the use of an unset pointer) and the result type of fallible code.
  \<^item> \<open>Opcodes\<close>, \<open>Encoding\<close>, \<open>Utils\<close>: \<open>src/opcodes.h\<close> and \<open>.cc\<close>; the bit-field structures of \<open>src/encoding.h\<close> as records and
    the six \<open>emit_\<close> functions of \<open>src/encoding.cc\<close>; range checks and file names of \<open>src/utils.*\<close>. The locale
    \<open>bitfield_struct\<close> is the contract between an encoder and its \<open>deserialize\<close>.
  \<^item> \<open>Rv32_Isa\<close>: the instruction formats and a decoder, written after the RISC-V manual and not after the
    program. It is the reference against which the words the program emits are read.
  \<^item> \<open>Std_Map\<close>: \<open>std::map\<close> as a sorted association list (locale \<open>container\<close>). The order matters, since
    \<open>get_section_idx\<close> takes a distance of iterators.
  \<^item> \<open>Stream_Io\<close>: an output stream with its position, and the template \<open>write\<close> of \<open>src/utils.h\<close>; the locale
    \<open>fixed_codec\<close> is the contract of a fixed-size binary format.
  \<^item> \<open>Elf_Types\<close>: the structures of \<open>src/defs.h\<close>, their \<open>serialize\<close> members (\<open>src/elf.cc\<close>) and their memory images.
  \<^item> \<open>Sections\<close>, \<open>String_Table\<close>: \<open>src/section.h\<close>, \<open>text.cc\<close>, \<open>data.cc\<close>, \<open>symtab.cc\<close>, \<open>strtab.cc\<close>. A section has a
    pointer to its header, which the object also holds in its header table, so headers live in a
    store and pointers are indices into it; an unset pointer is \<open>None\<close>. The locales \<open>section_writer\<close> and
    \<open>section_store\<close> are the contract of all sections: what is written has the size that is reported,
    and a push keeps the size in the header right.
  \<^item> \<open>Elf_Object\<close>: class \<open>ELF32\<close> as a record, with the constructor and every operation up to
    \<open>_resolve_unresolved_instructions\<close>. \<open>Elf_Spec\<close>: the abstract object \<open>obj\<close> (code, data, symbols, and maps
    from labels to indices), its operations, and the representation \<open>elf_rep\<close>. \<open>Elf_Refine\<close>: each operation
    refines its abstract counterpart. \<open>Elf_Invariant\<close>: the calls that the parser makes as a step relation, with
    the invariant \<open>obj_ok\<close> of everything reachable; what resolution does to a single word.
  \<^item> \<open>Elf_File\<close>: \<open>ELF32::serialize\<close> and \<open>write_elf\<close>, and the file image \<open>file_of\<close> of an abstract object. \<open>Elf_Public\<close>: all
    public members of the class, called by any client in any order, and the invariant \<open>elf_sound\<close> that they keep.
  \<^item> \<open>Dis_Reader\<close>: all of \<open>tools/dis.cc\<close>, with the formatting state of \<open>std::cout\<close> (width, fill, base) and the
    error state of \<open>std::ifstream\<close>; and what an independent reader finds in the symbol table of a file.
  \<^item> \<open>Regex\<close>, \<open>Lexer\<close>, \<open>Lexer_Facts\<close>: regular expressions, their language and derivatives; the rules of
    \<open>riscvass.l\<close> in their order, with their actions; what particular inputs scan to.
  \<^item> \<open>Parser\<close>: the productions of \<open>riscvass.y\<close> as inductive relations on token lists (\<open>g_statements\<close> and so on),
    and the deterministic parser as functions (\<open>parse_statements\<close> and so on), whose result also says
    what was reduced before a syntax error.
  \<^item> \<open>Assembler\<close>: the globals and actions of \<open>riscvass.y\<close>, and \<open>main\<close> (\<open>riscvass_main\<close>), on a file system that
    maps names to contents. \<open>Assembler_Refine\<close>: the same over abstract objects, and the refinement.
  \<^item> \<open>Codegen\<close>: for every kind of instruction, what the word that is appended decodes to.
  \<^item> \<open>Scan_Print\<close>: text for tokens (\<open>unlex\<close>), which scans back to them; a blank ends every lexeme but a comment
    or a string. \<open>Numerals\<close>: the three kinds of numerals.
  \<^item> \<open>Wellformed\<close>: what the parser can build from scanned tokens (\<open>wf_statement\<close>). \<open>Program_Text\<close>: text for every
    well-formed program, which parses back to it. \<open>Parse_Progress\<close>: which tokens belong to which
    statement and instruction, how much work scanner and parser do, and where the parser stops.
    \<open>Run_Trace\<close>: the instructions of a run in order, each with the state in which its action starts.
  \<^item> \<open>Size_Bounds\<close>: the size of the object in the length of the source. \<open>Whole_Program\<close>: straight-line programs from
    text to words; \<open>Control_Flow\<close>: the reference compiler \<open>compile\<close>, which knows of labels and branches, and the
    proof that the assembler computes it; \<open>Label_Use\<close>: which labels end known or wanted, and which pending entries there are.
  \<^item> \<open>Diagnostics\<close>: the message of a failed range check, with the line counter and \<open>current_stmt\<close>.
    \<open>Console\<close>: everything on the two output streams, as one event per action and per message of the scanner.
  \<^item> \<open>Elf_Constants\<close>: the tables of constants and the unused structures of \<open>src/defs.h\<close>.

  \<^bold>\<open>What the theorems show.\<close> C1 to C7: the whole program refines an abstract one, what it writes is what \<open>dis\<close>
  lists, whole programs come out as the reference compiler says, no input makes it fail otherwise than
  by its exit, its output streams, and the size of its file. C8 to C16: scanner and parser implement
  the lex discipline and the grammar, stop, produce well-formed programs only, and invert printing.
  C17 to C24: the object, its labels, its data, and the resolution of pending instructions. C25 to C28: the
  layout of the file, and what \<open>dis\<close> rejects. C29 to C33: the actions and the encodings they emit, as they
  are. Several statements fix behaviour that differs from the RISC-V manual: the five mnemonics of C31, branch distances
  (C3, C23, C32), forward \<open>j\<close> (C33). C34 to C40: encodings, structures, string tables, symbols, section
  indices and names.

  \<^bold>\<open>The reference compiler.\<close> \<open>compile\<close> (C3) is two passes over the statements, \<open>marks\<close> for the indices of
  the labels and \<open>compiled\<close> for the instructions, without object file, text or pending entries. It gives \<open>None\<close>, and C3
  says nothing, for a line that does not become one instruction: literals out of range (the run stops there) and
  \<open>ori\<close> with a literal of 32 or more (no instruction has that word), symbols as immediates, \<open>la\<close>, an opcode without its
  operands or with those of another form, jumps forward, and branches forward
  outside the text section. The bound of \<open>2\<^sup>1\<^sup>9\<close> instructions keeps jumps in range; equal hashes of two
  labels would make the assembler confuse them.

  \<^bold>\<open>Bounds and termination.\<close> Nothing runs on fuel. The scanner is a loop that need not end, since some of its rules
  match the empty string: \<open>scan\<close> is a partial function, \<open>None\<close> if the end of the file is never reached, and C12
  shows that it is reached on every input; \<open>lexemes\<close> is its value. The other recursions that are not structural
  (\<open>parse_instructions\<close>, \<open>parse_statements\<close>, \<open>text_lines\<close>) have termination proofs by the length of what remains.
  Machine integers are words of their width; \<open>size_t\<close> values that count elements in memory are
  natural numbers until they are stored into a member. Properties that read a written file back
  assume it is shorter than 4 GiB, where its 32-bit offsets are exact; a source of at most 128 MiB guarantees that (C7).

  \<^bold>\<open>What the model takes as given.\<close> A little-endian LP64 host with the \<open>strtol\<close> and \<open>atoi\<close> of glibc;
  flex takes the longest match and of equals the first rule; bison resolves with one token of
  lookahead and reduces by default, so \<open>program\<close> is reduced before a syntax error is reported at a token that
  cannot continue the list; \<open>linux/defs.h\<close>, which \<open>dis.cc\<close> includes, is \<open>src/defs.h\<close>; a bit field
  shifted into the sign bit of \<open>int\<close> gives the expected word. The value
  of an uninitialised variable (\<open>insn\<close> in the resolution loop) is the parameter \<open>junk\<close>, and whether the output
  can be opened is the parameter \<open>writable\<close>.

  \<^bold>\<open>Not modelled.\<close> The order of standard output relative to standard error; failures of reads and writes
  after a successful open; \<open>Section<T>::push\<close>, which every section replaces; \<open>argc = 0\<close>.

  \<^bold>\<open>Plan.\<close> Still to come: failures of the streams after the
  open, the instructions that \<open>compile\<close> leaves out (what a forward jump overwrites), and the meaning of the
  emitted code as state transitions of a machine.
\<close>

section \<open>Instances for the witnesses\<close>

lemma prep_start: "prep (initial_pstate ELF32_initial) s_initial"
  by (rule prep_initial [OF elf_rep_initial])

lemma reachable_start: "elf_reachable ELF32_initial"
  by (rule elf_reachable.start [OF ELF32_new_initial])

text \<open>A source file of one labelled instruction, and what the assembler makes of it.\<close>

definition sample_source :: "byte list" where
  "sample_source = [97, 58, 32, 114, 101, 116]"

definition sample_obj :: obj where
  "sample_obj = spec_init_label ''a'' [] (spec_add_text (emit_i_type_instruction 0 0 1 0 0x67) spec_new)"

lemma sample_tokens: "yylex_all (chars_of sample_source) = [T_SYMBOL ''a'', Key K_COLON, Key K_RET]"
  by code_simp

lemma sample_statements:
  "parse_statements [T_SYMBOL ''a'', Key K_COLON, Key K_RET] = ([Label_insns ''a'' [Ret_insn]], [], Accepted)"
  by (simp add: parse_statements.simps parse_statement_def takers starts_instruction_def insn_start_def opcode_tables
      parse_instructions.simps parse_instruction_def parse_instruction_after_def)

lemma sample_program: "s_program (yylex_all (chars_of sample_source)) = Some (0, Some sample_obj)"
  by (simp add: sample_tokens s_program_def sample_statements s_statement_def s_instruction_def s_emit_def
      s_label_here_def s_initial_def sample_obj_def spec_resolve_def spec_init_label_def spec_add_text_def
      spec_new_def)

lemma sample_text: "o_text sample_obj = [0x00100067]"
proof -
  have "emit_i_type_instruction 0 0 1 0 0x67 = 0x00100067"
    by (simp add: emit_i_type_instruction_def itype32_to_uint32_def)
  then show ?thesis
    by (simp add: sample_obj_def spec_init_label_def spec_add_text_def spec_new_def)
qed

lemma sample_syms: "o_syms sample_obj = [(''a'', 0, 0)]"
  by (simp add: sample_obj_def spec_init_label_def spec_add_text_def spec_new_def c_str_def spec_index_def)

lemmas file_size = length_file_of body_of_def pieces_def text_bytes_def strtab_of_def shstrtab_of_def
  symtab_of_def strtab_bytes_def section_names_def sizeof_defs layout sym.length_enc

lemma new_file_small: "length (file_of spec_new) < 2 ^ 32"
  by (simp add: file_size spec_new_def)

lemma sample_output_name: "generate_dest_filename ''a.s'' = ''a.o''"
  using generate_dest_filename_ext [of "''s''" "''a''"] by simp

text \<open>A program with a branch forward and a jump back, and a source with a literal out of range.\<close>

definition sample_listing :: "statement list" where
  "sample_listing = [Directive Section_text,
     Label_insns ''a'' [Imm_insn (opcode_init 0x13 0) 1 0 (IMM_INT 5)],
     Label_insns ''b'' [Branch_insn (opcode_init 0x63 0) 1 2 ''c'', Jump_insn ''a''],
     Label_insns ''c'' [Bare_insn (opcode_init 0x73 0)]]"

lemma sample_wf: "list_all wf_statement sample_listing"
  by code_simp

lemma sample_names: "list_all names_ok sample_listing"
  by code_simp

lemma sample_labels: "distinct (map hasher (remdups (program_labels sample_listing)))"
  by code_simp

lemma sample_compiled: "compile sample_listing =
    [Some (OpImm A_ADD 1 0 5), Some (Branch C_EQ 1 2 6), Some (Jal 0 0), Some Ecall]"
  by code_simp

lemma sample_text_length: "length (program_text sample_listing) = 70"
  by code_simp

definition overflow_source :: string where
  "overflow_source = ''a:'' @ [newline_char] @ ''addi x1, x2, 2048''"

lemma overflow_message: "exit_message [''riscvass'', ''a.s''] (bytes_of overflow_source) =
    Some (''a.s:1: value is out of the acceptable range 2048 in addi x1, x2, 1'' @ [newline_char])"
  by code_simp

section \<open>The program as a whole\<close>

text \<open>
  C1: \<open>main\<close> is a function of its arguments and the files. It returns 1 without a source
  argument and -1 when the source cannot be opened; otherwise it exits with status 1 after a
  failed range check, or returns 0, also after a syntax error, having written the image of
  the abstract object of the program when one was reduced and the output could be opened.
\<close>
theorem main_refines_spec:
  "riscvass_main junk writable argv fs =
    (if length argv < 2 then Inr (1, fs)
     else case fs (argv ! 1) of
       None \<Rightarrow> Inr (- 1, fs)
     | Some src \<Rightarrow> (case s_program (yylex_all (chars_of src)) of
         None \<Rightarrow> Inl (Exit 1)
       | Some (status, ob) \<Rightarrow> Inr (0, s_files writable
           (if length argv = 4 then argv ! 3 else generate_dest_filename (argv ! 1)) ob fs)))"
  by (rule riscvass_main_refines)

text \<open>
  C2: What the assembler writes, the companion tool reads: if a source of at most 128 MiB is
  assembled to an object and its file could be written, \<open>dis\<close> accepts that file, reports nothing on
  standard error, and ends its output with the listing of exactly the instructions of the object.
\<close>
theorem assembled_file_is_listed:
  assumes "2 \<le> length argv" and "fs (argv ! 1) = Some src"
    and "s_program (yylex_all (chars_of src)) = Some (status, Some a)"
    and "out = (if length argv = 4 then argv ! 3 else generate_dest_filename (argv ! 1))"
    and "writable out" and "length src \<le> 2 ^ 27"
  shows "\<exists>fs' front. riscvass_main junk writable argv fs = Inr (0, fs') \<and>
    dis_main [prog, out] fs' = Inr (0, front @ text_section_output (o_text a), [])"
  by (rule assembled_and_listed [where argv = argv and fs = fs and writable = writable,
        OF assms(1-5) small_source [OF assms(3,6)]])

theorem assembled_file_is_listed_witness:
  "\<exists>fs' front. riscvass_main (\<lambda>_. 0) (\<lambda>_. True) [''riscvass'', ''a.s''] [''a.s'' \<mapsto> sample_source] = Inr (0, fs') \<and>
    dis_main [''dis'', ''a.o''] fs' = Inr (0, front @ text_section_output [0x00100067], [])"
  using assembled_file_is_listed [of "[''riscvass'', ''a.s'']" "[''a.s'' \<mapsto> sample_source]" sample_source 0
      sample_obj "''a.o''" "\<lambda>_. True" "\<lambda>_. 0" "''dis''"] sample_program sample_text
  by (simp add: sample_output_name sample_source_def)

text \<open>
  C3: The whole chain on whole programs: take any list of statements that the grammar can express,
  all of whose instructions the reference compiler \<open>compile\<close> covers (register and immediate arithmetic, loads,
  stores, moves, system calls, returns, branches in both directions and jumps back, with their
  misencodings), with no two labels of the same
  hash and at most \<open>2\<^sup>1\<^sup>9\<close> instructions. Write it down as text, assemble the text, and list the file:
  the listed words decode, one by one, to what the reference compiler says.
\<close>
theorem whole_programs_compiled:
  assumes "ss \<noteq> []" and "list_all wf_statement ss" and "list_all names_ok ss" and "None \<notin> set (compile ss)"
    and "length (compile ss) \<le> 2 ^ 19" and "distinct (map hasher (remdups (program_labels ss)))"
    and "2 \<le> length argv" and "fs (argv ! 1) = Some (bytes_of (program_text ss))"
    and "out = (if length argv = 4 then argv ! 3 else generate_dest_filename (argv ! 1))"
    and "writable out" and "length (program_text ss) \<le> 2 ^ 27"
  shows "\<exists>fs' front ws. riscvass_main junk writable argv fs = Inr (0, fs') \<and>
    dis_main [prog, out] fs' = Inr (0, front @ text_section_output ws, []) \<and> map rv_decode ws = compile ss"
proof -
  have "inj_on hasher (set (program_labels ss))" using assms(6) by (simp add: distinct_map)
  then obtain a where a: "s_program (yylex_all (chars_of (bytes_of (program_text ss)))) = Some (0, Some a)"
      "map rv_decode (o_text a) = compile ss"
    using compiled_program [OF assms(1-5)] by auto
  have "length (bytes_of (program_text ss)) \<le> 2 ^ 27" using assms(11) by (simp add: bytes_of_def)
  from assembled_and_listed [where argv = argv and fs = fs and writable = writable and junk = junk and prog = prog,
      OF assms(7,8) a(1) assms(9,10) small_source [OF a(1) this]]
  show ?thesis using a(2) by blast
qed

theorem whole_programs_compiled_witness:
  "\<exists>fs' front ws. riscvass_main (\<lambda>_. 0) (\<lambda>_. True) [''riscvass'', ''a.s''] [''a.s'' \<mapsto> bytes_of (program_text sample_listing)] =
      Inr (0, fs') \<and> dis_main [''dis'', ''a.o''] fs' = Inr (0, front @ text_section_output ws, []) \<and>
    map rv_decode ws = [Some (OpImm A_ADD 1 0 5), Some (Branch C_EQ 1 2 6), Some (Jal 0 0), Some Ecall]"
proof -
  have "sample_listing \<noteq> []" by (simp add: sample_listing_def)
  from whole_programs_compiled [OF this sample_wf sample_names _ _ sample_labels,
      of "[''riscvass'', ''a.s'']" "[''a.s'' \<mapsto> bytes_of (program_text sample_listing)]" "''a.o''" "\<lambda>_. True" "\<lambda>_. 0" "''dis''"]
  show ?thesis using sample_text_length by (simp add: sample_compiled sample_output_name)
qed

text \<open>
  C4: Whatever the arguments, the source and the files are, \<open>main\<close> throws no exception and uses
  no unset pointer: it ends by \<open>exit(1)\<close>, or returns 0, 1 or -1 with every file other than the
  output file as it was.
\<close>
theorem main_is_safe:
  "case riscvass_main junk writable argv fs of
     Inl e \<Rightarrow> e = Exit 1
   | Inr (st, fs') \<Rightarrow> st \<in> {- 1, 0, 1} \<and>
       fs' |` (- {if length argv = 4 then argv ! 3 else generate_dest_filename (argv ! 1)}) =
       fs |` (- {if length argv = 4 then argv ! 3 else generate_dest_filename (argv ! 1)})"
proof -
  have "s_files writable out ob fs |` (- {out}) = fs |` (- {out})" for out ob
    by (auto simp: s_files_def restrict_map_def fun_eq_iff split: option.splits)
  then show ?thesis
    by (simp add: riscvass_main_refines split: option.splits prod.splits)
qed

text \<open>
  C5: \<open>main\<close> writes one message if it exits with status 1, and only then: when the action of some
  instruction exits, the last to run. The message names the source file, or no file if
  an output name was given, and repeats the value and the text that this action computes. The token
  at fault, an immediate outside the 12-bit range or the label of a jump, is the last of the instruction's
  tokens. The line is the number of lexemes skipped before it that the two counting rules took: line
  breaks, but also a lone backslash or n. If neither of these two occurs before the token, and no string
  has a line break in it, this is the number of line breaks before the token, one
  less than the number of its line. It is in hexadecimal exactly if an action before left
  \<open>std::hex\<close> set: that of a branch, or of a jump to a known label.
\<close>
theorem exit_messages:
  assumes "2 \<le> length argv" and "fs (argv ! 1) = Some src"
  shows "(riscvass_main junk writable argv fs = Inl (Exit 1) \<longleftrightarrow> exit_message argv src \<noteq> None) \<and>
    (case exit_message argv src of None \<Rightarrow> True | Some m \<Rightarrow>
      \<exists>tr i q us pre l post u. run_trace src = tr @ [(i, q)] \<and> exec_instruction i q = Inl (Exit 1) \<and>
        lexemes (chars_of src) = pre @ l # post \<and> tokens_of (pre @ [l]) = u @ us \<and> g_instruction us i \<and>
        culprit (last us) (offending i q) \<and>
        m = exit_message_text (if length argv = 4 then [] else argv ! 1) (skipped_lines pre) (left_hex tr) (offending i q) \<and>
        (ordinary_lines pre \<longrightarrow> skipped_lines pre = count_list (concat (map snd pre)) newline_char))"
proof (rule conjI)
  show "riscvass_main junk writable argv fs = Inl (Exit 1) \<longleftrightarrow> exit_message argv src \<noteq> None"
    by (rule exit_message_iff [where argv = argv and fs = fs, OF assms])
next
  have "ordinary_lines pre \<longrightarrow> skipped_lines pre = count_list (concat (map snd pre)) newline_char"
    if "lexemes (chars_of src) = pre @ l # post" for pre l post
    using skipped_lines_newlines [of pre "chars_of src"] that by auto
  then show "case exit_message argv src of None \<Rightarrow> True | Some m \<Rightarrow>
      \<exists>tr i q us pre l post u. run_trace src = tr @ [(i, q)] \<and> exec_instruction i q = Inl (Exit 1) \<and>
        lexemes (chars_of src) = pre @ l # post \<and> tokens_of (pre @ [l]) = u @ us \<and> g_instruction us i \<and>
        culprit (last us) (offending i q) \<and>
        m = exit_message_text (if length argv = 4 then [] else argv ! 1) (skipped_lines pre) (left_hex tr) (offending i q) \<and>
        (ordinary_lines pre \<longrightarrow> skipped_lines pre = count_list (concat (map snd pre)) newline_char)"
    using exit_message_points [of argv src] by (cases "exit_message argv src") (simp, fastforce)
qed

theorem exit_messages_witness:
  "riscvass_main (\<lambda>_. 0) (\<lambda>_. True) [''riscvass'', ''a.s''] [''a.s'' \<mapsto> bytes_of overflow_source] = Inl (Exit 1) \<and>
    exit_message [''riscvass'', ''a.s''] (bytes_of overflow_source) =
      Some (''a.s:1: value is out of the acceptable range 2048 in addi x1, x2, 1'' @ [newline_char])"
  using exit_messages [of "[''riscvass'', ''a.s'']" "[''a.s'' \<mapsto> bytes_of overflow_source]" "bytes_of overflow_source" "\<lambda>_. 0" "\<lambda>_. True"]
    overflow_message by simp

text \<open>
  C6: The two output streams tell how a run ended. If \<open>main\<close> exits with status 1, the last thing on
  standard output is the message of C5, with its line number in the base that the output before it
  has left, and standard error is empty. Otherwise standard error is empty if and only if the whole
  source is a program of the grammar and the output file could be opened; then the output file is
  written and the last line of standard output says so.
\<close>
theorem console_reports_outcome:
  assumes "2 \<le> length argv" and "fs (argv ! 1) = Some src"
    and "out = (if length argv = 4 then argv ! 3 else generate_dest_filename (argv ! 1))"
    and "c = console_of junk writable argv fs"
  shows "case riscvass_main junk writable argv fs of
      Inl e \<Rightarrow> con_err c = [] \<and> (\<exists>front m. exit_message argv src = Some m \<and> con_out c = front @ m)
    | Inr (status, fs') \<Rightarrow>
        (con_err c = [] \<longleftrightarrow> writable out \<and> (\<exists>ss. g_statements (yylex_all (chars_of src)) ss)) \<and>
        (con_err c = [] \<longrightarrow> (\<exists>front. con_out c = front @ success_message) \<and> (\<exists>bs. fs' = fs(out \<mapsto> bs)))"
proof (cases "riscvass_main junk writable argv fs")
  case (Inl e)
  then have "e = Exit 1"
    using assms(1,2) by (auto simp: riscvass_main_refines split: option.splits if_splits)
  then obtain m where m: "exit_message argv src = Some m"
    using Inl exit_message_iff [where argv = argv and fs = fs, OF assms(1,2)] by auto
  then show ?thesis
    using console_exit [where argv = argv and fs = fs, OF assms(1,2) m, of junk writable] Inl assms(4) by auto
next
  case (Inr r)
  then obtain fs' where r: "r = (0, fs')"
    using assms(1,2) by (auto simp: riscvass_main_refines split: option.splits if_splits)
  then show ?thesis
    using console_end [where argv = argv and fs = fs, OF assms(1,2), of junk writable fs'] Inr assms(3,4) by simp
qed

theorem console_reports_outcome_witness:
  "(\<exists>front. con_out (console_of (\<lambda>_. 0) (\<lambda>_. True) [''riscvass'', ''a.s''] [''a.s'' \<mapsto> bytes_of overflow_source]) =
     front @ ''a.s:1: value is out of the acceptable range 2048 in addi x1, x2, 1'' @ [newline_char])"
proof -
  have "riscvass_main (\<lambda>_. 0) (\<lambda>_. True) [''riscvass'', ''a.s''] [''a.s'' \<mapsto> bytes_of overflow_source] = Inl (Exit 1)"
    using exit_message_iff [where argv = "[''riscvass'', ''a.s'']" and src = "bytes_of overflow_source"] overflow_message
    by simp
  then show ?thesis
    using console_reports_outcome [of "[''riscvass'', ''a.s'']" "[''a.s'' \<mapsto> bytes_of overflow_source]", OF _ _ refl refl,
        of "bytes_of overflow_source" "\<lambda>_. 0" "\<lambda>_. True"]
    by (simp add: overflow_message)
qed

text \<open>
  C7: Whatever the source is, \<open>main\<close> leaves the files as they were or writes the output file, of at
  most 350 bytes and 18 for each byte of the source.
\<close>
theorem output_size_linear:
  "case riscvass_main junk writable argv fs of
     Inl _ \<Rightarrow> True
   | Inr (st, fs') \<Rightarrow> fs' = fs \<or> (\<exists>src content. fs (argv ! 1) = Some src \<and>
       fs' = fs((if length argv = 4 then argv ! 3 else generate_dest_filename (argv ! 1)) \<mapsto> content) \<and>
       length content \<le> 350 + 18 * length src)"
  using object_size_bound
  by (fastforce simp: riscvass_main_refines s_files_def split: option.split)

section \<open>Scanning and parsing\<close>

text \<open>
  C8: The parser accepts a token list, with given statements and nothing left over, exactly if the
  productions of \<open>riscvass.y\<close> derive those statements from it; so the grammar is unambiguous, and
  the one token of lookahead is enough.
\<close>
theorem parser_accepts_grammar:
  "parse_statements ts = (ss, [], Accepted) \<longleftrightarrow> g_statements ts ss"
  by (rule statements_accepts)

text \<open>
  C9: A syntax error after a complete program does not undo it. If the tokens begin with a program of
  the grammar, and the token after it continues no derivation, such as a directive that the grammar
  does not have, then exactly that program is parsed, \<open>yyparse\<close> runs its actions, resolves the pending
  instructions and writes the object, as if the source ended there; only the status is 1.
\<close>
theorem stopped_program:
  assumes "g_statements us ss" and "\<forall>w xs. \<not> g_statements (us @ t # w) xs"
  shows "parse_statements (us @ t # r) = (ss, [], Refused_after_program) \<and>
    yyparse junk writable out (us @ t # r) p fs = andThen (exec_statements ss p) (\<lambda>q.
      andThen (write_elf writable out (resolve_unresolved_instructions junk (elf q)) fs) (\<lambda>(e, fs'). Inr (1, fs')))"
  using stops_after_program [OF assms(1)] assms(2) by (simp add: yyparse_def)

theorem stopped_program_witness:
  "yyparse (\<lambda>_. 0) (\<lambda>_. True) ''a.o'' [Key K_D_TEXT, Key K_D_SIZE, Key K_COMMA] (initial_pstate ELF32_initial) Map.empty =
     andThen (exec_statements [Directive Text_dir] (initial_pstate ELF32_initial)) (\<lambda>q.
      andThen (write_elf (\<lambda>_. True) ''a.o'' (resolve_unresolved_instructions (\<lambda>_. 0) (elf q)) Map.empty) (\<lambda>(e, fs'). Inr (1, fs')))"
proof -
  have "parse_statements ([Key K_D_TEXT] @ Key K_D_SIZE # w) = ([Directive Text_dir], [], Refused_after_program)" for w
    by (simp add: parse_statements.simps parse_statement_def parse_directive_def takers starts_statement_def)
  then have "\<forall>w xs. \<not> g_statements ([Key K_D_TEXT] @ Key K_D_SIZE # w) xs"
    by (simp flip: statements_accepts)
  moreover have "g_statements [Key K_D_TEXT] [Directive Text_dir]"
    by (intro g_statements.intros(1) g_statement.intros(3) g_directive.intros(3))
  ultimately show ?thesis
    using stopped_program [of "[Key K_D_TEXT]" "[Directive Text_dir]" "Key K_D_SIZE" "[Key K_COMMA]"] by simp
qed

text \<open>
  C10: The scanner cuts the input into lexemes under the lex discipline, in the only possible way:
  each is matched by its rule, no rule matches more of the input there, and no earlier rule
  matches as much. It advances at every character and skips none: the lexemes, put together
  again, are the input, whatever it contains.
\<close>
theorem scanner_tokenizes:
  "(tokenization s ls \<longleftrightarrow> ls = lexemes s) \<and> concat (map snd (lexemes s)) = s"
  using tokenization_lexemes lexemes_cover by simp

text \<open>
  C11: Whatever the source is, everything that the parser hands to the actions is well formed:
  every register number is below 32, every opcode structure is one of the table of its
  production, and a label has at least one instruction. So the range that the encoders expect
  of their arguments is the one they get.
\<close>
theorem parsed_programs_well_formed:
  "case parse_statements (yylex_all s) of (ss, is, out) \<Rightarrow> list_all wf_statement ss \<and> list_all wf_instruction is"
  using scanned_program_wf [of s] by (auto split: prod.split)

text \<open>
  C12: The front end stops on every input, after work that is linear in it. The scanner, a loop that need
  not end since some rules match the empty string, gets to the end of the file in at most one step per
  character, each of which matches at least one character by a rule of \<open>riscvass.l\<close>, never by the default rule
  of flex; and the parser reduces at most as many statements and instructions as there are tokens.
\<close>
theorem front_end_stops:
  "scan s = Some (lexemes s) \<and> set (map fst (lexemes s)) \<subseteq> set rules \<and> [] \<notin> set (map snd (lexemes s)) \<and>
   length (yylex_all s) \<le> length (lexemes s) \<and> length (lexemes s) \<le> length s \<and>
   (case parse_statements (yylex_all s) of (ss, is, out) \<Rightarrow>
     sum_list (map (\<lambda>x. 1 + length (statement_instructions x)) ss) + length is \<le> length (yylex_all s))"
  using front_end_bound [of s] scan_total [of s] scan_rules [of s]
  by (cases "parse_statements (yylex_all s)") (auto simp: reduced_def)

text \<open>
  C13: Tokens survive being written down: the text of any list of registers below 32, immediates of
  any 32-bit value, strings in quotation marks, names that are no mnemonic, register or numeral, and
  keywords, separated by blanks, scans to that list.
\<close>
theorem printed_tokens_scan_back:
  assumes "list_all printable ts"
  shows "yylex_all (unlex ts) = ts"
  using assms by (rule unlex_scan)

theorem printed_tokens_scan_back_witness:
  "yylex_all (unlex [T_SYMBOL ''main'', Key K_COLON, Key K_ADDI, T_REG 10, Key K_COMMA, T_REG 0, Key K_COMMA, T_IMM (- 3)]) =
     [T_SYMBOL ''main'', Key K_COLON, Key K_ADDI, T_REG 10, Key K_COMMA, T_REG 0, Key K_COMMA, T_IMM (- 3)]"
  by (rule printed_tokens_scan_back) code_simp

text \<open>
  C14: Programs survive being written down: the text of any nonempty list of well-formed
  statements, whose names can be scanned as names, scans and parses to that list, with nothing left over.
\<close>
theorem printed_programs_parse_back:
  assumes "ss \<noteq> []" and "list_all wf_statement ss" and "list_all names_ok ss"
  shows "parse_statements (yylex_all (program_text ss)) = (ss, [], Accepted)"
  using assms by (rule program_text_parses)

theorem printed_programs_parse_back_witness:
  "parse_statements (yylex_all (program_text sample_listing)) = (sample_listing, [], Accepted)"
  by (rule printed_programs_parse_back [OF _ sample_wf sample_names]) (simp add: sample_listing_def)

text \<open>
  C15: The register names of the psABI, and the names \<open>x0\<close> to \<open>x31\<close>, scan to the numbers that the
  ABI gives them.
\<close>
theorem register_names:
  "map yylex_all abi_names = map (\<lambda>i. [T_REG (of_nat i)]) [0..<32] \<and>
   map yylex_all x_names = map (\<lambda>i. [T_REG (of_nat i)]) [0..<32]"
  using abi_names_scan x_names_scan by blast

text \<open>
  C16: A nonempty string of decimal digits, of hexadecimal digits after \<open>0x\<close> or \<open>0X\<close>, or of binary digits
  after \<open>0b\<close> or \<open>0B\<close>, scans to one immediate: the value of the numeral in its base, cut to the range of
  \<open>long\<close> and then to 32 bits.
\<close>
theorem numerals_scan_to_values:
  assumes "u \<noteq> []" and "set u \<subseteq> set digits_class" and "v \<noteq> []" and "set v \<subseteq> set hex_class" and "x \<in> set ''xX''"
    and "w \<noteq> []" and "set w \<subseteq> set ''01''" and "y \<in> set ''bB''"
  shows "yylex_all u = [T_IMM (word_of_int (clamp_long (int (numeral_value 10 u))))] \<and>
    yylex_all (CHR ''0'' # x # v) = [T_IMM (word_of_int (clamp_long (int (numeral_value 16 v))))] \<and>
    yylex_all (CHR ''0'' # y # w) = [T_IMM (word_of_int (clamp_long (int (numeral_value 2 w))))]"
  using decimal_numeral [OF assms(1,2)] hex_numeral [OF assms(3,4,5)] binary_numeral [OF assms(6,7,8)]
  by (simp add: literal_def)

theorem numerals_scan_to_values_witness:
  "yylex_all ''42'' = [T_IMM 42] \<and> yylex_all ''0x2A'' = [T_IMM 42] \<and> yylex_all ''0b101010'' = [T_IMM 42]"
  using numerals_scan_to_values [of "''42''" "''2A''" "CHR ''x''" "''101010''" "CHR ''b''"]
  by (simp add: hex_class_def digits_class_def numeral_value_def digit_value_def clamp_long_def)

section \<open>The object under construction\<close>

text \<open>
  C17: The constructor ends without an exception in an object that stands for the empty abstract object.
  After any calls of public members of \<open>ELF32\<close> and \<open>add_to_unresolved_insns\<close>, in any order, the object
  is sound: every header is where its section points and records its size, the maps are sorted, the string tables hold
  lists of strings, no label is both known and wanted, and every known label has an address
  by its hash, not beyond the code. If the calls are those that the parser makes
  (it stores strings and symbols together, and adds an entry only for a label that it just looked up), more
  holds: symbols and string table list the same names, and every pending entry is for a label that was
  mentioned.
\<close>
theorem reachable_objects_represent:
  assumes "public_reachable e"
  shows "(\<exists>e0. ELF32_new = Inr e0 \<and> elf_rep e0 spec_new) \<and> elf_sound e \<and>
    (elf_reachable e \<longrightarrow> (\<exists>a. elf_rep e a \<and> obj_ok a))"
  using ELF32_new_refines public_reachable_sound [OF assms] elf_reachable_rep by blast

theorem reachable_objects_represent_witness:
  "elf_sound ELF32_initial \<and> (\<exists>a. elf_rep ELF32_initial a \<and> obj_ok a)"
  using reachable_objects_represent [OF public_reachable.start [OF ELF32_new_initial]] reachable_start by blast

text \<open>
  C18: After any calls of public members of \<open>ELF32\<close> and \<open>add_to_unresolved_insns\<close>, in any order, the next call of a
  member that could throw or use an unset header pointer returns, whatever its arguments: the labels, the
  strings of both tables, code, data, and serialisation to any stream. (The other members have no such
  branch.)
\<close>
theorem reachable_objects_never_stop:
  assumes "public_reachable e"
  shows "(\<exists>e'. init_label l g sec e = Inr e') \<and> (\<exists>e'. update_label_visibility l g e = Inr e') \<and>
    (\<exists>off e'. store_regular_string str e = Inr (off, e')) \<and> (\<exists>off e'. store_section_name str e = Inr (off, e')) \<and>
    (\<exists>e'. add_to_text w e = Inr e') \<and> (\<exists>e'. add_program_data n v sec e = Inr e') \<and>
    (\<exists>e' os'. ELF32_serialize e os = Inr (e', os'))"
proof -
  have e: "elf_sound e" by (rule public_reachable_sound [OF assms])
  show ?thesis
    using sound_init_label [OF e] sound_visibility [OF e] sound_store_regular_string [OF e] sound_store_section_name [OF e]
      sound_add_to_text [OF e] sound_add_program_data [OF e] sound_serialize [OF e] by blast
qed

theorem reachable_objects_never_stop_witness:
  "\<exists>off e'. store_section_name ''.bss'' ELF32_initial = Inr (off, e')"
  using reachable_objects_never_stop [OF public_reachable.start [OF ELF32_new_initial]] by blast

text \<open>
  C19: \<open>init_label\<close> records a label once: a known label is left alone; a new one gets a symbol with
  its name and section, is no longer wanted, and has as its address, by name and by hash, the
  index of the instruction emitted last. \<open>resolve_label\<close> returns the recorded index of a known label and
  leaves the object as it is; for another label it returns -1 and the hash, and notes the label as wanted.
\<close>
theorem labels_are_recorded:
  assumes "elf_rep e a"
  shows "(\<exists>e'. init_label l g sec e = Inr e' \<and> elf_rep e' (spec_init_label l sec a) \<and>
      (o_labels a l = None \<longrightarrow> map_find (resolved_labels e') l = Some (of_nat (length (data (sec_text e)) - 1)))) \<and>
    (case resolve_label l e of (st, off, e') \<Rightarrow> (case spec_resolve_label l a of
      (st', off', a') \<Rightarrow> st = st' \<and> off = off' \<and> elf_rep e' a'))"
proof -
  obtain e' where e': "init_label l g sec e = Inr e'" "elf_rep e' (spec_init_label l sec a)"
    using init_label_refines [OF assms] by blast
  moreover have "o_labels a l = None \<Longrightarrow> o_labels (spec_init_label l sec a) l = Some (of_nat (length (o_text a) - 1))"
    by (simp add: spec_init_label_def spec_last_def)
  ultimately show ?thesis using assms resolve_label_refines [OF assms, of l] by (auto simp: elf_rep_def)
qed

theorem labels_are_recorded_witness:
  "(\<exists>e'. init_label ''a'' False ''.text'' ELF32_initial = Inr e' \<and> map_find (resolved_labels e') ''a'' = Some 0) \<and>
    fst (resolve_label ''a'' ELF32_initial) = - 1 \<and> fst (snd (resolve_label ''a'' ELF32_initial)) = hasher ''a''"
  using labels_are_recorded [OF elf_rep_initial, of "''a''" False "''.text''"]
  by (auto simp: spec_new_def ELF32_initial_def spec_resolve_label_def split: prod.splits)

text \<open>
  C20: What a program leaves to resolution. When its actions have run, the known labels are those
  that it defines by a block of instructions or names in a \<open>.global\<close> (whose action calls \<open>init_label\<close>), each with
  an address under its hash; the labels still wanted are those that a branch or jump names
  and nothing defines. And the pending entries are, in program order and without any other, one for each
  branch or jump whose label was not known when its action ran, with its type, the hash of the label, and the index of the
  next instruction (0 outside the text section). So for a reference to a label that the program defines, either its
  action knew the label, or an entry waits whose hash has an address; C22 and C23 say what
  becomes of the entry. A program that does not end this way exits with status 1.
\<close>
theorem references_are_satisfied:
  "case ELF32_new of Inl _ \<Rightarrow> False | Inr e \<Rightarrow> (case exec_statements ss (initial_pstate e) of
     Inl stop \<Rightarrow> stop = Exit 1
   | Inr q \<Rightarrow> dom (map_find (resolved_labels (elf q))) = defined_labels ss \<and>
       dom (map_find (unresolved_labels (elf q))) = referenced_labels ss - defined_labels ss \<and>
       hasher ` defined_labels ss \<subseteq> dom (map_find (label_to_addr (elf q))) \<and>
       unresolved_instructions (elf q) = concat (map entries_of (program_trace ss [] (initial_pstate e))))"
proof -
  obtain e where e: "ELF32_new = Inr e" "elf_rep e spec_new" using ELF32_new_refines by blast
  have "refines (exec_statements ss (initial_pstate e)) (s_statements ss s_initial)"
    by (rule statements_refine [OF prep_initial [OF e(2)]])
  then have "stop = Exit 1" if "exec_statements ss (initial_pstate e) = Inl stop" for stop
    using that by (auto simp: refines_def split: option.splits)
  then show ?thesis using label_use [OF e(1), of ss] by (simp add: e(1) split: sum.split)
qed

text \<open>
  C21: \<open>add_program_data\<close> appends the bytes of the value to the data section and a symbol with the
  name, the offset of the first byte and the section.
\<close>
theorem program_data_is_stored:
  assumes "elf_rep e a"
  shows "\<exists>e'. add_program_data n v sec e = Inr e' \<and> elf_rep e' (spec_add_data n v sec a) \<and>
    data (sec_data e') = data (sec_data e) @ map of_char v"
proof -
  obtain e' where "add_program_data n v sec e = Inr e'" "elf_rep e' (spec_add_data n v sec a)"
    using add_program_data_refines [OF assms] by blast
  then show ?thesis using assms by (auto simp: elf_rep_def spec_add_data_def Let_def)
qed

theorem program_data_is_stored_witness:
  "\<exists>e'. add_program_data ''m'' ''hi'' ''.data'' ELF32_initial = Inr e' \<and> data (sec_data e') = [104, 105]"
  using program_data_is_stored [OF elf_rep_initial, of "''m''" "''hi''" "''.data''"]
  by (auto simp: ELF32_initial_def)

section \<open>Resolving pending instructions\<close>

text \<open>
  C22: Resolving the pending instructions does to the code what the abstract operation says, one
  entry after the other, whatever the uninitialised variable holds.
\<close>
theorem resolution_refines:
  assumes "elf_rep e a"
  shows "elf_rep (resolve_unresolved_instructions junk e) (spec_resolve a)"
  using assms by (rule resolve_refines)

theorem resolution_refines_witness:
  "elf_rep (resolve_unresolved_instructions (\<lambda>_. 0) ELF32_initial) (spec_resolve spec_new)"
  by (rule resolution_refines [OF elf_rep_initial])

text \<open>
  C23: A pending branch whose index no other entry has ends with its opcode and function code kept,
  its two source registers exchanged, and twice the difference between the index of the label, or
  0 for a label that was never defined, and the index of the instruction before the branch as its
  immediate.
\<close>
theorem branches_are_patched:
  assumes "elf_rep e a" and "distinct (map insn_number (unresolved_instructions e))"
    and "q \<in> set (unresolved_instructions e)" and "insn_type q = B_TYPE"
    and "n = unat (insn_number q)" and "n < length (data (sec_text e))"
  shows "isa_opcode (data (sec_text (resolve_unresolved_instructions junk e)) ! n) = isa_opcode (data (sec_text e) ! n) \<and>
    isa_funct3 (data (sec_text (resolve_unresolved_instructions junk e)) ! n) = isa_funct3 (data (sec_text e) ! n) \<and>
    isa_rs1 (data (sec_text (resolve_unresolved_instructions junk e)) ! n) = isa_rs2 (data (sec_text e) ! n) \<and>
    isa_rs2 (data (sec_text (resolve_unresolved_instructions junk e)) ! n) = isa_rs1 (data (sec_text e) ! n) \<and>
    imm_B (data (sec_text (resolve_unresolved_instructions junk e)) ! n) = signed_take_bit 12 (2 *
      ((case map_find (label_to_addr e) (insn_hash q) of None \<Rightarrow> 0 | Some v \<Rightarrow> v) - pc_insn_number q))"
proof -
  have "data (sec_text (resolve_unresolved_instructions junk e)) ! n =
      patch B_TYPE (2 * (spec_target a q - pc_insn_number q)) (data (sec_text e) ! n)"
    using resolve_refines [OF assms(1), of junk] resolve_patched [of "o_pending a" q a] assms
    by (simp add: elf_rep_def spec_resolve_def patchable_def)
  moreover have "spec_target a q = (case map_find (label_to_addr e) (insn_hash q) of None \<Rightarrow> 0 | Some v \<Rightarrow> v)"
    using assms(1) by (simp add: spec_target_def elf_rep_def)
  ultimately show ?thesis by (simp only: patch_branch_fields simp_thms)
qed

theorem branches_are_patched_witness:
  "\<exists>e. imm_B (data (sec_text (resolve_unresolved_instructions (\<lambda>_. 0) e)) ! 0) = signed_take_bit 12 2 \<and>
    isa_rs1 (data (sec_text (resolve_unresolved_instructions (\<lambda>_. 0) e)) ! 0) = isa_rs2 0x63"
proof -
  let ?q = "\<lparr>insn_number = 0, pc_insn_number = - 1, insn_type = B_TYPE, insn_hash = hasher ''a''\<rparr>"
  obtain e1 where "elf_rep e1 (spec_add_text 0x63 spec_new)"
    using add_to_text_refines [OF elf_rep_initial, of "0x63"] by blast
  then have rep: "elf_rep (add_to_unresolved_insns 0 B_TYPE (hasher ''a'') (- 1) e1)
      (spec_add_pending ?q (spec_add_text 0x63 spec_new))"
    by (rule add_to_unresolved_insns_refines)
  then show ?thesis
    using branches_are_patched [OF rep, of ?q 0 "\<lambda>_. 0"]
    by (intro exI [of _ "add_to_unresolved_insns 0 B_TYPE (hasher ''a'') (- 1) e1"])
      (simp add: elf_rep_def spec_add_pending_def spec_add_text_def spec_new_def)
qed

text \<open>
  C24: Resolution neither adds nor removes instructions, and an instruction that no pending entry
  names stays as it was.
\<close>
theorem other_words_are_kept:
  assumes "elf_rep e a"
  shows "length (data (sec_text (resolve_unresolved_instructions junk e))) = length (data (sec_text e)) \<and>
    (\<forall>i. i \<notin> (\<lambda>q. unat (insn_number q)) ` set (unresolved_instructions e) \<longrightarrow>
       data (sec_text (resolve_unresolved_instructions junk e)) ! i = data (sec_text e) ! i)"
  using resolve_refines [OF assms, of junk] resolve_frame [of _ "o_pending a" a] assms
  by (auto simp: elf_rep_def spec_resolve_def)

theorem other_words_are_kept_witness:
  "length (data (sec_text (resolve_unresolved_instructions (\<lambda>_. 0) ELF32_initial))) = 0"
  using other_words_are_kept [OF elf_rep_initial, of "\<lambda>_. 0"] by (simp add: ELF32_initial_def)

section \<open>The file\<close>

text \<open>
  C25: Serialising an object into an empty stream leaves exactly the file image of the abstract
  object in it, and the object still represents the same abstract object.
\<close>
theorem serialization_writes_file:
  assumes "elf_rep e a"
  shows "\<exists>e' os. ELF32_serialize e os_empty = Inr (e', os) \<and> os_buf os = file_of a \<and> elf_rep e' a"
  using assms by (rule serialize_refines)

theorem serialization_writes_file_witness:
  "\<exists>e' os. ELF32_serialize ELF32_initial os_empty = Inr (e', os) \<and> os_buf os = file_of spec_new \<and> elf_rep e' spec_new"
  by (rule serialization_writes_file [OF elf_rep_initial])

text \<open>
  C26: What serialisation writes is laid out consistently: the first 52 bytes are the ELF header,
  the section headers stand one after the other at its \<open>e_shoff\<close>, and the bytes at the offset and
  of the size that a header gives are the text, the data, the two string tables and the symbol
  table.
\<close>
theorem file_layout:
  assumes "elf_rep e a" and "ELF32_serialize e os_empty = Inr (e', os)" and "length (os_buf os) < 2 ^ 32"
  shows "Ehdr_read (slice 0 sizeof_Ehdr (os_buf os)) = elf_header e' \<and>
    map (\<lambda>i. Shdr_read (slice (unat (e_shoff (elf_header e')) + i * sizeof_Shdr) sizeof_Shdr (os_buf os))) [0..<6] = hdr_store e' \<and>
    map (\<lambda>i. slice (unat (sh_offset (hdr_store e' ! i))) (unat (sh_size (hdr_store e' ! i))) (os_buf os)) [1, 2, 3, 4, 5] =
      [map of_char (data (strtab e)), map of_char (data (shstrtab e)), Symtab_image (symtab e),
       Text_image LE (sec_text e), data (sec_data e)]"
proof -
  have eqs: "os_buf os = file_of a" "elf_header e' = ehdr_of a" "hdr_store e' = shdrs_of a"
    using serialize_eq [OF assms(1)] serialize_refines [OF assms(1)] assms(2) by auto
  have small: "length (file_of a) < 2 ^ 32" using assms(3) eqs(1) by simp
  have "slice (unat (sh_offset (shdrs_of a ! i))) (unat (sh_size (shdrs_of a ! i))) (file_of a) = bs"
    if "(i, bs) \<in> set (pieces a)" for i bs
    using that by (rule file_pieces [OF small])
  then show ?thesis
    using pieces_of_rep [OF assms(1)]
    by (simp add: eqs file_ehdr e_shoff_of [OF small] file_shdrs pieces_def)
qed

theorem file_layout_witness:
  "\<exists>e' os. ELF32_serialize ELF32_initial os_empty = Inr (e', os) \<and>
    Ehdr_read (slice 0 sizeof_Ehdr (os_buf os)) = elf_header e'"
proof -
  obtain e' os where s: "ELF32_serialize ELF32_initial os_empty = Inr (e', os)" "os_buf os = file_of spec_new"
    using serialize_refines [OF elf_rep_initial] by blast
  then show ?thesis using file_layout [OF elf_rep_initial s(1)] new_file_small by auto
qed

text \<open>
  C27: What a reader finds in the symbol table of the file, after a new label and a datum were added to an
  object and the object was serialised (to less than 4 GiB): first the entries that were there, then one for the
  label and one for the datum. Their name offsets lead to their names in the string table of the file; the value is 0
  for the label and the offset in the data section for the datum; the section is the recorded index, or 0; and
  \<open>st_info\<close> is 0, that is, local and without a type, also if the label was declared global, since \<open>init_label\<close> applies
  \<open>ELF32_ST_BIND\<close> where \<open>ELF32_ST_INFO\<close> was due.
\<close>
theorem file_symbol_table:
  assumes "elf_reachable e" and "\<not> label_exists l e" and "init_label l g sec e = Inr e1"
    and "add_program_data n v dsec e1 = Inr e2" and "ELF32_serialize e2 os_empty = Inr (e3, os)"
    and "length (os_buf os) < 2 ^ 32" and "k = length (data (symtab e))"
    and "y = symbol_in_file (os_buf os) k" and "z = symbol_in_file (os_buf os) (Suc k)"
  shows "map (symbol_in_file (os_buf os)) [0..<k] = data (symtab e) \<and>
    name_in_file (os_buf os) y = Inr (c_str l) \<and> st_value y = 0 \<and> st_info y = 0 \<and>
    st_shndx y = ucast (case map_find (section_to_idx e) sec of None \<Rightarrow> 0 | Some i \<Rightarrow> i) \<and>
    name_in_file (os_buf os) z = Inr (c_str n) \<and> st_value z = of_nat (length (data (sec_data e))) \<and> st_info z = 0 \<and>
    st_shndx z = ucast (case map_find (section_to_idx e) dsec of None \<Rightarrow> 0 | Some i \<Rightarrow> i)"
proof -
  obtain a where "elf_rep e a" using elf_reachable_rep [OF assms(1)] by blast
  from file_gets_symbols [OF this assms(2-9)] show ?thesis by simp
qed

theorem file_symbol_table_witness:
  "\<exists>e1 e2 e3 os. init_label ''a'' True ''.text'' ELF32_initial = Inr e1 \<and> add_program_data ''s'' ''xyz'' ''.data'' e1 = Inr e2 \<and>
    ELF32_serialize e2 os_empty = Inr (e3, os) \<and> name_in_file (os_buf os) (symbol_in_file (os_buf os) 1) = Inr ''a'' \<and>
    st_info (symbol_in_file (os_buf os) 1) = 0 \<and> name_in_file (os_buf os) (symbol_in_file (os_buf os) 2) = Inr ''s''"
proof -
  let ?a = "spec_add_data ''s'' ''xyz'' ''.data'' (spec_init_label ''a'' ''.text'' spec_new)"
  obtain e1 where e1: "init_label ''a'' True ''.text'' ELF32_initial = Inr e1" "elf_rep e1 (spec_init_label ''a'' ''.text'' spec_new)"
    using init_label_refines [OF elf_rep_initial] by blast
  obtain e2 where e2: "add_program_data ''s'' ''xyz'' ''.data'' e1 = Inr e2" "elf_rep e2 ?a"
    using add_program_data_refines [OF e1(2)] by blast
  obtain e3 os where s: "ELF32_serialize e2 os_empty = Inr (e3, os)" "os_buf os = file_of ?a"
    using serialize_refines [OF e2(2)] by blast
  have "length (file_of ?a) < 2 ^ 32"
    by (simp add: file_size spec_new_def spec_init_label_def spec_add_data_def c_str_def Let_def)
  then have small: "length (os_buf os) < 2 ^ 32" using s(2) by simp
  have l: "\<not> label_exists ''a'' ELF32_initial" and k: "1 = length (data (symtab ELF32_initial))"
    using label_exists_iff [OF elf_rep_initial, of "''a''"] elf_rep_initial by (simp_all add: spec_new_def elf_rep_def)
  have "c_str ''a'' = ''a''" "c_str ''s'' = ''s''" "Suc 1 = 2" by (simp_all add: c_str_def)
  then show ?thesis
    using file_symbol_table [OF reachable_start l e1(1) e2(1) s(1) small k refl refl] e1(1) e2(1) s(1) by metis
qed

text \<open>
  C28: \<open>dis\<close> refuses, with status 1 and nothing on standard output, a file that is shorter than an
  ELF header or does not begin with the ELF magic number.
\<close>
theorem dis_rejects:
  assumes "fs name = Some content"
    and "length content < sizeof_Ehdr \<or> take 4 content \<noteq> [0x7f, 0x45, 0x4c, 0x46]"
  shows "\<exists>msg. dis_main [prog, name] fs = Inr (1, [], msg)"
proof (cases "length content < sizeof_Ehdr")
  case True
  then show ?thesis
    using assms(1) by (simp add: dis_main_def if_read_def if_open_def slice_def Let_def)
next
  case False
  then have "take SELFMAG (e_ident (Ehdr_read (slice 0 sizeof_Ehdr content))) = take 4 content"
    by (simp add: SELFMAG_def Ehdr_read_def slice_def sizeof_Ehdr_def min_def)
  then show ?thesis
    using assms False by (simp add: dis_main_def if_read_def if_open_def slice_def Let_def ELFMAG_def)
qed

theorem dis_rejects_witness:
  "\<exists>msg. dis_main [''dis'', ''x''] [''x'' \<mapsto> [1, 2]] = Inr (1, [], msg)"
  using dis_rejects [of "[''x'' \<mapsto> [1, 2]]" "''x''" "[1, 2]" "''dis''"] by (simp add: sizeof_Ehdr_def)

section \<open>The actions of the grammar\<close>

text \<open>
  C29: Running the actions of any list of statements on an object and its globals either exits
  after a failed range check or ends in the state that the abstract actions reach, and it exits
  exactly when they fail.
\<close>
theorem actions_refine:
  assumes "prep p s"
  shows "refines (exec_statements ss p) (s_statements ss s)"
  using assms by (rule statements_refine)

theorem actions_refine_witness:
  "refines (exec_statements [Label_insns ''a'' [Ret_insn]] (initial_pstate ELF32_initial))
     (s_statements [Label_insns ''a'' [Ret_insn]] s_initial)"
  by (rule actions_refine [OF prep_start])

text \<open>
  C30: An instruction with an immediate literal exits exactly if the literal would not survive the
  cut to 12 bits and the sign extension that the hardware performs.
\<close>
theorem immediates_out_of_range_exit:
  assumes "prep p s"
  shows "exec_instruction (Imm_insn c d a (IMM_INT v)) p = Inl (Exit 1) \<longleftrightarrow> signed_take_bit 11 v \<noteq> v"
proof (cases "is_within_range_12b v")
  case True
  then show ?thesis
    using exec_imm_int [OF True, of c d a p] push_insn_emits [OF prep_label [OF assms, of "[]"]]
    by (metis Inr_not_Inl is_within_range_12b_iff)
next
  case False
  then show ?thesis
    by (simp add: exec_instruction_def exec_immediate_def Let_def literal_narrow exit_with_message_def
        is_within_range_12b_iff)
qed

theorem immediates_out_of_range_exit_witness:
  "exec_instruction (Imm_insn (opcode_init 0x13 0) 10 0 (IMM_INT 2048)) (initial_pstate ELF32_initial) = Inl (Exit 1)"
proof -
  have "\<not> is_within_range_12b 2048" by (simp add: range_defs)
  then show ?thesis
    using immediates_out_of_range_exit [OF prep_start] by (simp add: is_within_range_12b_iff)
qed

text \<open>
  C31: Five mnemonics come out as other instructions. \<open>sub\<close> appends the word of an addition, since the
  function code of its table entry is not used; \<open>sltiu\<close>, parsed with three registers, the word of
  \<open>sltu\<close>; \<open>ret\<close> a jump to the absolute address 1 instead of one through the return address register;
  \<open>andi\<close> with any immediate in the 12-bit range the word of \<open>ori\<close>; and \<open>ori\<close> with an immediate below 32 that of a
  logical shift to the right.
\<close>
theorem misencoded_mnemonics:
  assumes "prep p s" and "d < 32" and "a < 32" and "b < 32" and "is_within_range_12b u" and "v < 32"
  shows "emits (Reg_insn (the (opcode K_SUB)) d a b) p (Some (Op A_ADD d a b)) \<and>
    emits (Reg_insn (the (opcode K_SLTIU)) d a b) p (Some (Op A_SLTU d a b)) \<and>
    emits Ret_insn p (Some (Jalr 0 0 1)) \<and>
    emits (Imm_insn (the (opcode_immediate K_ANDI)) d a (IMM_INT u)) p (Some (OpImm A_OR d a u)) \<and>
    emits (Imm_insn (the (opcode_immediate K_ORI)) d a (IMM_INT v)) p (Some (OpImm A_SRL d a v))"
  using sub_is_add [OF assms(1) _ assms(2-4)] sltiu_is_sltu [OF assms(1) _ assms(2-4)] ret_target [OF assms(1)]
    andi_is_ori [OF assms(1) _ assms(2,3,5)] ori_is_srli [OF assms(1) _ assms(2,3,6)]
  by (simp add: opcode_def opcode_immediate_def)

theorem misencoded_mnemonics_witness:
  "emits (Imm_insn (the (opcode_immediate K_ANDI)) 1 2 (IMM_INT 100)) (initial_pstate ELF32_initial) (Some (OpImm A_OR 1 2 100)) \<and>
    emits (Imm_insn (the (opcode_immediate K_ORI)) 1 2 (IMM_INT 3)) (initial_pstate ELF32_initial) (Some (OpImm A_SRL 1 2 3))"
  using misencoded_mnemonics [OF prep_start, of 1 2 3 100 3] by (simp add: range_defs)

text \<open>
  C32: A \<open>beq\<close> to a known label compares the right registers, but its immediate is the index of the
  label's instruction, not a distance in bytes.
\<close>
theorem backward_branches_encoded:
  assumes "prep p s" and "opcode_branch K_BEQ = Some c" and "a < 32" and "b < 32"
    and "o_labels (s_obj s) l = Some v"
  shows "emits (Branch_insn c a b l) p (Some (Branch C_EQ b a (signed_take_bit 12 (v AND NOT 1))))"
  using assms by (rule known_branch_offset)

theorem backward_branches_encoded_witness:
  "\<exists>p. emits (Branch_insn (opcode_init 0x63 0) 1 2 ''a'') p (Some (Branch C_EQ 2 1 0))"
proof -
  let ?s = "s_label_here ''a'' ''.text'' s_initial"
  obtain e where "elf_rep e (s_obj ?s)"
    using init_label_refines [OF elf_rep_initial, of "''a''" True "''.text''"]
    by (auto simp: s_label_here_def s_initial_def)
  then have p: "prep (initial_pstate e) ?s"
    by (simp add: prep_def initial_pstate_def s_label_here_def s_initial_def obj_ok_init_label obj_ok_new)
  have "o_labels (s_obj ?s) ''a'' = Some 0"
    by (simp add: s_label_here_def s_initial_def spec_init_label_def spec_new_def spec_last_def)
  then show ?thesis
    using backward_branches_encoded [OF p, of "opcode_init 0x63 0" 1 2 "''a''" 0]
    by (auto simp: opcode_branch_def BEQ_32_def)
qed

text \<open>
  C33: A \<open>j\<close> to a label that is not known yet appends no instruction, only a pending entry. Its index
  is that of the instruction that comes next if the current section is \<open>.text\<close>, and 0 otherwise. If an
  object has this entry, and all its entries have different indices, resolution overwrites the instruction there: it
  keeps its opcode and destination register, but gets as its jump immediate twice the number of instructions from
  the one before it to the index of the label (0 for a label that is not known), cut to 21 bits.
\<close>
theorem forward_jumps_emit_nothing:
  assumes "prep p s" and "o_labels (s_obj s) l = None"
    and "n = (if currentSection p = ''.text'' then length (data (sec_text (elf p))) else 0)"
    and "q = \<lparr>insn_number = of_nat n, pc_insn_number = of_nat n - 1, insn_type = J_TYPE, insn_hash = hasher l\<rparr>"
    and "elf_rep e a" and "q \<in> set (unresolved_instructions e)" and "distinct (map insn_number (unresolved_instructions e))"
    and "n < 2 ^ 32" and "n < length (data (sec_text e))"
    and "v = data (sec_text (resolve_unresolved_instructions junk e)) ! n" and "w = data (sec_text e) ! n"
  shows "(\<exists>p'. exec_instruction (Jump_insn l) p = Inr p' \<and>
      data (sec_text (elf p')) = data (sec_text (elf p)) \<and>
      unresolved_instructions (elf p') = unresolved_instructions (elf p) @ [q]) \<and>
    isa_opcode v = isa_opcode w \<and> isa_rd v = isa_rd w \<and> imm_J v = signed_take_bit 20 (2 *
      ((case map_find (label_to_addr e) (hasher l) of None \<Rightarrow> 0 | Some t \<Rightarrow> t) - (of_nat n - 1)))"
proof -
  have "entry_for J_TYPE l p = q" using assms(3,4) by (simp add: entry_for_def Let_def)
  then show ?thesis
    using forward_jump_emits_nothing [OF assms(1,2)] forward_jump_overwrites [OF assms(5,6,4,8,9,7,10,11)] by auto
qed

theorem forward_jumps_emit_nothing_witness:
  "\<exists>p' e. exec_instruction (Jump_insn ''a'') (initial_pstate ELF32_initial) = Inr p' \<and> add_to_text 0x73 (elf p') = Inr e \<and>
    data (sec_text e) = [0x73] \<and> imm_J (data (sec_text (resolve_unresolved_instructions (\<lambda>_. 0) e)) ! 0) = 2"
proof -
  let ?q = "\<lparr>insn_number = 0, pc_insn_number = - 1, insn_type = J_TYPE, insn_hash = hasher ''a''\<rparr>"
  let ?s = "s_wait J_TYPE ''a'' (s_want ''a'' s_initial)"
  have n: "o_labels (s_obj s_initial) ''a'' = None" by (simp add: s_initial_def spec_new_def)
  obtain p' where p': "exec_instruction (Jump_insn ''a'') (initial_pstate ELF32_initial) = Inr p'" "prep p' ?s"
    using forward_jump_emits_nothing [OF prep_start n] by blast
  have rep: "elf_rep (elf p') (s_obj ?s)" using p'(2) by (simp add: prep_def)
  obtain e where e: "add_to_text 0x73 (elf p') = Inr e" "elf_rep e (spec_add_text 0x73 (s_obj ?s))"
    using add_to_text_refines [OF rep] by blast
  have "unresolved_instructions e = [?q]" "data (sec_text e) = [0x73]" "map_find (label_to_addr e) = Map.empty"
    using e(2) by (simp_all add: elf_rep_def spec_add_text_def s_wait_def s_want_def spec_add_pending_def
        spec_resolve_label_def s_initial_def spec_new_def s_next_def)
  moreover from this have "imm_J (data (sec_text (resolve_unresolved_instructions (\<lambda>_. 0) e)) ! 0) = signed_take_bit 20 2"
    using forward_jumps_emit_nothing [OF prep_start n _ _ e(2) _ _ _ _ refl refl, where n = 0 and q = ?q and junk = "\<lambda>_. 0"]
    by (simp add: initial_pstate_def)
  moreover have "signed_take_bit 20 2 = (2 :: u32)" by code_simp
  ultimately show ?thesis using p'(1) e(1) by fastforce
qed

section \<open>Components\<close>

text \<open>
  C34: An even offset in the signed range of 13 bits survives the encoding as a branch immediate,
  and one in the range of 21 bits that as a jump immediate.
\<close>
theorem offsets_survive_encoding:
  assumes "even x" and "- (2 ^ 12) \<le> sint x" and "sint x < 2 ^ 12"
    and "even y" and "- (2 ^ 20) \<le> sint y" and "sint y < 2 ^ 20"
  shows "imm_B (emit_b_type_instruction x rs2 rs1 f3 op7) = x \<and> imm_J (emit_j_type_instruction y rd opj) = y"
  using assms even_word_clear_lsb [of x] even_word_clear_lsb [of y]
  by (simp add: emit_b_fields emit_j_fields signed_take_bit_word_self)

theorem offsets_survive_encoding_witness:
  "imm_B (emit_b_type_instruction 16 1 2 0 0x63) = 16 \<and> imm_J (emit_j_type_instruction (- 16) 0 0x6f) = - 16"
  by (rule offsets_survive_encoding) simp_all

text \<open>
  C35: Taking an instruction word apart into the bit fields of its format and putting the fields
  together again gives the word, for the four formats that can be deserialised; and the number
  that the debug printer assembles with shifts and masks is the word the structure converts to.
\<close>
theorem formats_round_trip:
  "stype32_to_uint32 (stype32_deserialize v) = v \<and> utype32_to_uint32 (utype32_deserialize v) = v \<and>
   btype32_to_uint32 (btype32_deserialize v) = v \<and> jtype32_to_uint32 (jtype32_deserialize v) = v \<and>
   stype32_deserialize (stype32_to_uint32 s) = s \<and> utype32_deserialize (utype32_to_uint32 u) = u \<and>
   btype32_deserialize (btype32_to_uint32 b) = b \<and> jtype32_deserialize (jtype32_to_uint32 j) = j \<and>
   print_instruction_hex_encoded r = rtype32_to_uint32 r"
  by (simp add: print_instruction_hex_agrees)

text \<open>
  C36: The bytes that the three \<open>serialize\<close> members write, copied into the structure on a
  little-endian host, give the structure back; they are 52, 40 and 16 bytes long. A 32-bit integer
  in big-endian order has the same four bytes in reverse.
\<close>
theorem structures_round_trip:
  assumes "Ehdr_ok h"
  shows "Ehdr_read (os_buf (Elf32_Ehdr_serialize h os_empty)) = h \<and>
    Shdr_read (os_buf (Elf32_Shdr_serialize sh LE os_empty)) = sh \<and>
    Sym_read (os_buf (Elf32_Sym_serialize sy LE os_empty)) = sy \<and>
    length (os_buf (Elf32_Ehdr_serialize h os_empty)) = sizeof_Ehdr \<and>
    length (os_buf (Elf32_Shdr_serialize sh LE os_empty)) = sizeof_Shdr \<and>
    length (os_buf (Elf32_Sym_serialize sy LE os_empty)) = sizeof_Sym \<and>
    read_le (rev (write_bytes v BE)) = v \<and> write_bytes (v :: u32) BE = rev (write_bytes v LE)"
proof -
  have "os_buf (os_write bs os_empty) = bs" for bs by (simp add: os_write_def os_empty_def)
  then show ?thesis
    using assms by (simp add: Ehdr_serialize_image Shdr_serialize_image Sym_serialize_image os_empty_def
        ehdr.dec_enc shdr.dec_enc sym.dec_enc ehdr.length_enc shdr.length_enc sym.length_enc
        u32_le.dec_enc write_bytes_BE)
qed

theorem structures_round_trip_witness:
  "Ehdr_read (os_buf (Elf32_Ehdr_serialize ehdr_template os_empty)) = ehdr_template"
  using structures_round_trip [of ehdr_template] by (simp add: Ehdr_ok_def ehdr_template_def EI_NIDENT_def)

text \<open>
  C37: \<open>add_string\<close> appends the string up to its first zero byte to the list the table stands for,
  returns the offset at which it starts, and records the new size in the table's header; and \<open>get_string\<close>
  finds every string of the new table, the old ones included, at the offset at which it starts.
\<close>
theorem strings_are_kept:
  assumes "strtab_rep t ss" and "header t = Some p" and "p < length hp"
  shows "\<exists>t'. add_string (Some str) t hp =
      Inr (strtab_offset ss, t', hp[p := (hp ! p)\<lparr>sh_size := of_nat (StringTable_size_in_bytes t')\<rparr>])
    \<and> strtab_rep t' (ss @ [c_str str])
    \<and> (\<forall>us r vs. ss @ [c_str str] = us @ r # vs \<longrightarrow> (\<exists>bs. get_string (strtab_offset us) t' = Inr bs \<and> c_str bs = r))"
  using add_string_refines [OF assms, of str] get_string_offset by metis

theorem strings_are_kept_witness:
  "\<exists>t'. add_string (Some ''ab'') ((StringTable_new False)\<lparr>header := Some 0\<rparr>) [zero_Shdr] =
     Inr (1, t', [zero_Shdr\<lparr>sh_size := of_nat (StringTable_size_in_bytes t')\<rparr>]) \<and>
     (\<exists>bs. get_string 1 t' = Inr bs \<and> c_str bs = ''ab'')"
proof -
  have "strtab_rep ((StringTable_new False)\<lparr>header := Some 0\<rparr>) []"
    using strtab_rep_new [of False] by (simp add: strtab_rep_def)
  from strings_are_kept [OF this, of 0 "[zero_Shdr]" "''ab''"] show ?thesis
    by (fastforce simp: strtab_offset_def c_str_def)
qed

text \<open>
  C38: \<open>add_symbol\<close> makes the symbol exist, replacing what was recorded under the name:
  \<open>resolve_symbol\<close> then returns the new data and \<open>symbol_resolved\<close> the new mark, while every other
  symbol keeps its own; and looking a symbol up, known or not, leaves the object as it is.
\<close>
theorem symbols_are_tracked:
  assumes "elf_rep e a" and "e' = add_symbol l sec off idx res lab e"
  shows "(symbol_exists k e' \<longleftrightarrow> k = l \<or> symbol_exists k e) \<and>
    symbol_resolved k e' = (if k = l then res else fst (symbol_resolved k e), e') \<and>
    resolve_symbol k e' = (if k = l then (True, \<lparr>sym_section_idx = sec, sym_offset_idx = off,
      sym_symtab_idx = idx, sym_resolved = res, sym_label = lab\<rparr>, e')
      else (fst (resolve_symbol k e), fst (snd (resolve_symbol k e)), e'))"
proof -
  have rep: "elf_rep e' (spec_add_symbol l \<lparr>sym_section_idx = sec, sym_offset_idx = off,
      sym_symtab_idx = idx, sym_resolved = res, sym_label = lab\<rparr> a)"
    unfolding assms(2) by (rule add_symbol_refines [OF assms(1)])
  show ?thesis
    by (simp add: symbol_exists_iff [OF rep] symbol_exists_iff [OF assms(1)] resolve_symbol_refines [OF rep]
        resolve_symbol_refines [OF assms(1)] symbol_resolved_refines [OF rep]
        symbol_resolved_refines [OF assms(1)] spec_add_symbol_def)
qed

theorem symbols_are_tracked_witness:
  "symbol_resolved ''m'' (add_symbol ''m'' 3 0 0 True False ELF32_initial) =
     (True, add_symbol ''m'' 3 0 0 True False ELF32_initial)"
  using symbols_are_tracked [OF elf_rep_initial refl, of "''m''" "''m''" 3 0 0 True False] by simp

text \<open>
  C39: \<open>get_section_idx\<close> returns how many section names come before the given one in alphabetical
  order, which is not the index of the section's header (0 and 5 for \<open>.data\<close>), and the largest \<open>size_t\<close> for an unknown
  name.
\<close>
theorem section_index_is_rank:
  assumes "elf_rep e a"
  shows "get_section_idx sec e = (case o_index a sec of None \<Rightarrow> SIZE_MAX
    | Some _ \<Rightarrow> of_nat (card {k \<in> dom (o_index a). k < sec}))"
  using section_idx_refines [OF assms] by (simp add: s_section_idx_def)

theorem section_index_is_rank_witness:
  "get_section_idx ''.bss'' ELF32_initial = SIZE_MAX"
  using section_index_is_rank [OF elf_rep_initial, of "''.bss''"] by (simp add: spec_new_def spec_index_def)

text \<open>
  C40: The output name is the source name with everything from its last dot replaced by \<open>.o\<close>, or
  with \<open>.o\<close> appended if it has no dot.
\<close>
theorem output_names:
  assumes "CHR ''.'' \<notin> set ext"
  shows "generate_dest_filename (stem @ CHR ''.'' # ext) = stem @ ''.o'' \<and> generate_dest_filename ext = ext @ ''.o''"
  using assms by (simp add: generate_dest_filename_ext generate_dest_filename_plain)

theorem output_names_witness:
  "generate_dest_filename ''tests/hello.s'' = ''tests/hello.o''"
  using output_names [of "''s''" "''tests/hello''"] by simp

section \<open>Further consequences\<close>

text \<open>
  The variable that the resolution loop leaves uninitialised when an entry names no
  instruction has no influence on the result of a run.
\<close>
theorem main_ignores_uninitialised:
  "riscvass_main junk writable argv fs = riscvass_main junk' writable argv fs"
  by (simp add: riscvass_main_refines)

text \<open>
  The number in a register token is below 32, so it fits the five bits of the instruction
  formats.
\<close>
theorem register_tokens_bound:
  assumes "T_REG v \<in> set (yylex_all s)"
  shows "v < 32"
  using assms by (rule yylex_all_reg_bound)

theorem register_tokens_bound_witness:
  "T_REG 31 \<in> set (yylex_all ''t6'') \<and> (31 :: u32) < 32"
proof -
  have "yylex_all ''t6'' = [T_REG 31]" by code_simp
  then show ?thesis using register_tokens_bound [of 31 "''t6''"] by simp
qed

text \<open>
  A nonempty string of decimal digits scans to one immediate, the value of the numeral cut to
  the range of \<open>long\<close> and then to 32 bits.
\<close>
theorem decimal_literals:
  assumes "w \<noteq> []" and "set w \<subseteq> set digits_class"
  shows "yylex_all w = [T_IMM (word_of_int (clamp_long (int (foldl (\<lambda>a c. a * 10 + digit_value c) 0 w))))]"
  using assms by (rule decimal_scan)

theorem decimal_literals_witness:
  "yylex_all ''42'' = [T_IMM 42]"
  using decimal_literals [of "''42''"] by (simp add: digits_class_def digit_value_def clamp_long_def)

text \<open>
  The constructor ends without an exception in an object with empty text and data, the null
  symbol, five named sections and their headers.
\<close>
theorem constructor_refines:
  "\<exists>e. ELF32_new = Inr e \<and> elf_rep e spec_new"
  by (rule ELF32_new_refines)

text \<open>
  \<open>resolve_label\<close> returns the recorded index of a known label and leaves the object as it is;
  for another label it returns -1 and the hash, and notes the label as wanted.
\<close>
theorem label_references:
  assumes "elf_rep e a"
  shows "case resolve_label l e of (st, off, e') \<Rightarrow> (case spec_resolve_label l a of
    (st', off', a') \<Rightarrow> st = st' \<and> off = off' \<and> elf_rep e' a')"
  using resolve_label_refines [OF assms] by simp

theorem label_references_witness:
  "fst (resolve_label ''a'' ELF32_initial) = - 1 \<and> fst (snd (resolve_label ''a'' ELF32_initial)) = hasher ''a''"
  using label_references [OF elf_rep_initial, of "''a''"]
  by (auto simp: spec_resolve_label_def spec_new_def split: prod.splits)

text \<open>
  \<open>addi\<close>, \<open>slti\<close> and \<open>xori\<close> with registers and an immediate in range append one word, and the
  manual's decoder reads it as that instruction on those operands.
\<close>
theorem immediate_instructions_encoded:
  assumes "prep p s" and "k \<in> {K_ADDI, K_SLTI, K_XORI}" and "opcode_immediate k = Some c"
    and "d < 32" and "a < 32" and "is_within_range_12b v"
  shows "\<exists>f. imm_alu k = Some f \<and> emits (Imm_insn c d a (IMM_INT v)) p (Some (OpImm f d a v))"
  using assms by (rule imm_correct)

theorem immediate_instructions_encoded_witness:
  "emits (Imm_insn (opcode_init 0x13 0) 1 2 (IMM_INT (- 5))) (initial_pstate ELF32_initial) (Some (OpImm A_ADD 1 2 (- 5)))"
  using immediate_instructions_encoded [OF prep_start, of K_ADDI "opcode_init 0x13 0" 1 2 "- 5"]
  by (simp add: opcode_immediate_def ADDI_32_def imm_alu_def range_defs)

text \<open>
  Loads and stores of every width append one word that decodes to the mnemonic's access with
  the given registers; the displacement is not checked but cut to 12 bits.
\<close>
theorem loads_and_stores_encoded:
  assumes "prep p s" and "opcode_load_store k = Some c" and "d < 32" and "a < 32"
  shows "(\<exists>w. load_width k = Some w \<and> emits (Mem_insn c d i a) p (Some (Load w d a (signed_take_bit 11 i)))) \<or>
    (\<exists>w. store_width k = Some w \<and> emits (Mem_insn c d i a) p (Some (Store w d a (signed_take_bit 11 i))))"
proof (cases "load_width k")
  case None
  then obtain w where "store_width k = Some w"
    using load_store_covered [of k] assms(2) by auto
  then show ?thesis using store_correct [OF assms(1) _ assms(2-4)] by blast
next
  case (Some w)
  then show ?thesis using load_correct [OF assms(1) _ assms(2-4)] by blast
qed

theorem loads_and_stores_encoded_witness:
  "emits (Mem_insn (opcode_init 0x23 2) 1 8 2) (initial_pstate ELF32_initial) (Some (Store W_W 1 2 8))"
proof -
  have "signed_take_bit 11 (8 :: u32) = 8"
    by (simp add: range_defs flip: is_within_range_12b_iff)
  then show ?thesis
    using loads_and_stores_encoded [OF prep_start, of K_SW "opcode_init 0x23 2" 1 2 8]
    by (simp add: opcode_load_store_def opcodes load_width_def store_width_def)
qed

text \<open>
  \<open>add\<close>, \<open>mv\<close> and \<open>ecall\<close> append one word each that decodes to the addition of the two
  registers, the addition of 0 to the source, and the system call.
\<close>
theorem add_mv_ecall_encoded:
  assumes "prep p s" and "d < 32" and "a < 32" and "b < 32"
  shows "emits (Reg_insn (the (opcode K_ADD)) d a b) p (Some (Op A_ADD d a b)) \<and>
    emits (Mov_insn d a) p (Some (OpImm A_ADD d a 0)) \<and> emits (Bare_insn (the (opcode K_ECALL))) p (Some Ecall)"
  using add_correct [OF assms(1) _ assms(2-4)] mov_correct [OF assms(1-3)] ecall_correct [OF assms(1)]
  by (simp add: opcode_def)

theorem add_mv_ecall_encoded_witness:
  "emits (Mov_insn 3 4) (initial_pstate ELF32_initial) (Some (OpImm A_ADD 3 4 0))"
  using add_mv_ecall_encoded [OF prep_start, of 3 4 0] by simp

text \<open>
  \<open>sub\<close> appends the word of an addition, since the function code of its table entry is not
  used; \<open>sltiu\<close>, parsed with three registers, the word of \<open>sltu\<close>; and \<open>ret\<close> a jump to the absolute
  address 1 instead of one through the return address register.
\<close>
theorem sub_sltiu_ret_encoded:
  assumes "prep p s" and "d < 32" and "a < 32" and "b < 32"
  shows "emits (Reg_insn (the (opcode K_SUB)) d a b) p (Some (Op A_ADD d a b)) \<and>
    emits (Reg_insn (the (opcode K_SLTIU)) d a b) p (Some (Op A_SLTU d a b)) \<and>
    emits Ret_insn p (Some (Jalr 0 0 1))"
  using sub_is_add [OF assms(1) _ assms(2-4)] sltiu_is_sltu [OF assms(1) _ assms(2-4)] ret_target [OF assms(1)]
  by (simp add: opcode_def)

theorem sub_sltiu_ret_encoded_witness:
  "emits (Reg_insn (the (opcode K_SUB)) 1 2 3) (initial_pstate ELF32_initial) (Some (Op A_ADD 1 2 3))"
  using sub_sltiu_ret_encoded [OF prep_start, of 1 2 3] by simp

text \<open>
  \<open>andi\<close> appends the word of \<open>ori\<close>, and \<open>ori\<close> with an immediate below 32 that of a logical
  shift to the right: the function codes in their table entries are those of other instructions.
\<close>
theorem andi_ori_encoded:
  assumes "prep p s" and "d < 32" and "a < 32" and "v < 32"
  shows "emits (Imm_insn (the (opcode_immediate K_ANDI)) d a (IMM_INT v)) p (Some (OpImm A_OR d a v)) \<and>
    emits (Imm_insn (the (opcode_immediate K_ORI)) d a (IMM_INT v)) p (Some (OpImm A_SRL d a v))"
  using andi_is_ori [OF assms(1) _ assms(2,3) small_shamt(3) [OF assms(4)]] ori_is_srli [OF assms(1) _ assms(2-4)]
  by (simp add: opcode_immediate_def)

theorem andi_ori_encoded_witness:
  "emits (Imm_insn (the (opcode_immediate K_ORI)) 1 2 (IMM_INT 3)) (initial_pstate ELF32_initial) (Some (OpImm A_SRL 1 2 3))"
  using andi_ori_encoded [OF prep_start, of 1 2 3] by simp

text \<open>
  \<open>add_string\<close> appends the string up to its first zero byte to the list the table stands for,
  returns the offset at which it starts, and records the new size in the table's header.
\<close>
theorem strings_are_added:
  assumes "strtab_rep t ss" and "header t = Some p" and "p < length hp"
  shows "\<exists>t'. add_string (Some str) t hp =
      Inr (strtab_offset ss, t', hp[p := (hp ! p)\<lparr>sh_size := of_nat (StringTable_size_in_bytes t')\<rparr>])
    \<and> strtab_rep t' (ss @ [c_str str])"
  using add_string_refines [OF assms, of str] by blast

theorem strings_are_added_witness:
  "\<exists>t'. add_string (Some ''ab'') ((StringTable_new False)\<lparr>header := Some 0\<rparr>) [zero_Shdr] =
     Inr (1, t', [zero_Shdr\<lparr>sh_size := of_nat (StringTable_size_in_bytes t')\<rparr>]) \<and> strtab_rep t' [''ab'']"
proof -
  have "strtab_rep ((StringTable_new False)\<lparr>header := Some 0\<rparr>) []"
    using strtab_rep_new [of False] by (simp add: strtab_rep_def)
  then show ?thesis
    using strings_are_added [of "(StringTable_new False)\<lparr>header := Some 0\<rparr>" "[]" 0 "[zero_Shdr]" "''ab''"]
    by (simp add: strtab_offset_def nul_free_def)
qed

text \<open>
  \<open>get_string\<close> finds every string of the table at its offset, however many were added after it.
\<close>
theorem strings_are_found:
  assumes "strtab_rep t (ss @ s # rest)"
  shows "\<exists>bs. get_string (strtab_offset ss) t = Inr bs \<and> c_str bs = s"
  using assms by (rule get_string_offset)

theorem strings_are_found_witness:
  "\<exists>bs. get_string 11 (shstrtab ELF32_initial) = Inr bs \<and> c_str bs = ''.strtab''"
proof -
  have "strtab_rep (shstrtab ELF32_initial) ([''.shstrtab''] @ ''.strtab'' # [''.symtab'', ''.text'', ''.data''])"
    using elf_rep_initial by (simp add: elf_rep_def section_names_def)
  from strings_are_found [OF this] show ?thesis by (simp add: strtab_offset_def eval_nat_numeral)
qed

end
